theory Spec2Isabelle
  imports Main "HOL-Library.Word"
begin

unbundle bit_operations_syntax

section \<open>Bytes, slices and errors\<close>

text \<open>
  Go's \<^verbatim>\<open>byte\<close>, \<^verbatim>\<open>uint16\<close> and \<^verbatim>\<open>uint32\<close> are words of that width. The signed
  fields of a message (\<^verbatim>\<open>int32\<close>, \<^verbatim>\<open>int16\<close>, \<^verbatim>\<open>int8\<close>) and Go's \<^verbatim>\<open>int\<close> are modelled as
  \<open>int\<close>: the code only compares them, adds small values and converts them to
  \<^verbatim>\<open>byte\<close> or \<^verbatim>\<open>uint16\<close>, and the conversion keeps the low bits (\<open>word_of_int\<close>).
  A byte slice is the list of its elements; \<^verbatim>\<open>nil\<close> and the empty slice are both \<open>[]\<close>
  except where the code tests \<^verbatim>\<open>buf == nil\<close>, where the slice is a \<open>byte list option\<close>.
\<close>

type_synonym byte = "8 word"

datatype error =
    ErrTooSmall
  | ErrInvalidTokenLen
  | ErrOptionTruncated
  | ErrOptionUnexpectedExtendMarker
  | ErrOptionsTooSmall
  | ErrMessageTruncated
  | ErrMessageInvalidVersion
  | ErrMessageInvalidRSUM8
  | ErrInvalidRCRC16
  | ErrInvalidMessageID int
  | ErrInvalidType int
  | ErrInvalidEncoderID int
  | ErrInvalidEncoderType int
  | ErrUnrecognizedOption "32 word"
  | ErrInvalidOptionLength nat "32 word"
  | ErrShortPacket
  | ErrInvalidVersion
  | ErrTruncated
  | ErrUnexpectedExtendedOptionMarker

text \<open>
  The constructors with arguments stand for the \<^verbatim>\<open>fmt.Errorf\<close> values of the source
  (\<^verbatim>\<open>"invalid MessageID(%v)"\<close>, \<^verbatim>\<open>"unrecognized option %d"\<close>, ...); the last four are the
  \<^verbatim>\<open>errors.New\<close> values of \<^verbatim>\<open>Message.UnmarshalBinary\<close> (\<^verbatim>\<open>"short packet"\<close>,
  \<^verbatim>\<open>"invalid version"\<close>, \<^verbatim>\<open>"truncated"\<close>, \<^verbatim>\<open>"unexpected extended option marker"\<close>).
\<close>

text \<open>A call that panics (index or slice bounds out of range) has no return value.\<close>

datatype 'a outcome = Panic | Return 'a

text \<open>Go's built-in \<^verbatim>\<open>copy(dst, src)\<close>: the first \<open>min (len dst) (len src)\<close> elements.\<close>

definition go_copy :: "'a list \<Rightarrow> 'a list \<Rightarrow> 'a list" where
  "go_copy dst src = take (length dst) src @ drop (length src) dst"

text \<open>
  \<^verbatim>\<open>binary.BigEndian\<close>. The \<^verbatim>\<open>Put\<close> functions are only called on slices that the caller
  has checked to be long enough.
\<close>

definition be16 :: "16 word \<Rightarrow> byte list" where
  "be16 v = [ucast (drop_bit 8 v), ucast v]"

definition be32 :: "32 word \<Rightarrow> byte list" where
  "be32 v = [ucast (drop_bit 24 v), ucast (drop_bit 16 v), ucast (drop_bit 8 v), ucast v]"

definition PutUint16 :: "byte list \<Rightarrow> 16 word \<Rightarrow> byte list" where
  "PutUint16 b v = go_copy b (be16 v)"

definition PutUint32 :: "byte list \<Rightarrow> 32 word \<Rightarrow> byte list" where
  "PutUint32 b v = go_copy b (be32 v)"

definition Uint16 :: "byte list \<Rightarrow> 16 word" where
  "Uint16 b = ucast (b ! 1) OR push_bit 8 (ucast (b ! 0))"

definition Uint32 :: "byte list \<Rightarrow> 32 word" where
  "Uint32 b = ucast (b ! 3) OR push_bit 8 (ucast (b ! 2)) OR push_bit 16 (ucast (b ! 1))
     OR push_bit 24 (ucast (b ! 0))"

section \<open>Variable-length unsigned encoding (secoapcore/encode\_decode\_uint32.go)\<close>

definition max1ByteNumber :: "32 word" where "max1ByteNumber = 0xff"
definition max2ByteNumber :: "32 word" where "max2ByteNumber = 0xffff"
definition max3ByteNumber :: "32 word" where "max3ByteNumber = 0xffffff"

text \<open>\<^verbatim>\<open>EncodeUint32(buf, value)\<close> returns \<^verbatim>\<open>(int, error)\<close> and the buffer as it has written it.\<close>

definition EncodeUint32 :: "byte list \<Rightarrow> 32 word \<Rightarrow> (int \<times> error option) \<times> byte list" where
  "EncodeUint32 buf v =
     (if v = 0 then ((0, None), buf)
      else if v \<le> max1ByteNumber then
        (if length buf < 1 then ((1, Some ErrTooSmall), buf)
         else ((1, None), buf[0 := ucast v]))
      else if v \<le> max2ByteNumber then
        (if length buf < 2 then ((2, Some ErrTooSmall), buf)
         else ((2, None), PutUint16 buf (ucast v)))
      else if v \<le> max3ByteNumber then
        (if length buf < 3 then ((3, Some ErrTooSmall), buf)
         else ((3, None), go_copy buf (drop 1 (PutUint32 [0, 0, 0, 0] v))))
      else
        (if length buf < 4 then ((4, Some ErrTooSmall), buf)
         else ((4, None), PutUint32 buf v)))"

text \<open>\<^verbatim>\<open>DecodeUint32(buf)\<close> returns \<^verbatim>\<open>(uint32, int, error)\<close>; the error is always \<^verbatim>\<open>nil\<close>.\<close>

definition DecodeUint32 :: "byte list \<Rightarrow> 32 word \<times> int" where
  "DecodeUint32 buf0 =
     (let buf = (if length buf0 > 4 then take 4 buf0 else buf0);
          tmp = take (4 - length buf) [0, 0, 0, 0] @ go_copy (drop (4 - length buf) [0, 0, 0, 0]) buf
      in (Uint32 tmp, int (length buf)))"

section \<open>Word facts\<close>

lemma bit_hi_false:
  fixes v :: "'a::len word"
  assumes "unat v < 2 ^ k" and "k \<le> n"
  shows "\<not> bit v n"
proof
  assume b: "bit v n"
  have "(2::nat) ^ k \<le> 2 ^ n" using assms(2) by simp
  with assms(1) have "unat v < 2 ^ n" by (rule less_le_trans)
  then have "unat v div 2 ^ n = 0" by simp
  then have "\<not> bit (unat v) n" by (simp add: bit_iff_odd)
  then show False using b by (simp add: bit_unsigned_iff)
qed

lemma Uint32_be32: "Uint32 (be32 v) = v"
  unfolding Uint32_def be32_def
  apply simp
  apply (rule bit_word_eqI)
  subgoal for n
    by (cases "n < 8"; cases "n < 16"; cases "n < 24") (auto simp: bit_simps)
  done

lemma Uint32_pad1:
  assumes "(v::32 word) \<le> 255"
  shows "Uint32 [0, 0, 0, ucast v] = v"
proof -
  have u: "unat v < 2 ^ 8" using assms by (simp add: word_le_nat_alt)
  show ?thesis
    unfolding Uint32_def
    apply simp
    apply (rule bit_word_eqI)
    subgoal for n
      using bit_hi_false[of v 8 n, OF u]
      by (cases "n < 8") (auto simp: bit_simps)
    done
qed

lemma Uint32_pad2:
  assumes "(v::32 word) \<le> 65535"
  shows "Uint32 [0, 0, ucast (drop_bit 8 v), ucast v] = v"
proof -
  have u: "unat v < 2 ^ 16" using assms by (simp add: word_le_nat_alt)
  show ?thesis
    unfolding Uint32_def
    apply simp
    apply (rule bit_word_eqI)
    subgoal for n
      using bit_hi_false[of v 16 n, OF u]
      by (cases "n < 8"; cases "n < 16") (auto simp: bit_simps)
    done
qed

lemma Uint32_pad3:
  assumes "(v::32 word) \<le> 16777215"
  shows "Uint32 [0, ucast (drop_bit 16 v), ucast (drop_bit 8 v), ucast v] = v"
proof -
  have u: "unat v < 2 ^ 24" using assms by (simp add: word_le_nat_alt)
  show ?thesis
    unfolding Uint32_def
    apply simp
    apply (rule bit_word_eqI)
    subgoal for n
      using bit_hi_false[of v 24 n, OF u]
      by (cases "n < 8"; cases "n < 16"; cases "n < 24") (auto simp: bit_simps)
    done
qed

lemma ucast_drop_bit_16_8:
  "(ucast (drop_bit 8 (ucast (v::32 word) :: 16 word)) :: byte) = ucast (drop_bit 8 v)"
  by (rule bit_word_eqI) (auto simp: bit_simps)

lemma ucast_16_8: "(ucast (ucast (v::32 word) :: 16 word) :: byte) = ucast v"
  by (rule bit_word_eqI) (auto simp: bit_simps)

lemma length_ge4E:
  assumes "4 \<le> length xs"
  obtains a b c d r where "xs = a # b # c # d # r"
  using assms by (auto simp: numeral_eq_Suc Suc_le_length_iff)

lemma rep_num: "replicate 4 x = [x,x,x,x]" "replicate 3 x = [x,x,x]" "replicate 2 x = [x,x]"
  by (simp_all add: numeral_eq_Suc)

lemma drop_bit_hi0:
  fixes v :: "32 word"
  assumes "unat v < 2 ^ k"
  shows "(ucast (drop_bit k v) :: byte) = 0"
  apply (rule bit_word_eqI)
  subgoal for n using bit_hi_false[of v k "k + n", OF assms] by (auto simp: bit_simps)
  done

lemma ucast_byte_lt: "unat (ucast (x::byte) :: 32 word) < 256"
proof -
  have "unat (ucast x :: 32 word) = take_bit 32 (unat x)" by (simp add: unsigned_ucast_eq)
  also have "\<dots> \<le> unat x" by (rule take_bit_nat_less_eq_self)
  also have "\<dots> < 2 ^ LENGTH(8)" by (rule unsigned_less)
  finally show ?thesis by simp
qed

section \<open>EncodeUint32 and DecodeUint32 are inverse\<close>

lemma hd_nz1: "(v::32 word) \<noteq> 0 \<Longrightarrow> v \<le> 255 \<Longrightarrow> (ucast v :: byte) \<noteq> 0"
proof
  assume a: "v \<noteq> 0" "v \<le> 255" and z: "(ucast v :: byte) = 0"
  have "Uint32 [0,0,0, ucast v] = v" using a(2) by (rule Uint32_pad1)
  then have "v = 0" using z by (simp add: Uint32_def)
  with a(1) show False by simp
qed

lemma hd_nz2: "\<not> (v::32 word) \<le> 255 \<Longrightarrow> v \<le> 65535 \<Longrightarrow> (ucast (drop_bit 8 v) :: byte) \<noteq> 0"
proof
  assume a: "\<not> v \<le> 255" "v \<le> 65535" and z: "(ucast (drop_bit 8 v) :: byte) = 0"
  have "Uint32 [0,0,ucast (drop_bit 8 v), ucast v] = v" using a(2) by (rule Uint32_pad2)
  then have "Uint32 [0,0,0, ucast v] = v" using z by simp
  then have "v = ucast (ucast v :: byte)" by (simp add: Uint32_def)
  then have "unat v = unat (ucast (ucast v :: byte) :: 32 word)" by simp
  also have "\<dots> < 256" by (rule ucast_byte_lt)
  finally have "v \<le> 255" by (simp add: word_le_nat_alt)
  with a(1) show False by simp
qed

text \<open>
  Claim C8. For every \<^verbatim>\<open>uint32\<close> value \<open>v\<close> and every buffer of at least four bytes,
  \<^verbatim>\<open>EncodeUint32\<close> returns no error and the byte count \<open>n\<close>: 0 for \<open>v = 0\<close>, 1 up to 255,
  2 up to 65535, 3 up to 16777215 and 4 above. The first \<open>n\<close> bytes of the buffer are the last
  \<open>n\<close> bytes of the four-byte big-endian form of \<open>v\<close>, the bytes left out are zero, the rest of
  the buffer is untouched, and \<^verbatim>\<open>DecodeUint32\<close> on exactly those \<open>n\<close> bytes returns \<open>v\<close> and \<open>n\<close>.
\<close>

theorem EncodeUint32_roundtrip:
  assumes "4 \<le> length buf"
  shows "case EncodeUint32 buf v of ((n, err), buf') \<Rightarrow>
      err = None \<and>
      n = (if v = 0 then 0 else if v \<le> 255 then 1 else if v \<le> 65535 then 2
           else if v \<le> 16777215 then 3 else 4) \<and>
      take (nat n) buf' = drop (4 - nat n) (be32 v) \<and>
      take (4 - nat n) (be32 v) = replicate (4 - nat n) 0 \<and>
      drop (nat n) buf' = drop (nat n) buf \<and>
      length buf' = length buf \<and>
      DecodeUint32 (take (nat n) buf') = (v, n)"
proof -
  obtain b0 b1 b2 b3 rest where buf: "buf = b0 # b1 # b2 # b3 # rest"
    using assms by (rule length_ge4E)
  consider (z) "v = 0" | (a) "v \<noteq> 0" "v \<le> 255" | (b) "\<not> v \<le> 255" "v \<le> 65535"
    | (c) "\<not> v \<le> 65535" "v \<le> 16777215" | (d) "\<not> v \<le> 16777215" by blast
  then show ?thesis
  proof cases
    case z
    then show ?thesis
      by (simp add: EncodeUint32_def DecodeUint32_def be32_def Uint32_def go_copy_def rep_num)
  next
    case a
    have u: "unat v < 2 ^ 8" using a by (simp add: word_le_nat_alt)
    have u16: "unat v < 2 ^ 16" and u24: "unat v < 2 ^ 24" using a by (simp_all add: word_le_nat_alt)
    have le: "v \<le> 65535" "v \<le> 16777215" using a by (simp_all add: word_le_nat_alt)
    from a le show ?thesis
      by (simp add: EncodeUint32_def DecodeUint32_def be32_def go_copy_def buf
          max1ByteNumber_def Uint32_pad1 rep_num drop_bit_hi0[OF u] drop_bit_hi0[OF u16] drop_bit_hi0[OF u24])
  next
    case b
    have u16: "unat v < 2 ^ 16" and u24: "unat v < 2 ^ 24" using b by (simp_all add: word_le_nat_alt)
    have le: "v \<le> 16777215" "v \<noteq> 0" using b by (auto simp add: word_le_nat_alt)
    from b le show ?thesis
      by (simp add: EncodeUint32_def DecodeUint32_def be32_def be16_def go_copy_def buf PutUint16_def
          max1ByteNumber_def max2ByteNumber_def Uint32_pad2 rep_num drop_bit_hi0[OF u16] drop_bit_hi0[OF u24]
          ucast_drop_bit_16_8 ucast_16_8)
  next
    case c
    have u24: "unat v < 2 ^ 24" using c by (simp_all add: word_le_nat_alt)
    have n: "\<not> v \<le> 255" "v \<noteq> 0" using c by (auto simp add: word_le_nat_alt)
    from c n show ?thesis
      by (simp add: EncodeUint32_def DecodeUint32_def be32_def go_copy_def buf PutUint32_def
          max1ByteNumber_def max2ByteNumber_def max3ByteNumber_def Uint32_pad3 rep_num drop_bit_hi0[OF u24])
  next
    case d
    have n: "\<not> v \<le> 255" "\<not> v \<le> 65535" "v \<noteq> 0" using d by (auto simp add: word_le_nat_alt)
    have "Uint32 (be32 v) = v" by (rule Uint32_be32)
    with d n show ?thesis
      by (simp add: EncodeUint32_def DecodeUint32_def be32_def go_copy_def buf PutUint32_def
          max1ByteNumber_def max2ByteNumber_def max3ByteNumber_def)
  qed
qed

theorem EncodeUint32_roundtrip_witness:
  "(4::nat) \<le> length [0::byte, 0, 0, 0] \<and>
   (case EncodeUint32 [0, 0, 0, 0] 65536 of ((n, err), buf') \<Rightarrow>
      err = None \<and>
      n = (if (65536::32 word) = 0 then 0 else if (65536::32 word) \<le> 255 then 1
           else if (65536::32 word) \<le> 65535 then 2
           else if (65536::32 word) \<le> 16777215 then 3 else 4) \<and>
      take (nat n) buf' = drop (4 - nat n) (be32 65536) \<and>
      take (4 - nat n) (be32 65536) = replicate (4 - nat n) 0 \<and>
      drop (nat n) buf' = drop (nat n) [0, 0, 0, 0] \<and>
      length buf' = length [0::byte, 0, 0, 0] \<and>
      DecodeUint32 (take (nat n) buf') = (65536, n))"
  using EncodeUint32_roundtrip[of "[0, 0, 0, 0]" 65536] by simp

text \<open>The boundary values of the specification, on a four-byte zero buffer.\<close>

lemma EncodeUint32_boundaries:
  "EncodeUint32 [0,0,0,0] 0 = ((0, None), [0,0,0,0])"
  "EncodeUint32 [0,0,0,0] 1 = ((1, None), [1,0,0,0])"
  "EncodeUint32 [0,0,0,0] 255 = ((1, None), [255,0,0,0])"
  "EncodeUint32 [0,0,0,0] 256 = ((2, None), [1,0,0,0])"
  "EncodeUint32 [0,0,0,0] 65535 = ((2, None), [255,255,0,0])"
  "EncodeUint32 [0,0,0,0] 65536 = ((3, None), [1,0,0,0])"
  "EncodeUint32 [0,0,0,0] 16777216 = ((4, None), [1,0,0,0])"
  by (simp_all add: EncodeUint32_def max1ByteNumber_def max2ByteNumber_def max3ByteNumber_def PutUint16_def PutUint32_def go_copy_def be16_def be32_def)


section \<open>Validators and the message (secoapcore)\<close>

text \<open>\<^verbatim>\<open>ValidateMID\<close> (msg\_id.go), \<^verbatim>\<open>ValidateType\<close> (msg\_type.go), \<^verbatim>\<open>ValidateVer\<close> (msg\_ver.go),
  \<^verbatim>\<open>ValidateEID\<close> and \<^verbatim>\<open>ValidateETP\<close>.\<close>

definition ValidateMID :: "int \<Rightarrow> bool" where
  "ValidateMID mid = (mid \<ge> 0 \<and> mid \<le> 65535)"

definition ValidateType :: "int \<Rightarrow> bool" where
  "ValidateType typ = (typ \<ge> 0 \<and> typ \<le> 255)"

definition ValidateVer :: "int \<Rightarrow> bool" where
  "ValidateVer typ = (typ \<ge> 0 \<and> typ \<le> 3)"

definition ValidateEID :: "int \<Rightarrow> bool" where
  "ValidateEID eid = (eid \<ge> 0 \<and> eid \<le> 15)"

definition ValidateETP :: "int \<Rightarrow> bool" where
  "ValidateETP etp = (etp \<ge> 0 \<and> etp \<le> 15)"

definition MaxTokenSize :: nat where "MaxTokenSize = 8"

section \<open>Options (message\_option.go)\<close>

type_synonym OptionID = "32 word"

datatype ValueFormat = ValueUnknown | ValueEmpty | ValueOpaque | ValueUint | ValueString

record OptionDef =
  MinLen :: int
  MaxLen :: int
  ValueFormat :: ValueFormat

definition IfMatch :: OptionID where "IfMatch = 1"
definition URIHost :: OptionID where "URIHost = 3"
definition ETag :: OptionID where "ETag = 4"
definition IfNoneMatch :: OptionID where "IfNoneMatch = 5"
definition Observe :: OptionID where "Observe = 6"
definition URIPort :: OptionID where "URIPort = 7"
definition LocationPath :: OptionID where "LocationPath = 8"
definition URIPath :: OptionID where "URIPath = 11"
definition ContentFormat :: OptionID where "ContentFormat = 12"
definition MaxAge :: OptionID where "MaxAge = 14"
definition URIQuery :: OptionID where "URIQuery = 15"
definition Accept :: OptionID where "Accept = 17"
definition LocationQuery :: OptionID where "LocationQuery = 20"
definition Block2 :: OptionID where "Block2 = 23"
definition Block1 :: OptionID where "Block1 = 27"
definition Size2 :: OptionID where "Size2 = 28"
definition ProxyURI :: OptionID where "ProxyURI = 35"
definition ProxyScheme :: OptionID where "ProxyScheme = 39"
definition Size1 :: OptionID where "Size1 = 60"
definition GiterLabID :: OptionID where "GiterLabID = 65000"
definition GiterLabKey :: OptionID where "GiterLabKey = 65001"
definition AccessID :: OptionID where "AccessID = 65002"
definition AccessKey :: OptionID where "AccessKey = 65003"
definition CheckCRC32 :: OptionID where "CheckCRC32 = 65004"
definition EncoderType_ID :: OptionID where "EncoderType_ID = 65005"
definition EncoderID_ID :: OptionID where "EncoderID_ID = 65006"
definition PackageNumber :: OptionID where "PackageNumber = 65100"

lemmas OptionID_defs = IfMatch_def URIHost_def ETag_def IfNoneMatch_def Observe_def URIPort_def
  LocationPath_def URIPath_def ContentFormat_def MaxAge_def URIQuery_def Accept_def
  LocationQuery_def Block2_def Block1_def Size2_def ProxyURI_def ProxyScheme_def Size1_def
  GiterLabID_def GiterLabKey_def AccessID_def AccessKey_def CheckCRC32_def EncoderType_ID_def
  EncoderID_ID_def PackageNumber_def

text \<open>
  \<^verbatim>\<open>CoapOptionDefs\<close>, a Go map, as an association list read by \<open>map_of\<close>. The option
  identifiers \<^verbatim>\<open>EncoderType\<close> and \<^verbatim>\<open>EncoderID\<close> carry the suffix \<open>_ID\<close> here, the message
  has fields of the same names.
\<close>

definition CoapOptionDefs_list :: "(OptionID \<times> OptionDef) list" where
  "CoapOptionDefs_list =
    [(IfMatch, \<lparr>MinLen = 0, MaxLen = 8, ValueFormat = ValueOpaque\<rparr>),
     (URIHost, \<lparr>MinLen = 1, MaxLen = 255, ValueFormat = ValueString\<rparr>),
     (ETag, \<lparr>MinLen = 1, MaxLen = 8, ValueFormat = ValueOpaque\<rparr>),
     (IfNoneMatch, \<lparr>MinLen = 0, MaxLen = 0, ValueFormat = ValueEmpty\<rparr>),
     (Observe, \<lparr>MinLen = 0, MaxLen = 3, ValueFormat = ValueUint\<rparr>),
     (URIPort, \<lparr>MinLen = 0, MaxLen = 2, ValueFormat = ValueUint\<rparr>),
     (LocationPath, \<lparr>MinLen = 0, MaxLen = 255, ValueFormat = ValueString\<rparr>),
     (URIPath, \<lparr>MinLen = 0, MaxLen = 255, ValueFormat = ValueString\<rparr>),
     (ContentFormat, \<lparr>MinLen = 0, MaxLen = 2, ValueFormat = ValueUint\<rparr>),
     (MaxAge, \<lparr>MinLen = 0, MaxLen = 4, ValueFormat = ValueUint\<rparr>),
     (URIQuery, \<lparr>MinLen = 0, MaxLen = 255, ValueFormat = ValueString\<rparr>),
     (Accept, \<lparr>MinLen = 0, MaxLen = 2, ValueFormat = ValueUint\<rparr>),
     (LocationQuery, \<lparr>MinLen = 0, MaxLen = 255, ValueFormat = ValueString\<rparr>),
     (Block2, \<lparr>MinLen = 0, MaxLen = 3, ValueFormat = ValueUint\<rparr>),
     (Block1, \<lparr>MinLen = 0, MaxLen = 3, ValueFormat = ValueUint\<rparr>),
     (Size2, \<lparr>MinLen = 0, MaxLen = 4, ValueFormat = ValueUint\<rparr>),
     (ProxyURI, \<lparr>MinLen = 1, MaxLen = 1034, ValueFormat = ValueString\<rparr>),
     (ProxyScheme, \<lparr>MinLen = 1, MaxLen = 255, ValueFormat = ValueString\<rparr>),
     (Size1, \<lparr>MinLen = 0, MaxLen = 4, ValueFormat = ValueUint\<rparr>),
     (GiterLabID, \<lparr>MinLen = 0, MaxLen = 255, ValueFormat = ValueString\<rparr>),
     (GiterLabKey, \<lparr>MinLen = 0, MaxLen = 255, ValueFormat = ValueString\<rparr>),
     (AccessID, \<lparr>MinLen = 0, MaxLen = 255, ValueFormat = ValueString\<rparr>),
     (AccessKey, \<lparr>MinLen = 0, MaxLen = 255, ValueFormat = ValueString\<rparr>),
     (CheckCRC32, \<lparr>MinLen = 0, MaxLen = 4, ValueFormat = ValueUint\<rparr>),
     (EncoderType_ID, \<lparr>MinLen = 0, MaxLen = 4, ValueFormat = ValueUint\<rparr>),
     (EncoderID_ID, \<lparr>MinLen = 0, MaxLen = 4, ValueFormat = ValueUint\<rparr>),
     (PackageNumber, \<lparr>MinLen = 0, MaxLen = 2, ValueFormat = ValueUint\<rparr>)]"

definition CoapOptionDefs :: "OptionID \<rightharpoonup> OptionDef" where
  "CoapOptionDefs = map_of CoapOptionDefs_list"

text \<open>Indexing a Go map at a missing key gives the zero value of the element type.\<close>

definition map_index :: "(OptionID \<rightharpoonup> OptionDef) \<Rightarrow> OptionID \<Rightarrow> OptionDef" where
  "map_index optionDefs optionID =
     (case optionDefs optionID of
        None \<Rightarrow> \<lparr>MinLen = 0, MaxLen = 0, ValueFormat = ValueUnknown\<rparr>
      | Some d \<Rightarrow> d)"

definition VerifyOptLen :: "(OptionID \<rightharpoonup> OptionDef) \<Rightarrow> OptionID \<Rightarrow> int \<Rightarrow> bool" where
  "VerifyOptLen optionDefs optionID valueLen =
     (let d = map_index optionDefs optionID
      in if valueLen < MinLen d \<or> valueLen > MaxLen d then False else True)"

text \<open>
  \<^verbatim>\<open>Option.Value\<close> is an \<^verbatim>\<open>interface{}\<close>. The datatype has the dynamic types that
  \<^verbatim>\<open>Option.ToBytes\<close> accepts; on any other it panics. A Go string is its byte sequence.
\<close>

datatype OptValue =
    VString "byte list"
  | VBytes "byte list"
  | VMediaType "16 word"
  | VInt int
  | VInt32 int
  | VUint nat
  | VUint32 "32 word"

record Option =
  ID :: OptionID
  Value :: OptValue

definition encodeInt :: "32 word \<Rightarrow> byte list" where
  "encodeInt v =
     (if v = 0 then []
      else if v < 256 then [ucast v]
      else if v < 65536 then PutUint16 [0, 0] (ucast v)
      else if v < 16777216 then drop 1 (PutUint32 [0, 0, 0, 0] v)
      else PutUint32 [0, 0, 0, 0] v)"

text \<open>
  A decode step returns \<open>Ok\<close> with its values, or \<open>Fail\<close> with the error (the integer the
  source returns beside an error is \<open>-1\<close>), or it panics.
\<close>

datatype 'a res = GoPanic | Fail error | Ok 'a

text \<open>\<^verbatim>\<open>decodeInt\<close>: the slice expression \<^verbatim>\<open>tmp[4-len(b):]\<close> panics for more than four bytes.\<close>

definition decodeInt :: "byte list \<Rightarrow> 32 word res" where
  "decodeInt b =
     (if length b > 4 then GoPanic
      else Ok (Uint32 (take (4 - length b) [0, 0, 0, 0] @ go_copy (drop (4 - length b) [0, 0, 0, 0]) b)))"

definition ExtendOptionByteCode :: int where "ExtendOptionByteCode = 13"
definition ExtendOptionByteAddend :: int where "ExtendOptionByteAddend = 13"
definition ExtendOptionWordCode :: int where "ExtendOptionWordCode = 14"
definition ExtendOptionWordAddend :: int where "ExtendOptionWordAddend = 269"
definition ExtendOptionError :: int where "ExtendOptionError = 15"

lemmas ExtendOption_defs = ExtendOptionByteCode_def ExtendOptionByteAddend_def
  ExtendOptionWordCode_def ExtendOptionWordAddend_def ExtendOptionError_def

definition extendOpt :: "int \<Rightarrow> int \<times> int" where
  "extendOpt opt =
     (if opt \<ge> ExtendOptionByteAddend then
        (if opt \<ge> ExtendOptionWordAddend then (ExtendOptionWordCode, opt - ExtendOptionWordAddend)
         else (ExtendOptionByteCode, opt - ExtendOptionByteAddend))
      else (opt, 0))"

text \<open>\<^verbatim>\<open>parseExtOpt(data, opt)\<close> returns \<^verbatim>\<open>(processed, opt, error)\<close>.\<close>

definition parseExtOpt :: "byte list \<Rightarrow> int \<Rightarrow> (int \<times> int) res" where
  "parseExtOpt data opt =
     (if opt = ExtendOptionByteCode then
        (if length data < 1 then Fail ErrOptionTruncated
         else Ok (1, uint (data ! 0) + ExtendOptionByteAddend))
      else if opt = ExtendOptionWordCode then
        (if length data < 2 then Fail ErrOptionTruncated
         else Ok (2, uint (Uint16 (take 2 data)) + ExtendOptionWordAddend))
      else Ok (0, opt))"

text \<open>
  The marshalling functions return \<^verbatim>\<open>(int, error)\<close> and the buffer as they leave it. They
  read only the length of the buffer they are given, so \<^verbatim>\<open>nil\<close> is passed as \<open>[]\<close>; where the
  source sets \<^verbatim>\<open>buf = nil\<close> and later tests it, the model keeps a flag.
\<close>

definition marshalOptionHeaderExt :: "byte list \<Rightarrow> int \<Rightarrow> int \<Rightarrow> (int \<times> error option) \<times> byte list" where
  "marshalOptionHeaderExt buf opt ext =
     (if opt = ExtendOptionByteCode then
        (if length buf > 0 then ((1, None), buf[0 := word_of_int ext])
         else ((1, Some ErrTooSmall), buf))
      else if opt = ExtendOptionWordCode then
        (if length buf > 1 then ((2, None), PutUint16 buf (word_of_int ext))
         else ((2, Some ErrTooSmall), buf))
      else ((0, None), buf))"

definition marshalOptionHeader :: "byte list \<Rightarrow> int \<Rightarrow> int \<Rightarrow> (int \<times> error option) \<times> byte list" where
  "marshalOptionHeader buf0 delta len =
     (let (d, dx) = extendOpt delta;
          (l, lx) = extendOpt len;
          nil0 = \<not> length buf0 > 0;
          buf1 = (if length buf0 > 0 then buf0[0 := word_of_int (push_bit 4 d) OR word_of_int l] else buf0);
          size1 = 1;
          ((lenBuf1, err1), ext1) =
             (if nil0 then marshalOptionHeaderExt [] d dx
              else marshalOptionHeaderExt (drop (nat size1) buf1) d dx);
          buf2 = (if nil0 then buf1 else take (nat size1) buf1 @ ext1)
      in case (case err1 of None \<Rightarrow> Inr nil0
                 | Some e \<Rightarrow> if e = ErrTooSmall then Inr True else Inl e) of
           Inl e \<Rightarrow> ((-1, Some e), buf2)
         | Inr nil1 \<Rightarrow>
            (let size2 = size1 + lenBuf1;
                 ((lenBuf2, err2), ext2) =
                   (if nil1 then marshalOptionHeaderExt [] l lx
                    else marshalOptionHeaderExt (drop (nat size2) buf2) l lx);
                 buf3 = (if nil1 then buf2 else take (nat size2) buf2 @ ext2)
             in case (case err2 of None \<Rightarrow> Inr nil1
                        | Some e \<Rightarrow> if e = ErrTooSmall then Inr True else Inl e) of
                  Inl e \<Rightarrow> ((-1, Some e), buf3)
                | Inr nil2 \<Rightarrow>
                   (let size3 = size2 + lenBuf2
                    in if nil2 then ((size3, Some ErrTooSmall), buf3)
                       else ((size3, None), buf3))))"

definition ToBytes :: "Option \<Rightarrow> byte list" where
  "ToBytes o' =
     (case Value o' of
        VString i \<Rightarrow> i
      | VBytes i \<Rightarrow> i
      | VMediaType i \<Rightarrow> encodeInt (ucast i)
      | VInt i \<Rightarrow> encodeInt (word_of_int i)
      | VInt32 i \<Rightarrow> encodeInt (word_of_int i)
      | VUint i \<Rightarrow> encodeInt (of_nat i)
      | VUint32 i \<Rightarrow> encodeInt i)"

definition MarshalValue :: "Option \<Rightarrow> byte list \<Rightarrow> (int \<times> error option) \<times> byte list" where
  "MarshalValue o' buf =
     (let v = ToBytes o'
      in if length buf < length v then ((int (length v), Some ErrTooSmall), buf)
         else ((int (length v), None), go_copy buf v))"

text \<open>\<^verbatim>\<open>Option.Marshal(buf, previousID)\<close>.\<close>

definition Option_Marshal :: "Option \<Rightarrow> byte list \<Rightarrow> OptionID \<Rightarrow> (int \<times> error option) \<times> byte list" where
  "Option_Marshal o' buf0 previousID =
     (let delta = uint (ID o') - uint previousID;
          (lenBuf0, err0) = fst (MarshalValue o' [])
      in if err0 \<noteq> None \<and> err0 \<noteq> Some ErrTooSmall then ((-1, err0), buf0)
         else
          (let ((lenBuf1, err1), buf1) = marshalOptionHeader buf0 delta lenBuf0
           in case (case err1 of None \<Rightarrow> Inr False
                      | Some e \<Rightarrow> if e = ErrTooSmall then Inr True else Inl e) of
                Inl e \<Rightarrow> ((-1, Some e), buf1)
              | Inr nil1 \<Rightarrow>
                 (let len1 = lenBuf1;
                      ((lenBuf2, err2), val2) =
                        (if nil1 then MarshalValue o' []
                         else MarshalValue o' (drop (nat len1) buf1));
                      buf2 = (if nil1 then buf1 else take (nat len1) buf1 @ val2)
                  in case (case err2 of None \<Rightarrow> Inr nil1
                             | Some e \<Rightarrow> if e = ErrTooSmall then Inr True else Inl e) of
                       Inl e \<Rightarrow> ((-1, Some e), buf2)
                     | Inr nil2 \<Rightarrow>
                        (let len2 = len1 + lenBuf2
                         in if nil2 then ((len2, Some ErrTooSmall), buf2)
                            else ((len2, None), buf2)))))"


text \<open>
  \<^verbatim>\<open>Option.UnmarshalValue(optionDefs, buf)\<close> and \<^verbatim>\<open>Option.Unmarshal(optionDefs, optionID, data)\<close>
  have a pointer receiver: the model takes the option and returns it as the call leaves it.
  For \<^verbatim>\<open>ContentFormat\<close> and \<^verbatim>\<open>Accept\<close> the source stores a \<^verbatim>\<open>MediaType\<close> and then overwrites
  it with the plain \<^verbatim>\<open>uint32\<close>.
\<close>

definition UnmarshalValue :: "(OptionID \<rightharpoonup> OptionDef) \<Rightarrow> Option \<Rightarrow> byte list \<Rightarrow> (int \<times> Option) res" where
  "UnmarshalValue optionDefs o' buf =
     (case optionDefs (ID o') of
        Some d \<Rightarrow>
          (let valueLen = int (length buf)
           in if \<not> VerifyOptLen optionDefs (ID o') valueLen
              then Fail (ErrInvalidOptionLength (length buf) (ID o'))
              else
                (case ValueFormat d of
                   ValueUint \<Rightarrow>
                     (case decodeInt buf of
                        GoPanic \<Rightarrow> GoPanic
                      | Fail e \<Rightarrow> Fail e
                      | Ok intValue \<Rightarrow>
                          (let o1 = (if ID o' = ContentFormat \<or> ID o' = Accept
                                     then o'\<lparr>Value := VMediaType (ucast intValue)\<rparr> else o')
                           in Ok (int (length buf), o1\<lparr>Value := VUint32 intValue\<rparr>)))
                 | ValueString \<Rightarrow> Ok (int (length buf), o'\<lparr>Value := VString buf\<rparr>)
                 | ValueOpaque \<Rightarrow> Ok (int (length buf), o'\<lparr>Value := VBytes buf\<rparr>)
                 | ValueEmpty \<Rightarrow> Ok (int (length buf), o'\<lparr>Value := VBytes buf\<rparr>)
                 | ValueUnknown \<Rightarrow> Ok (int (length buf), o')))
      | None \<Rightarrow> Fail (ErrUnrecognizedOption (ID o')))"

definition Option_Unmarshal ::
  "(OptionID \<rightharpoonup> OptionDef) \<Rightarrow> Option \<Rightarrow> OptionID \<Rightarrow> byte list \<Rightarrow> (int \<times> Option) res" where
  "Option_Unmarshal optionDefs o' optionID data =
     (case optionDefs optionID of
        None \<Rightarrow> Fail (ErrUnrecognizedOption optionID)
      | Some d \<Rightarrow>
          if ValueFormat d = ValueUnknown then Ok (int (length data), o')
          else
            (let valueLen = int (length data)
             in if \<not> VerifyOptLen optionDefs optionID valueLen then Ok (valueLen, o')
                else
                  (case UnmarshalValue optionDefs (o'\<lparr>ID := optionID\<rparr>) data of
                     GoPanic \<Rightarrow> GoPanic
                   | Fail e \<Rightarrow> Fail e
                   | Ok (proc, o2) \<Rightarrow> Ok (proc, o2))))"

text \<open>\<^verbatim>\<open>parseOptionValue(optionID, valueBuf)\<close> reads \<^verbatim>\<open>CoapOptionDefs\<close>; \<open>None\<close> is \<^verbatim>\<open>nil\<close>.\<close>

definition parseOptionValue :: "OptionID \<Rightarrow> byte list \<Rightarrow> OptValue option res" where
  "parseOptionValue optionID valueBuf =
     (let d = map_index CoapOptionDefs optionID
      in if ValueFormat d = ValueUnknown then Ok None
         else if int (length valueBuf) < MinLen d \<or> int (length valueBuf) > MaxLen d then Ok None
         else
           (case ValueFormat d of
              ValueUint \<Rightarrow>
                (case decodeInt valueBuf of
                   GoPanic \<Rightarrow> GoPanic
                 | Fail e \<Rightarrow> Fail e
                 | Ok intValue \<Rightarrow>
                     if optionID = ContentFormat \<or> optionID = Accept
                     then Ok (Some (VMediaType (ucast intValue)))
                     else Ok (Some (VUint32 intValue)))
            | ValueString \<Rightarrow> Ok (Some (VString valueBuf))
            | ValueOpaque \<Rightarrow> Ok (Some (VBytes valueBuf))
            | ValueEmpty \<Rightarrow> Ok (Some (VBytes valueBuf))
            | ValueUnknown \<Rightarrow> Ok None))"

section \<open>Checksums\<close>

text \<open>
  Modelled from the spec: \<^verbatim>\<open>RSUM8\<close> (its source file is not among the sources; rsum\_test.go
  and the protocol description are). The spec defines it by \<^verbatim>\<open>sum += ~byte\<close> over all bytes,
  modulo 256.
\<close>

definition RSUM8 :: "byte list \<Rightarrow> byte" where
  "RSUM8 data = foldl (\<lambda>sum b. sum + NOT b) 0 data"

text \<open>
  Modelled from the spec: \<^verbatim>\<open>CRC16Bytes\<close> calls the CRC16-MODBUS of an external library. The
  spec gives the reflected polynomial \<open>0xA001\<close> and the initial value \<open>0xFFFF\<close>.
\<close>

definition crc16_shift :: "16 word \<Rightarrow> 16 word" where
  "crc16_shift c = (if bit c 0 then drop_bit 1 c XOR 0xA001 else drop_bit 1 c)"

definition crc16_update :: "16 word \<Rightarrow> byte \<Rightarrow> 16 word" where
  "crc16_update c b = (crc16_shift ^^ 8) (c XOR ucast b)"

definition CRC16Bytes :: "byte list \<Rightarrow> 16 word" where
  "CRC16Bytes data = foldl crc16_update 0xFFFF data"

section \<open>The message (secoapcore/msg\_message.go)\<close>

text \<open>
  \<open>OptsCap\<close> is the capacity of the slice \<^verbatim>\<open>Opts\<close>. The message of the root package
  (\<^verbatim>\<open>secoap.Message\<close>) has the fields \<^verbatim>\<open>Token\<close>, \<^verbatim>\<open>Opts\<close>, \<^verbatim>\<open>Code\<close>, \<^verbatim>\<open>Payload\<close>, \<^verbatim>\<open>MessageID\<close>
  and \<^verbatim>\<open>Type\<close> of this record only; its functions leave the other fields as they are.
\<close>

record Message =
  Ver :: int
  Token :: "byte list"
  Opts :: "Option list"
  OptsCap :: nat
  Code :: byte
  Payload :: "byte list"
  MessageID :: int
  Type :: int
  EncoderID :: int
  EncoderType :: int
  Crc16 :: "16 word"
  Rsum8 :: byte

definition Version0 :: int where "Version0 = 0"
definition Version1 :: int where "Version1 = 1"
definition Version2 :: int where "Version2 = 2"

definition GET :: byte where "GET = 1"
definition POST :: byte where "POST = 2"

definition Confirmable :: int where "Confirmable = 0"
definition NonConfirmable :: int where "NonConfirmable = 1"
definition Acknowledgement :: int where "Acknowledgement = 2"

section \<open>The option list codec\<close>

text \<open>
  Modelled from the spec: \<^verbatim>\<open>Options.Marshal\<close> (secoapcore/options.go is not among the
  sources). The options are written in nondecreasing ID order by a stable sort, each by
  \<^verbatim>\<open>Option.Marshal\<close> with the ID before it (0 for the first); with a \<^verbatim>\<open>nil\<close> buffer, or once
  the buffer is too small, only the lengths are added and the result is the required
  total length with \<^verbatim>\<open>ErrTooSmall\<close>. The flag is \<^verbatim>\<open>buf == nil\<close>.
\<close>

fun Options_Marshal_loop ::
  "Option list \<Rightarrow> byte list \<Rightarrow> bool \<Rightarrow> OptionID \<Rightarrow> int \<Rightarrow> (int \<times> error option) \<times> byte list" where
  "Options_Marshal_loop [] buf nil previousID len =
     (if nil then ((len, Some ErrTooSmall), buf) else ((len, None), buf))"
| "Options_Marshal_loop (o' # os) buf nil previousID len =
     (let ((optionLength, err), sub) =
            (if nil then Option_Marshal o' [] previousID
             else Option_Marshal o' (drop (nat len) buf) previousID);
          buf' = (if nil then buf else take (nat len) buf @ sub)
      in case err of
           None \<Rightarrow> Options_Marshal_loop os buf' nil (ID o') (len + optionLength)
         | Some e \<Rightarrow>
             if e = ErrTooSmall then Options_Marshal_loop os buf' True (ID o') (len + optionLength)
             else ((-1, Some e), buf'))"

definition Options_Marshal :: "Option list \<Rightarrow> byte list option \<Rightarrow> (int \<times> error option) \<times> byte list" where
  "Options_Marshal options buf =
     Options_Marshal_loop (sort_key ID options) (case buf of None \<Rightarrow> [] | Some b \<Rightarrow> b) (buf = None) 0 0"

text \<open>
  Modelled from the spec: \<^verbatim>\<open>Options.Unmarshal\<close> (secoapcore/options.go is not among the
  sources). It parses options until the data ends or a byte \<open>0xFF\<close> is seen (which it
  counts), restores the IDs as the running sum of the deltas, fails with
  \<^verbatim>\<open>ErrOptionUnexpectedExtendMarker\<close> on a nibble 15, with \<^verbatim>\<open>ErrOptionTruncated\<close> when the
  header or the value runs off the end, with \<^verbatim>\<open>ErrOptionsTooSmall\<close> when the container is
  full, and returns the error of \<^verbatim>\<open>Option.Unmarshal\<close>. Each option is parsed into a fresh
  \<^verbatim>\<open>Option{}\<close> (ID 0; its \<^verbatim>\<open>nil\<close> value is written \<open>VBytes []\<close>) and appended when
  \<^verbatim>\<open>Option.Unmarshal\<close> has set its ID; options parsed before an error stay in the container
  (\<^verbatim>\<open>Message.decode\<close> doubles \<^verbatim>\<open>len(r.msg.Opts)\<close> after \<^verbatim>\<open>ErrOptionsTooSmall\<close>). The result
  is the number of bytes consumed.
\<close>

definition zeroOption :: Option where
  "zeroOption = \<lparr>ID = 0, Value = VBytes []\<rparr>"

function Options_Unmarshal_loop ::
  "(OptionID \<rightharpoonup> OptionDef) \<Rightarrow> nat \<Rightarrow> byte list \<Rightarrow> int \<Rightarrow> int \<Rightarrow> Option list \<Rightarrow> int res \<times> Option list" where
  "Options_Unmarshal_loop optionDefs cap data prev processed opts =
     (case data of
        [] \<Rightarrow> (Ok processed, opts)
      | h # t \<Rightarrow>
          if h = 0xff then (Ok (processed + 1), opts)
          else
            (let delta = uint (drop_bit 4 h); len = uint (h AND 0x0f)
             in if delta = ExtendOptionError \<or> len = ExtendOptionError
                then (Fail ErrOptionUnexpectedExtendMarker, opts)
                else
                  (case parseExtOpt t delta of
                     GoPanic \<Rightarrow> (GoPanic, opts)
                   | Fail e \<Rightarrow> (Fail e, opts)
                   | Ok (proc1, delta') \<Rightarrow>
                       (case parseExtOpt (drop (nat proc1) t) len of
                          GoPanic \<Rightarrow> (GoPanic, opts)
                        | Fail e \<Rightarrow> (Fail e, opts)
                        | Ok (proc2, len') \<Rightarrow>
                            if int (length (drop (nat proc2) (drop (nat proc1) t))) < len'
                            then (Fail ErrOptionTruncated, opts)
                            else
                              (case Option_Unmarshal optionDefs zeroOption (word_of_int (prev + delta'))
                                      (take (nat len') (drop (nat proc2) (drop (nat proc1) t))) of
                                 GoPanic \<Rightarrow> (GoPanic, opts)
                               | Fail e \<Rightarrow> (Fail e, opts)
                               | Ok (proc3, option) \<Rightarrow>
                                   if cap = length opts then (Fail ErrOptionsTooSmall, opts)
                                   else Options_Unmarshal_loop optionDefs cap
                                          (drop (nat proc3) (drop (nat proc2) (drop (nat proc1) t)))
                                          (uint (word_of_int (prev + delta') :: OptionID))
                                          (processed + 1 + proc1 + proc2 + proc3)
                                          (if ID option \<noteq> 0 then opts @ [option] else opts))))))"
  by pat_completeness auto
termination
  by (relation "measure (\<lambda>(optionDefs, cap, data, prev, processed, opts). length data)") auto

declare Options_Unmarshal_loop.simps [simp del]

definition Options_Unmarshal ::
  "Option list \<Rightarrow> nat \<Rightarrow> byte list \<Rightarrow> (OptionID \<rightharpoonup> OptionDef) \<Rightarrow> int res \<times> Option list" where
  "Options_Unmarshal options cap data optionDefs = Options_Unmarshal_loop optionDefs cap data 0 0 options"


section \<open>The version 1 codec (coder/coderv1/coder.go)\<close>

text \<open>
  \<^verbatim>\<open>Coder.Size\<close> returns \<^verbatim>\<open>(int, error)\<close>. \<^verbatim>\<open>Coder.Encode\<close> returns \<^verbatim>\<open>(int, error)\<close> and the
  buffer as it leaves it, or panics where an index or a slice bound is out of range.
\<close>

definition coderv1_Size :: "Message \<Rightarrow> int \<times> error option" where
  "coderv1_Size m =
     (if length (Token m) > MaxTokenSize then (-1, Some ErrInvalidTokenLen)
      else
        (let sz = 4 + int (length (Token m));
             payloadLen = int (length (Payload m));
             (optionsLen, err) = fst (Options_Marshal (Opts m) None)
         in if err \<noteq> Some ErrTooSmall then (-1, err)
            else
              (let payloadLen' = (if payloadLen > 0 then payloadLen + 1 else payloadLen)
               in (sz + (payloadLen' + optionsLen), None))))"

text \<open>The four bytes that \<^verbatim>\<open>Coder.Encode\<close> stores at \<^verbatim>\<open>buf[0]\<close> to \<^verbatim>\<open>buf[3]\<close>.\<close>

definition coderv1_header :: "Message \<Rightarrow> byte list" where
  "coderv1_header m =
     (let tmpbufMessageID = PutUint16 [0, 0] (word_of_int (MessageID m))
      in [push_bit 6 1 OR push_bit 4 (word_of_int (Type m))
            OR word_of_int (0xf AND int (length (Token m))),
          Code m, tmpbufMessageID ! 0, tmpbufMessageID ! 1])"

definition coderv1_Encode :: "Message \<Rightarrow> byte list \<Rightarrow> ((int \<times> error option) \<times> byte list) outcome" where
  "coderv1_Encode m buf0 =
     (if \<not> ValidateMID (MessageID m) then Return ((-1, Some (ErrInvalidMessageID (MessageID m))), buf0)
      else if \<not> ValidateType (Type m) then Return ((-1, Some (ErrInvalidType (Type m))), buf0)
      else
        (case coderv1_Size m of
           (sz, Some e) \<Rightarrow> Return ((-1, Some e), buf0)
         | (sz, None) \<Rightarrow>
             if int (length buf0) < sz then Return ((sz, Some ErrTooSmall), buf0)
             else if length buf0 < 4 then Panic
             else
               (let hdr = coderv1_header m;
                    buf1 = drop 4 buf0
                in if length (Token m) > MaxTokenSize
                   then Return ((-1, Some ErrInvalidTokenLen), hdr @ buf1)
                   else if length buf1 < length (Token m) then Panic
                   else
                     (let tok = go_copy buf1 (Token m);
                          pre2 = hdr @ take (length (Token m)) tok;
                          ((optionsLen, err), buf2) =
                             Options_Marshal (Opts m) (Some (drop (length (Token m)) tok))
                      in case err of
                           Some e \<Rightarrow>
                             if e = ErrTooSmall then Return ((sz, Some e), pre2 @ buf2)
                             else Return ((-1, Some e), pre2 @ buf2)
                         | None \<Rightarrow>
                             if optionsLen < 0 \<or> nat optionsLen > length buf2 then Panic
                             else
                               (let pre3 = pre2 @ take (nat optionsLen) buf2;
                                    buf3 = drop (nat optionsLen) buf2
                                in if length (Payload m) > 0 then
                                     (if length buf3 < 1 then Panic
                                      else Return ((sz, None),
                                             pre3 @ [0xff] @ go_copy (drop 1 buf3) (Payload m)))
                                   else Return ((sz, None), pre3 @ go_copy buf3 (Payload m)))))))"

text \<open>
  \<^verbatim>\<open>Coder.Decode(data, m)\<close> returns \<^verbatim>\<open>(int, error)\<close> and writes through the pointer \<^verbatim>\<open>m\<close>: the
  model returns the message as the call leaves it.
\<close>

definition coderv1_Decode :: "byte list \<Rightarrow> Message \<Rightarrow> int res \<times> Message" where
  "coderv1_Decode data m =
     (let sz = int (length data)
      in if sz < 4 then (Fail ErrMessageTruncated, m)
         else if drop_bit 6 (data ! 0) \<noteq> 1 then (Fail ErrMessageInvalidVersion, m)
         else
           (let typ = uint (drop_bit 4 (data ! 0) AND 0x3);
                tokenLen = uint (data ! 0 AND 0xf)
            in if tokenLen > 8 then (Fail ErrInvalidTokenLen, m)
               else
                 (let code = data ! 1;
                      messageID = Uint16 (take 2 (drop 2 data));
                      data1 = drop 4 data
                  in if int (length data1) < tokenLen then (Fail ErrMessageTruncated, m)
                     else
                       (let token = take (nat tokenLen) data1;
                            data2 = drop (nat tokenLen) data1;
                            (r, opts) = Options_Unmarshal (Opts m) (OptsCap m) data2 CoapOptionDefs;
                            m1 = m\<lparr>Opts := opts\<rparr>
                        in case r of
                             GoPanic \<Rightarrow> (GoPanic, m1)
                           | Fail e \<Rightarrow> (Fail e, m1)
                           | Ok proc \<Rightarrow>
                               if proc < 0 \<or> nat proc > length data2 then (GoPanic, m1)
                               else (Ok sz,
                                     m1\<lparr>Ver := Version1, Token := token, Code := code,
                                        Payload := drop (nat proc) data2,
                                        MessageID := uint messageID, Type := typ\<rparr>)))))"

section \<open>The version 0 codec (package coderv0)\<close>

definition coderv0_Size :: "Message \<Rightarrow> int \<times> error option" where
  "coderv0_Size m = (4 + int (length (Payload m)), None)"

definition PutUint16_LE :: "byte list \<Rightarrow> 16 word \<Rightarrow> byte list" where
  "PutUint16_LE b v = go_copy b [ucast v, ucast (drop_bit 8 v)]"

definition Uint16_LE :: "byte list \<Rightarrow> 16 word" where
  "Uint16_LE b = ucast (b ! 0) OR push_bit 8 (ucast (b ! 1))"

text \<open>The four bytes that \<^verbatim>\<open>Coder.Encode\<close> stores at \<^verbatim>\<open>pbuf[0]\<close> to \<^verbatim>\<open>pbuf[3]\<close>.\<close>

definition coderv0_header :: "Message \<Rightarrow> byte list" where
  "coderv0_header m =
     (let crc = CRC16Bytes (Payload m);
          tmpbufCRC16 = PutUint16_LE [0, 0] crc
      in [word_of_int (Type m),
          word_of_int (push_bit 4 (EncoderID m)) OR word_of_int (EncoderType m),
          tmpbufCRC16 ! 0, tmpbufCRC16 ! 1])"

definition coderv0_Encode :: "Message \<Rightarrow> byte list \<Rightarrow> ((int \<times> error option) \<times> byte list) outcome" where
  "coderv0_Encode m buf =
     (if \<not> ValidateType (Type m) then Return ((-1, Some (ErrInvalidType (Type m))), buf)
      else if \<not> ValidateEID (EncoderID m) then Return ((-1, Some (ErrInvalidEncoderID (EncoderID m))), buf)
      else if \<not> ValidateETP (EncoderType m) then Return ((-1, Some (ErrInvalidEncoderType (EncoderType m))), buf)
      else
        (case coderv0_Size m of
           (sz, Some e) \<Rightarrow> Return ((-1, Some e), buf)
         | (sz, None) \<Rightarrow>
             if int (length buf) < sz then Return ((sz, Some ErrTooSmall), buf)
             else
               (if length buf < 4 then Panic
                else Return ((sz, None), coderv0_header m @ go_copy (drop 4 buf) (Payload m)))))"

definition coderv0_Decode :: "byte list \<Rightarrow> Message \<Rightarrow> int res \<times> Message" where
  "coderv0_Decode data m =
     (let sz = int (length data)
      in if sz < 4 then (Fail ErrMessageTruncated, m)
         else if drop_bit 6 (data ! 0) \<noteq> 0 then (Fail ErrMessageInvalidVersion, m)
         else
           (let typ = uint (data ! 0 AND 0x3);
                eid = uint (drop_bit 4 (data ! 1));
                etp = uint (data ! 1 AND 0xf);
                crc16 = Uint16_LE (take 2 (drop 2 data));
                m1 = m\<lparr>Ver := Version0, Payload := drop 4 data, Type := typ,
                       EncoderID := eid, EncoderType := etp, Crc16 := crc16\<rparr>
            in if Crc16 m1 \<noteq> CRC16Bytes (Payload m1) then (Fail ErrInvalidRCRC16, m1)
               else (Ok sz, m1)))"


section \<open>The version 2 codec (coder/coderv2/coder.go)\<close>

definition coderv2_Size :: "Message \<Rightarrow> int \<times> error option" where
  "coderv2_Size m =
     (if length (Token m) > MaxTokenSize then (-1, Some ErrInvalidTokenLen)
      else
        (let sz = 8 + int (length (Token m));
             payloadLen = int (length (Payload m));
             (optionsLen, err) = fst (Options_Marshal (Opts m) None)
         in if err \<noteq> Some ErrTooSmall then (-1, err)
            else
              (let payloadLen' = (if payloadLen > 0 then payloadLen + 1 else payloadLen)
               in (sz + (payloadLen' + optionsLen), None))))"

text \<open>
  The header bytes that version 2 writes at \<^verbatim>\<open>buf[0]\<close> to \<^verbatim>\<open>buf[7]\<close>, and the part of
  \<^verbatim>\<open>Coder.Encode\<close> that both copies of the file share: the checks, the header, the token, the
  options, the separator and the payload. Its result is the bytes written before the
  current slice and the current slice (from its start to its length) when it reaches the
  RSUM8 statement, or the early return.
\<close>

definition coderv2_header :: "Message \<Rightarrow> byte list" where
  "coderv2_header m =
     (let tmpbufCRC16 = PutUint16 [0, 0] (CRC16Bytes (Payload m));
          tmpbufMessageID = PutUint16 [0, 0] (word_of_int (MessageID m))
      in [push_bit 6 2 OR push_bit 2 (word_of_int (0xf AND int (length (Token m)))) OR word_of_int (Type m),
          word_of_int (push_bit 4 (EncoderID m)) OR word_of_int (EncoderType m),
          tmpbufCRC16 ! 0, tmpbufCRC16 ! 1,
          tmpbufMessageID ! 0, tmpbufMessageID ! 1,
          Code m, 0x00])"

definition coderv2_layout ::
  "Message \<Rightarrow> byte list \<Rightarrow> (((int \<times> error option) \<times> byte list) + (int \<times> byte list \<times> byte list)) outcome" where
  "coderv2_layout m buf0 =
     (if \<not> ValidateMID (MessageID m) then Return (Inl ((-1, Some (ErrInvalidMessageID (MessageID m))), buf0))
      else if \<not> ValidateType (Type m) then Return (Inl ((-1, Some (ErrInvalidType (Type m))), buf0))
      else if \<not> ValidateEID (EncoderID m) then Return (Inl ((-1, Some (ErrInvalidEncoderID (EncoderID m))), buf0))
      else if \<not> ValidateETP (EncoderType m) then Return (Inl ((-1, Some (ErrInvalidEncoderType (EncoderType m))), buf0))
      else
        (case coderv2_Size m of
           (sz, Some e) \<Rightarrow> Return (Inl ((-1, Some e), buf0))
         | (sz, None) \<Rightarrow>
             if int (length buf0) < sz then Return (Inl ((sz, Some ErrTooSmall), buf0))
             else if length buf0 < 8 then Panic
             else
               (let hdr = coderv2_header m;
                    buf1 = drop 8 buf0
                in if length (Token m) > MaxTokenSize
                   then Return (Inl ((-1, Some ErrInvalidTokenLen), hdr @ buf1))
                   else if length buf1 < length (Token m) then Panic
                   else
                     (let tok = go_copy buf1 (Token m);
                          pre2 = hdr @ take (length (Token m)) tok;
                          ((optionsLen, err), buf2) =
                             Options_Marshal (Opts m) (Some (drop (length (Token m)) tok))
                      in case err of
                           Some e \<Rightarrow>
                             if e = ErrTooSmall then Return (Inl ((sz, Some e), pre2 @ buf2))
                             else Return (Inl ((-1, Some e), pre2 @ buf2))
                         | None \<Rightarrow>
                             if optionsLen < 0 \<or> nat optionsLen > length buf2 then Panic
                             else
                               (let pre3 = pre2 @ take (nat optionsLen) buf2;
                                    buf3 = drop (nat optionsLen) buf2
                                in if length (Payload m) > 0 then
                                     (if length buf3 < 1 then Panic
                                      else Return (Inr (sz, pre3 @ [0xff], go_copy (drop 1 buf3) (Payload m))))
                                   else Return (Inr (sz, pre3, go_copy buf3 (Payload m))))))))"

text \<open>
  \<^verbatim>\<open>Coder.Encode\<close> of coder/coderv2/coder.go advances \<^verbatim>\<open>buf\<close> itself while it writes, so its
  last statement \<^verbatim>\<open>buf[7] = secoapcore.RSUM8(buf[:size])\<close> works on the slice that starts
  at the payload. \<open>extra\<close> are the bytes of the backing array between the length and the
  capacity of the buffer the caller passed: the slice expression may reach into them, and
  panics beyond the capacity.
\<close>

definition coderv2_Encode ::
  "Message \<Rightarrow> byte list \<Rightarrow> byte list \<Rightarrow> ((int \<times> error option) \<times> byte list) outcome" where
  "coderv2_Encode m buf0 extra =
     (case coderv2_layout m buf0 of
        Panic \<Rightarrow> Panic
      | Return (Inl r) \<Rightarrow> Return r
      | Return (Inr (sz, pre, buf)) \<Rightarrow>
          if sz < 0 \<or> nat sz > length buf + length extra then Panic
          else if length buf \<le> 7 then Panic
          else Return ((sz, None), pre @ buf[7 := RSUM8 (take (nat sz) (buf @ extra))]))"

text \<open>
  The other copy of the file (src/unnamed/part\_001) advances a second variable \<^verbatim>\<open>pbuf\<close> and
  ends with \<^verbatim>\<open>buf[7] = secoapcore.RSUM8(buf[0:size])\<close> on the buffer the caller passed.
\<close>

definition coderv2_Encode_part001 ::
  "Message \<Rightarrow> byte list \<Rightarrow> ((int \<times> error option) \<times> byte list) outcome" where
  "coderv2_Encode_part001 m buf0 =
     (case coderv2_layout m buf0 of
        Panic \<Rightarrow> Panic
      | Return (Inl r) \<Rightarrow> Return r
      | Return (Inr (sz, pre, pbuf)) \<Rightarrow>
          (let buf = pre @ pbuf
           in if sz < 0 \<or> nat sz > length buf then Panic
              else if length buf \<le> 7 then Panic
              else Return ((sz, None), buf[7 := RSUM8 (take (nat sz) buf)])))"

text \<open>
  \<^verbatim>\<open>Coder.Decode\<close>. The two copies differ in one statement: part\_001 also assigns
  \<^verbatim>\<open>m.Ver = secoapcore.Version2\<close>; \<open>setVer\<close> says which copy is meant.
\<close>

definition coderv2_Decode_gen :: "bool \<Rightarrow> byte list \<Rightarrow> Message \<Rightarrow> int res \<times> Message" where
  "coderv2_Decode_gen setVer data m =
     (let sz = int (length data)
      in if sz < 8 then (Fail ErrMessageTruncated, m)
         else if RSUM8 data \<noteq> 0 then (Fail ErrMessageInvalidRSUM8, m)
         else if drop_bit 6 (data ! 0) \<noteq> 2 then (Fail ErrMessageInvalidVersion, m)
         else
           (let typ = uint (data ! 0 AND 0x3);
                tokenLen = uint (drop_bit 2 (data ! 0) AND 0xf)
            in if tokenLen > 8 then (Fail ErrInvalidTokenLen, m)
               else
                 (let eid = uint (drop_bit 4 (data ! 1));
                      etp = uint (data ! 1 AND 0xf);
                      crc16 = Uint16 (take 2 (drop 2 data));
                      messageID = Uint16 (take 2 (drop 4 data));
                      code = data ! 6;
                      data1 = drop 8 data
                  in if int (length data1) < tokenLen then (Fail ErrMessageTruncated, m)
                     else
                       (let token = take (nat tokenLen) data1;
                            data2 = drop (nat tokenLen) data1;
                            (r, opts) = Options_Unmarshal (Opts m) (OptsCap m) data2 CoapOptionDefs;
                            m1 = m\<lparr>Opts := opts\<rparr>
                        in case r of
                             GoPanic \<Rightarrow> (GoPanic, m1)
                           | Fail e \<Rightarrow> (Fail e, m1)
                           | Ok proc \<Rightarrow>
                               if proc < 0 \<or> nat proc > length data2 then (GoPanic, m1)
                               else
                                 (let m2 = (if setVer then m1\<lparr>Ver := Version2\<rparr> else m1);
                                      m3 = m2\<lparr>Token := token, Code := code,
                                              Payload := drop (nat proc) data2,
                                              MessageID := uint messageID, Type := typ,
                                              EncoderID := eid, EncoderType := etp, Crc16 := crc16\<rparr>
                                  in if Crc16 m3 \<noteq> CRC16Bytes (Payload m3)
                                     then (Fail ErrInvalidRCRC16, m3)
                                     else (Ok sz, m3))))))"

definition coderv2_Decode :: "byte list \<Rightarrow> Message \<Rightarrow> int res \<times> Message" where
  "coderv2_Decode = coderv2_Decode_gen False"

definition coderv2_Decode_part001 :: "byte list \<Rightarrow> Message \<Rightarrow> int res \<times> Message" where
  "coderv2_Decode_part001 = coderv2_Decode_gen True"

section \<open>The message of the root package (src/unnamed/part\_000)\<close>

text \<open>
  \<^verbatim>\<open>Message.MarshalBinary\<close> writes into a \<^verbatim>\<open>bytes.Buffer\<close>; \<^verbatim>\<open>sort.Stable(&m.Opts)\<close> sorts the
  options of the message in place (by ID: the ordering of \<^verbatim>\<open>Options\<close> is not among the
  sources, the spec names it). The result is the bytes and the message as the call leaves
  it; the error is always \<^verbatim>\<open>nil\<close>.
\<close>

definition writeExt :: "int \<Rightarrow> int \<Rightarrow> byte list" where
  "writeExt opt ext =
     (if opt = ExtendOptionByteCode then [word_of_int ext]
      else if opt = ExtendOptionWordCode then PutUint16 [0, 0] (word_of_int ext)
      else [])"

definition writeOptHeader :: "int \<Rightarrow> int \<Rightarrow> byte list" where
  "writeOptHeader delta len =
     (let (d, dx) = extendOpt delta;
          (l, lx) = extendOpt len
      in [word_of_int (push_bit 4 d) OR word_of_int l] @ writeExt d dx @ writeExt l lx)"

fun MarshalBinary_opts :: "int \<Rightarrow> Option list \<Rightarrow> byte list" where
  "MarshalBinary_opts prev [] = []"
| "MarshalBinary_opts prev (o' # os) =
     (let b = ToBytes o'
      in writeOptHeader (uint (ID o') - prev) (int (length b)) @ b
         @ MarshalBinary_opts (uint (ID o')) os)"

definition MarshalBinary :: "Message \<Rightarrow> byte list \<times> Message" where
  "MarshalBinary m =
     (let tmpbuf = PutUint16 [0, 0] (word_of_int (MessageID m));
          m' = m\<lparr>Opts := sort_key ID (Opts m)\<rparr>
      in ([push_bit 6 1 OR push_bit 4 (word_of_int (Type m)) OR word_of_int (0xf AND int (length (Token m))),
           Code m, tmpbuf ! 0, tmpbuf ! 1]
          @ Token m
          @ MarshalBinary_opts 0 (Opts m')
          @ (if length (Payload m) > 0 then [0xff] else [])
          @ Payload m,
          m'))"

text \<open>
  \<^verbatim>\<open>Message.UnmarshalBinary\<close> writes the fields of \<^verbatim>\<open>m\<close> as it goes. The closure
  \<^verbatim>\<open>parseExtOpt\<close> reads and advances the variable \<^verbatim>\<open>b\<close>.
\<close>

definition UnmarshalBinary_parseExtOpt :: "byte list \<Rightarrow> int \<Rightarrow> (int \<times> byte list) res" where
  "UnmarshalBinary_parseExtOpt b opt =
     (if opt = ExtendOptionByteCode then
        (if length b < 1 then Fail ErrTruncated
         else Ok (uint (b ! 0) + ExtendOptionByteAddend, drop 1 b))
      else if opt = ExtendOptionWordCode then
        (if length b < 2 then Fail ErrTruncated
         else Ok (uint (Uint16 (take 2 b)) + ExtendOptionWordAddend, drop 2 b))
      else Ok (opt, b))"

lemma UnmarshalBinary_parseExtOpt_length:
  "UnmarshalBinary_parseExtOpt b opt = Ok (v, b') \<Longrightarrow> length b' \<le> length b"
  by (auto simp: UnmarshalBinary_parseExtOpt_def split: if_splits)

text \<open>The loop over the options: the error if any, the rest of \<^verbatim>\<open>b\<close> and the options.\<close>

function UnmarshalBinary_loop :: "byte list \<Rightarrow> int \<Rightarrow> Option list \<Rightarrow> unit res \<times> byte list \<times> Option list" where
  "UnmarshalBinary_loop b prev opts =
     (case b of
        [] \<Rightarrow> (Ok (), b, opts)
      | h # t \<Rightarrow>
          if h = 0xff then (Ok (), t, opts)
          else
            (let delta = uint (drop_bit 4 h); len = uint (h AND 0x0f)
             in if delta = ExtendOptionError \<or> len = ExtendOptionError
                then (Fail ErrUnexpectedExtendedOptionMarker, b, opts)
                else
                  (case UnmarshalBinary_parseExtOpt t delta of
                     GoPanic \<Rightarrow> (GoPanic, t, opts)
                   | Fail e \<Rightarrow> (Fail e, t, opts)
                   | Ok (delta', b1) \<Rightarrow>
                       (case UnmarshalBinary_parseExtOpt b1 len of
                          GoPanic \<Rightarrow> (GoPanic, b1, opts)
                        | Fail e \<Rightarrow> (Fail e, b1, opts)
                        | Ok (len', b2) \<Rightarrow>
                            if int (length b2) < len' then (Fail ErrTruncated, b2, opts)
                            else
                              (case parseOptionValue (word_of_int (prev + delta')) (take (nat len') b2) of
                                 GoPanic \<Rightarrow> (GoPanic, b2, opts)
                               | Fail e \<Rightarrow> (Fail e, b2, opts)
                               | Ok opval \<Rightarrow>
                                   UnmarshalBinary_loop (drop (nat len') b2)
                                     (uint (word_of_int (prev + delta') :: OptionID))
                                     (case opval of
                                        None \<Rightarrow> opts
                                      | Some v \<Rightarrow> opts @ [\<lparr>ID = word_of_int (prev + delta'), Value = v\<rparr>]))))))"
  by pat_completeness auto
termination
  apply (relation "measure (\<lambda>(b, prev, opts). length b)")
   apply simp
  apply (auto dest!: UnmarshalBinary_parseExtOpt_length)
  done

declare UnmarshalBinary_loop.simps [simp del]

definition UnmarshalBinary :: "Message \<Rightarrow> byte list \<Rightarrow> unit res \<times> Message" where
  "UnmarshalBinary m data =
     (if length data < 4 then (Fail ErrShortPacket, m)
      else if drop_bit 6 (data ! 0) \<noteq> 1 then (Fail ErrInvalidVersion, m)
      else
        (let m1 = m\<lparr>Type := uint (drop_bit 4 (data ! 0) AND 0x3)\<rparr>;
             tokenLen = uint (data ! 0 AND 0xf)
         in if tokenLen > 8 then (Fail ErrInvalidTokenLen, m1)
            else
              (let m2 = m1\<lparr>Code := data ! 1, MessageID := uint (Uint16 (take 2 (drop 2 data)))\<rparr>;
                   m3 = (if tokenLen > 0 then m2\<lparr>Token := replicate (nat tokenLen) 0\<rparr> else m2)
               in if int (length data) < 4 + tokenLen then (Fail ErrTruncated, m3)
                  else
                    (let m4 = m3\<lparr>Token := go_copy (Token m3) (take (nat tokenLen) (drop 4 data))\<rparr>;
                         (r, b, opts) = UnmarshalBinary_loop (drop (4 + nat tokenLen) data) 0 (Opts m4);
                         m5 = m4\<lparr>Opts := opts\<rparr>
                     in case r of
                          Ok u \<Rightarrow> (Ok (), m5\<lparr>Payload := b\<rparr>)
                        | Fail e \<Rightarrow> (Fail e, m5)
                        | GoPanic \<Rightarrow> (GoPanic, m5)))))"

text \<open>
  \<^verbatim>\<open>ParseMessage\<close> unmarshals into a zero message. \<^verbatim>\<open>Message.Path\<close> collects the values of the
  \<^verbatim>\<open>URIPath\<close> options and asserts that each is a string; \<^verbatim>\<open>PathString\<close> joins them with
  \<^verbatim>\<open>"/"\<close> (the byte \<open>0x2f\<close>).
\<close>

definition zeroMessage :: Message where
  "zeroMessage = \<lparr>Ver = 0, Token = [], Opts = [], OptsCap = 0, Code = 0, Payload = [],
     MessageID = 0, Type = 0, EncoderID = 0, EncoderType = 0, Crc16 = 0, Rsum8 = 0\<rparr>"

definition ParseMessage :: "byte list \<Rightarrow> unit res \<times> Message" where
  "ParseMessage data = UnmarshalBinary zeroMessage data"

definition Message_Options :: "Message \<Rightarrow> OptionID \<Rightarrow> OptValue list" where
  "Message_Options m o' = map Value (filter (\<lambda>v. o' = ID v) (Opts m))"

fun optionStrings_loop :: "OptValue list \<Rightarrow> byte list list outcome" where
  "optionStrings_loop [] = Return []"
| "optionStrings_loop (v # vs) =
     (case v of
        VString s \<Rightarrow> (case optionStrings_loop vs of Panic \<Rightarrow> Panic | Return rv \<Rightarrow> Return (s # rv))
      | _ \<Rightarrow> Panic)"

definition Path :: "Message \<Rightarrow> byte list list outcome" where
  "Path m = optionStrings_loop (Message_Options m URIPath)"

fun Join :: "byte list list \<Rightarrow> byte list \<Rightarrow> byte list" where
  "Join [] sep = []"
| "Join [s] sep = s"
| "Join (s # ss) sep = s @ sep @ Join ss sep"

definition PathString :: "Message \<Rightarrow> byte list outcome" where
  "PathString m = (case Path m of Panic \<Rightarrow> Panic | Return p \<Rightarrow> Return (Join p [0x2f]))"

section \<open>The pooled message (src/unnamed/part\_005)\<close>

text \<open>
  \<^verbatim>\<open>message.Message\<close> wraps a \<^verbatim>\<open>secoapcore.Message\<close>. Of its fields the setters below read
  and write \<^verbatim>\<open>msg\<close> and \<^verbatim>\<open>isModified\<close> only.
\<close>

record pool_Message =
  msg :: Message
  isModified :: bool

definition SetVersion :: "int \<Rightarrow> pool_Message \<Rightarrow> pool_Message" where
  "SetVersion ver r = r\<lparr>msg := (msg r)\<lparr>Ver := ver\<rparr>, isModified := True\<rparr>"

definition UpsertVersion :: "int \<Rightarrow> pool_Message \<Rightarrow> pool_Message" where
  "UpsertVersion ver r = (if ValidateVer ver then r else SetVersion ver r)"

definition SetMessageID :: "int \<Rightarrow> pool_Message \<Rightarrow> pool_Message" where
  "SetMessageID mid r = r\<lparr>msg := (msg r)\<lparr>MessageID := mid\<rparr>, isModified := True\<rparr>"

definition UpsertMessageID :: "int \<Rightarrow> pool_Message \<Rightarrow> pool_Message" where
  "UpsertMessageID mid r = (if ValidateMID (MessageID (msg r)) then r else SetMessageID mid r)"

definition SetType :: "int \<Rightarrow> pool_Message \<Rightarrow> pool_Message" where
  "SetType typ r = r\<lparr>msg := (msg r)\<lparr>Type := typ\<rparr>, isModified := True\<rparr>"

definition UpsertType :: "int \<Rightarrow> pool_Message \<Rightarrow> pool_Message" where
  "UpsertType typ r = (if ValidateType (Type (msg r)) then r else SetType typ r)"


section \<open>UpsertVersion\<close>

text \<open>
  Claim C10. \<^verbatim>\<open>Message.UpsertVersion\<close> validates its argument, not the stored version: for a
  valid argument it returns the message as it was, for an invalid argument it stores the
  argument through \<^verbatim>\<open>SetVersion\<close>. So whenever the version after the call is valid the call
  has changed nothing: it never installs a valid version. \<^verbatim>\<open>UpsertMessageID\<close> and
  \<^verbatim>\<open>UpsertType\<close> test the stored field: they leave a valid field alone and fill an invalid
  one with their argument.
\<close>

theorem UpsertVersion_validates_argument:
  "(ValidateVer v \<longrightarrow> UpsertVersion v r = r) \<and>
   (\<not> ValidateVer v \<longrightarrow> UpsertVersion v r = r\<lparr>msg := (msg r)\<lparr>Ver := v\<rparr>, isModified := True\<rparr>) \<and>
   (ValidateVer (Ver (msg (UpsertVersion v r))) \<longrightarrow> UpsertVersion v r = r) \<and>
   (ValidateMID (MessageID (msg r)) \<longrightarrow> UpsertMessageID mid r = r) \<and>
   (\<not> ValidateMID (MessageID (msg r)) \<longrightarrow> MessageID (msg (UpsertMessageID mid r)) = mid) \<and>
   (ValidateType (Type (msg r)) \<longrightarrow> UpsertType typ r = r) \<and>
   (\<not> ValidateType (Type (msg r)) \<longrightarrow> Type (msg (UpsertType typ r)) = typ)"
  by (simp add: UpsertVersion_def SetVersion_def UpsertMessageID_def SetMessageID_def
      UpsertType_def SetType_def)

text \<open>A message as \<^verbatim>\<open>NewMessage\<close> and \<^verbatim>\<open>Reset\<close> leave its fields, with the version unset too.\<close>

definition unsetMessage :: pool_Message where
  "unsetMessage = \<lparr>msg = zeroMessage\<lparr>Ver := -1, MessageID := -1, Type := -1\<rparr>, isModified = False\<rparr>"

theorem UpsertVersion_validates_argument_witness:
  "ValidateVer 2 \<and> UpsertVersion 2 unsetMessage = unsetMessage \<and>
   \<not> ValidateVer (Ver (msg (UpsertVersion 2 unsetMessage))) \<and>
   \<not> ValidateVer 4 \<and> Ver (msg (UpsertVersion 4 unsetMessage)) = 4 \<and>
   \<not> ValidateMID (MessageID (msg unsetMessage)) \<and>
   MessageID (msg (UpsertMessageID 7 unsetMessage)) = 7 \<and>
   \<not> ValidateType (Type (msg unsetMessage)) \<and>
   Type (msg (UpsertType 1 unsetMessage)) = 1"
  using UpsertVersion_validates_argument[of 2 unsetMessage 7 1]
    UpsertVersion_validates_argument[of 4 unsetMessage 7 1]
  by (simp add: ValidateVer_def ValidateMID_def ValidateType_def unsetMessage_def zeroMessage_def)

section \<open>The extension codes of an option header\<close>

lemma Uint16_be16: "Uint16 (be16 w) = w"
  unfolding Uint16_def be16_def
  apply simp
  apply (rule bit_word_eqI)
  subgoal for n by (cases "n < 8") (auto simp: bit_simps)
  done

lemma uint16_roundtrip:
  assumes "0 \<le> e" and "e < 65536"
  shows "uint (Uint16 (be16 (word_of_int e))) = e"
  using assms by (simp add: Uint16_be16 uint_word_of_int)

lemma uint8_roundtrip:
  assumes "0 \<le> e" and "e < 256"
  shows "uint (word_of_int e :: byte) = e"
  using assms by (simp add: uint_word_of_int)

text \<open>
  Claim C7, as the code has it. For a delta or length \<open>v\<close> from 0 to 65804 and a buffer of at
  least two bytes: \<^verbatim>\<open>extendOpt\<close> gives the nibble \<open>v\<close> and no extension for \<open>v \<le> 12\<close>, the
  nibble 13 and the extension \<open>v - 13\<close> for \<open>13 \<le> v \<le> 268\<close>, the nibble 14 and the extension
  \<open>v - 269\<close> from 269 on; \<^verbatim>\<open>marshalOptionHeaderExt\<close> (and the closure \<^verbatim>\<open>writeExt\<close> of
  \<^verbatim>\<open>MarshalBinary\<close>) writes no byte, the one byte \<open>v - 13\<close>, or the two bytes of \<open>v - 269\<close> in
  big-endian order; \<^verbatim>\<open>parseExtOpt\<close> (and the closure of \<^verbatim>\<open>UnmarshalBinary\<close>) reads \<open>v\<close> back from
  the nibble and those bytes. In \<^verbatim>\<open>UnmarshalBinary\<close> an option header byte other than \<open>0xFF\<close>
  with the nibble 15 as delta or as length fails with the error "unexpected extended option
  marker".
\<close>

theorem option_header_ext_codec:
  assumes "0 \<le> v" and "v \<le> 65804" and "2 \<le> length buf"
  shows "(case extendOpt v of (nib, ext) \<Rightarrow>
           nib = (if v \<le> 12 then v else if v \<le> 268 then 13 else 14) \<and>
           ext = (if v \<le> 12 then 0 else if v \<le> 268 then v - 13 else v - 269) \<and>
           (case marshalOptionHeaderExt buf nib ext of ((n, err), buf') \<Rightarrow>
              err = None \<and>
              n = (if v \<le> 12 then 0 else if v \<le> 268 then 1 else 2) \<and>
              take (nat n) buf' = (if v \<le> 12 then [] else if v \<le> 268 then [word_of_int (v - 13)]
                                   else be16 (word_of_int (v - 269))) \<and>
              drop (nat n) buf' = drop (nat n) buf \<and>
              writeExt nib ext = take (nat n) buf' \<and>
              parseExtOpt buf' nib = Ok (n, v) \<and>
              UnmarshalBinary_parseExtOpt buf' nib = Ok (v, drop (nat n) buf'))) \<and>
         (\<forall>h t prev opts. h \<noteq> 0xff \<and> (uint (drop_bit 4 h) = 15 \<or> uint (h AND 0x0f) = 15) \<longrightarrow>
            fst (UnmarshalBinary_loop (h # t) prev opts) = Fail ErrUnexpectedExtendedOptionMarker)"
proof -
  obtain b0 b1 rest where buf: "buf = b0 # b1 # rest"
    using assms(3) by (auto simp: numeral_eq_Suc Suc_le_length_iff)
  have marker: "\<forall>h t prev opts. h \<noteq> 0xff \<and> (uint (drop_bit 4 h) = 15 \<or> uint (h AND 0x0f) = 15) \<longrightarrow>
      fst (UnmarshalBinary_loop (h # t) prev opts) = Fail ErrUnexpectedExtendedOptionMarker"
    by (auto simp add: ExtendOption_defs UnmarshalBinary_loop.simps[of "_ # _"])
  consider (a) "v \<le> 12" | (b) "13 \<le> v" "v \<le> 268" | (c) "269 \<le> v" by linarith
  then have "case extendOpt v of (nib, ext) \<Rightarrow>
           nib = (if v \<le> 12 then v else if v \<le> 268 then 13 else 14) \<and>
           ext = (if v \<le> 12 then 0 else if v \<le> 268 then v - 13 else v - 269) \<and>
           (case marshalOptionHeaderExt buf nib ext of ((n, err), buf') \<Rightarrow>
              err = None \<and>
              n = (if v \<le> 12 then 0 else if v \<le> 268 then 1 else 2) \<and>
              take (nat n) buf' = (if v \<le> 12 then [] else if v \<le> 268 then [word_of_int (v - 13)]
                                   else be16 (word_of_int (v - 269))) \<and>
              drop (nat n) buf' = drop (nat n) buf \<and>
              writeExt nib ext = take (nat n) buf' \<and>
              parseExtOpt buf' nib = Ok (n, v) \<and>
              UnmarshalBinary_parseExtOpt buf' nib = Ok (v, drop (nat n) buf'))"
  proof cases
    case a
    then show ?thesis using assms
      by (simp add: extendOpt_def marshalOptionHeaderExt_def writeExt_def parseExtOpt_def
          UnmarshalBinary_parseExtOpt_def ExtendOption_defs)
  next
    case b
    then have "uint (word_of_int (v - 13) :: byte) = v - 13" by (intro uint8_roundtrip) auto
    with b show ?thesis using assms
      by (simp add: extendOpt_def marshalOptionHeaderExt_def writeExt_def parseExtOpt_def
          UnmarshalBinary_parseExtOpt_def ExtendOption_defs buf)
  next
    case c
    then have "uint (Uint16 (be16 (word_of_int (v - 269)))) = v - 269"
      using assms by (intro uint16_roundtrip) auto
    with c show ?thesis using assms
      by (simp add: extendOpt_def marshalOptionHeaderExt_def writeExt_def parseExtOpt_def
          UnmarshalBinary_parseExtOpt_def ExtendOption_defs buf PutUint16_def go_copy_def be16_def)
  qed
  with marker show ?thesis by blast
qed

text \<open>The values 13, 269 and 270 of the specification, and a header byte \<open>0xF1\<close>.\<close>

theorem option_header_ext_codec_witness:
  "(0::int) \<le> 270 \<and> (270::int) \<le> 65804 \<and> 2 \<le> length [0::byte, 0] \<and>
   extendOpt 13 = (13, 0) \<and> extendOpt 269 = (14, 0) \<and> extendOpt 270 = (14, 1) \<and>
   marshalOptionHeaderExt [0, 0] 14 1 = ((2, None), [0, 1]) \<and>
   parseExtOpt [0, 1] 14 = Ok (2, 270) \<and>
   fst (UnmarshalBinary_loop [0xF1] 0 []) = Fail ErrUnexpectedExtendedOptionMarker"
  using option_header_ext_codec[of 270 "[0, 0]"]
  by (simp add: extendOpt_def marshalOptionHeaderExt_def parseExtOpt_def ExtendOption_defs
      PutUint16_def go_copy_def be16_def Uint16_def UnmarshalBinary_loop.simps[of "_ # _"])

text \<open>
  Beyond 65804 the extension \<open>v - 269\<close> does not fit the two bytes: for \<open>v = 65805\<close> the code
  writes the two bytes of \<open>uint16(65536) = 0\<close>, and \<^verbatim>\<open>parseExtOpt\<close> reads 269 back.
\<close>

theorem option_header_ext_codec_counterexample:
  "extendOpt 65805 = (14, 65536) \<and>
   marshalOptionHeaderExt [0xAA, 0xBB] 14 65536 = ((2, None), [0, 0]) \<and>
   writeExt 14 65536 = [0, 0] \<and>
   parseExtOpt [0, 0] 14 = Ok (2, 269)"
  by (simp add: extendOpt_def marshalOptionHeaderExt_def parseExtOpt_def ExtendOption_defs
      PutUint16_def go_copy_def be16_def Uint16_def writeExt_def)


section \<open>Marshalling options into a buffer\<close>

text \<open>
  With room in the buffer the marshalling functions of message\_option.go write exactly the
  bytes that the closures of \<^verbatim>\<open>MarshalBinary\<close> append; without room they report the same
  length with \<^verbatim>\<open>ErrTooSmall\<close>.
\<close>

lemma length_writeExt_le2: "length (writeExt nib ext) \<le> 2"
  by (simp add: writeExt_def PutUint16_def go_copy_def be16_def)

lemma marshalOptionHeaderExt_wire:
  "marshalOptionHeaderExt buf nib ext =
     (if length (writeExt nib ext) \<le> length buf
      then ((int (length (writeExt nib ext)), None), writeExt nib ext @ drop (length (writeExt nib ext)) buf)
      else ((int (length (writeExt nib ext)), Some ErrTooSmall), buf))"
proof (cases buf)
  case Nil
  then show ?thesis
    by (simp add: marshalOptionHeaderExt_def writeExt_def PutUint16_def go_copy_def be16_def)
next
  case (Cons a as)
  then show ?thesis
    by (cases as)
      (simp_all add: marshalOptionHeaderExt_def writeExt_def PutUint16_def go_copy_def be16_def)
qed

lemma nat_1_plus: "nat (1 + int n) = Suc n" by simp

lemma marshalOptionHeader_wire:
  assumes "length (writeOptHeader delta len) \<le> length buf"
  shows "marshalOptionHeader buf delta len =
     ((int (length (writeOptHeader delta len)), None),
      writeOptHeader delta len @ drop (length (writeOptHeader delta len)) buf)"
proof -
  obtain d dx where d: "extendOpt delta = (d, dx)" by (cases "extendOpt delta")
  obtain l lx where l: "extendOpt len = (l, lx)" by (cases "extendOpt len")
  define e1 where "e1 = writeExt d dx"
  define e2 where "e2 = writeExt l lx"
  have w: "writeOptHeader delta len = (word_of_int (push_bit 4 d) OR word_of_int l) # e1 @ e2"
    by (simp add: writeOptHeader_def d l e1_def e2_def)
  obtain a list where Cons: "buf = a # list" using assms w by (cases buf) auto
  have l1: "length e1 \<le> length list" and l2: "length e2 \<le> length list - length e1"
    using assms w Cons by simp_all
  show ?thesis using l1 l2 Cons
    by (simp add: marshalOptionHeader_def d l marshalOptionHeaderExt_wire Let_def w
        e1_def[symmetric] e2_def[symmetric] nat_1_plus add.commute)
qed


lemma marshalOptionHeader_small:
  assumes "\<not> length (writeOptHeader delta len) \<le> length buf"
  shows "\<exists>buf'. marshalOptionHeader buf delta len =
     ((int (length (writeOptHeader delta len)), Some ErrTooSmall), buf') \<and> length buf' = length buf"
proof -
  obtain d dx where d: "extendOpt delta = (d, dx)" by (cases "extendOpt delta")
  obtain l lx where l: "extendOpt len = (l, lx)" by (cases "extendOpt len")
  define e1 where "e1 = writeExt d dx"
  define e2 where "e2 = writeExt l lx"
  have w: "length (writeOptHeader delta len) = Suc (length e1 + length e2)"
    by (simp add: writeOptHeader_def d l e1_def e2_def)
  show ?thesis
  proof (cases buf)
    case Nil
    then show ?thesis
      by (simp add: marshalOptionHeader_def d l marshalOptionHeaderExt_wire Let_def w
          e1_def[symmetric] e2_def[symmetric])
  next
    case (Cons a list)
    then have small: "\<not> length e1 + length e2 \<le> length list" using assms w by simp
    show ?thesis
    proof (cases "length e1 \<le> length list")
      case True
      with small have "\<not> length e2 \<le> length list - length e1" by simp
      with True show ?thesis using Cons
        by (simp add: marshalOptionHeader_def d l marshalOptionHeaderExt_wire Let_def w
            e1_def[symmetric] e2_def[symmetric] nat_1_plus)
    next
      case False
      then show ?thesis using Cons
        by (simp add: marshalOptionHeader_def d l marshalOptionHeaderExt_wire Let_def w
            e1_def[symmetric] e2_def[symmetric] nat_1_plus)
    qed
  qed
qed

lemma MarshalValue_wire:
  "MarshalValue o' buf =
     (if length (ToBytes o') \<le> length buf
      then ((int (length (ToBytes o')), None), ToBytes o' @ drop (length (ToBytes o')) buf)
      else ((int (length (ToBytes o')), Some ErrTooSmall), buf))"
  by (simp add: MarshalValue_def go_copy_def Let_def)

text \<open>The bytes of one option on the wire, after an option with the ID \<open>prev\<close>.\<close>

definition option_wire :: "Option \<Rightarrow> int \<Rightarrow> byte list" where
  "option_wire o' prev = writeOptHeader (uint (ID o') - prev) (int (length (ToBytes o'))) @ ToBytes o'"

lemma Option_Marshal_wire:
  assumes "length (option_wire o' (uint previousID)) \<le> length buf"
  shows "Option_Marshal o' buf previousID =
     ((int (length (option_wire o' (uint previousID))), None),
      option_wire o' (uint previousID) @ drop (length (option_wire o' (uint previousID))) buf)"
proof -
  define v where "v = ToBytes o'"
  define h where "h = writeOptHeader (uint (ID o') - uint previousID) (int (length v))"
  have ow: "option_wire o' (uint previousID) = h @ v" by (simp add: option_wire_def h_def v_def)
  have hl: "length h \<le> length buf" and vl: "length v \<le> length buf - length h"
    using assms by (simp_all add: ow)
  have mh: "marshalOptionHeader buf (uint (ID o') - uint previousID) (int (length v)) =
      ((int (length h), None), h @ drop (length h) buf)"
    unfolding h_def using hl[unfolded h_def] by (rule marshalOptionHeader_wire)
  have mv0: "fst (MarshalValue o' []) = (int (length v), if v = [] then None else Some ErrTooSmall)"
    by (simp add: MarshalValue_wire v_def)
  have mv: "MarshalValue o' (drop (length h) buf) = ((int (length v), None), v @ drop (length v) (drop (length h) buf))"
    using vl by (simp add: MarshalValue_wire v_def[symmetric])
  show ?thesis
    unfolding Option_Marshal_def Let_def mv0 ow
    by (simp add: mh mv add.commute)
qed

lemma Option_Marshal_small:
  assumes "\<not> length (option_wire o' (uint previousID)) \<le> length buf"
  shows "\<exists>buf'. Option_Marshal o' buf previousID =
     ((int (length (option_wire o' (uint previousID))), Some ErrTooSmall), buf') \<and> length buf' = length buf"
proof -
  define v where "v = ToBytes o'"
  define h where "h = writeOptHeader (uint (ID o') - uint previousID) (int (length v))"
  have ow: "option_wire o' (uint previousID) = h @ v" by (simp add: option_wire_def h_def v_def)
  have mv0: "fst (MarshalValue o' []) = (int (length v), if v = [] then None else Some ErrTooSmall)"
    by (simp add: MarshalValue_wire v_def)
  have mvnil: "MarshalValue o' [] = ((int (length v), if v = [] then None else Some ErrTooSmall), [])"
    by (simp add: MarshalValue_wire v_def)
  show ?thesis
  proof (cases "length h \<le> length buf")
    case True
    then have vl: "\<not> length v \<le> length buf - length h" using assms by (simp add: ow)
    have mh: "marshalOptionHeader buf (uint (ID o') - uint previousID) (int (length v)) =
        ((int (length h), None), h @ drop (length h) buf)"
      unfolding h_def using True[unfolded h_def] by (rule marshalOptionHeader_wire)
    have mv: "MarshalValue o' (drop (length h) buf) = ((int (length v), Some ErrTooSmall), drop (length h) buf)"
      using vl by (simp add: MarshalValue_wire v_def[symmetric])
    show ?thesis
      unfolding Option_Marshal_def Let_def mv0 ow
      using True by (simp add: mh mv)
  next
    case False
    from marshalOptionHeader_small[OF False[unfolded h_def]] obtain buf' where
      b: "marshalOptionHeader buf (uint (ID o') - uint previousID) (int (length v)) =
           ((int (length h), Some ErrTooSmall), buf')" "length buf' = length buf"
      unfolding h_def by blast
    show ?thesis
      unfolding Option_Marshal_def Let_def mv0 ow
      by (simp add: b mvnil)
  qed
qed


lemma MarshalBinary_opts_Cons:
  "MarshalBinary_opts prev (o' # os) = option_wire o' prev @ MarshalBinary_opts (uint (ID o')) os"
  by (simp add: option_wire_def Let_def)

lemma option_wire_nonempty: "option_wire o' prev \<noteq> []"
  by (simp add: option_wire_def writeOptHeader_def split: prod.splits)

lemma Options_Marshal_loop_nil:
  "Options_Marshal_loop os buf True prev len =
     ((len + int (length (MarshalBinary_opts (uint prev) os)), Some ErrTooSmall), buf)"
proof (induction os arbitrary: prev len)
  case Nil
  then show ?case by simp
next
  case (Cons o' os)
  have "\<not> length (option_wire o' (uint prev)) \<le> length ([]::byte list)"
    using option_wire_nonempty[of o' "uint prev"] by simp
  from Option_Marshal_small[OF this] obtain buf' where
    b: "Option_Marshal o' [] prev = ((int (length (option_wire o' (uint prev))), Some ErrTooSmall), buf')"
    by blast
  show ?case
    unfolding MarshalBinary_opts_Cons
    by (simp add: b Cons.IH del: MarshalBinary_opts.simps)
qed

lemma Options_Marshal_loop_wire:
  assumes "0 \<le> len"
    and "nat len + length (MarshalBinary_opts (uint prev) os) \<le> length buf"
  shows "Options_Marshal_loop os buf False prev len =
     ((len + int (length (MarshalBinary_opts (uint prev) os)), None),
      take (nat len) buf @ MarshalBinary_opts (uint prev) os
        @ drop (nat len + length (MarshalBinary_opts (uint prev) os)) buf)"
  using assms
proof (induction os arbitrary: prev len buf)
  case Nil
  then show ?case by simp
next
  case (Cons o' os)
  define w where "w = option_wire o' (uint prev)"
  define W where "W = MarshalBinary_opts (uint (ID o')) os"
  have tot: "nat len + (length w + length W) \<le> length buf"
    using Cons.prems(2) unfolding MarshalBinary_opts_Cons w_def W_def by simp
  then have fit: "length w \<le> length (drop (nat len) buf)" by simp
  have om: "Option_Marshal o' (drop (nat len) buf) prev =
      ((int (length w), None), w @ drop (length w) (drop (nat len) buf))"
    unfolding w_def using fit[unfolded w_def] by (rule Option_Marshal_wire)
  define buf' where "buf' = take (nat len) buf @ w @ drop (length w) (drop (nat len) buf)"
  have lt: "length (take (nat len) buf @ w) = nat len + length w" using tot by simp
  have buf'2: "buf' = (take (nat len) buf @ w) @ drop (nat len + length w) buf"
    by (simp add: buf'_def add.commute)
  have len': "0 \<le> len + int (length w)" using Cons.prems(1) by simp
  have natlen: "nat (len + int (length w)) = nat len + length w" using Cons.prems(1) by simp
  have lb: "length buf' = length buf" using tot by (simp add: buf'_def)
  have fit': "nat (len + int (length w)) + length (MarshalBinary_opts (uint (ID o')) os) \<le> length buf'"
    using tot by (simp add: natlen lb W_def)
  have tk: "take (nat len + length w) buf' = take (nat len) buf @ w"
    unfolding buf'2 using lt by (metis append_eq_conv_conj)
  have "drop (nat len + length w) buf' = drop (nat len + length w) buf"
    unfolding buf'2 using lt by (metis append_eq_conv_conj)
  then have dr: "drop (nat len + length w + length W) buf' = drop (nat len + length w + length W) buf"
    by (metis add.commute drop_drop)
  have step: "Options_Marshal_loop (o' # os) buf False prev len =
      Options_Marshal_loop os buf' False (ID o') (len + int (length w))"
    by (simp add: om buf'_def)
  show ?case
    unfolding step MarshalBinary_opts_Cons
    using Cons.IH[OF len' fit']
    by (simp add: natlen tk dr[unfolded add.assoc] W_def[symmetric] w_def[symmetric] add.assoc
        del: MarshalBinary_opts.simps)
qed


lemma Options_Marshal_loop_small:
  assumes "0 \<le> len" and "nat len \<le> length buf"
    and "\<not> nat len + length (MarshalBinary_opts (uint prev) os) \<le> length buf"
  shows "\<exists>buf'. Options_Marshal_loop os buf False prev len =
     ((len + int (length (MarshalBinary_opts (uint prev) os)), Some ErrTooSmall), buf') \<and>
     length buf' = length buf"
  using assms
proof (induction os arbitrary: prev len buf)
  case Nil
  then show ?case by simp
next
  case (Cons o' os)
  define w where "w = option_wire o' (uint prev)"
  define W where "W = MarshalBinary_opts (uint (ID o')) os"
  have tot: "\<not> nat len + (length w + length W) \<le> length buf"
    using Cons.prems(3) unfolding MarshalBinary_opts_Cons w_def W_def by simp
  show ?case
  proof (cases "length w \<le> length (drop (nat len) buf)")
    case True
    have om: "Option_Marshal o' (drop (nat len) buf) prev =
        ((int (length w), None), w @ drop (length w) (drop (nat len) buf))"
      unfolding w_def using True[unfolded w_def] by (rule Option_Marshal_wire)
    define buf' where "buf' = take (nat len) buf @ w @ drop (length w) (drop (nat len) buf)"
    have lb: "length buf' = length buf" using True Cons.prems(2) by (simp add: buf'_def)
    have len': "0 \<le> len + int (length w)" using Cons.prems(1) by simp
    have natlen: "nat (len + int (length w)) = nat len + length w" using Cons.prems(1) by simp
    have in': "nat (len + int (length w)) \<le> length buf'"
      using True Cons.prems(2) by (simp add: natlen lb)
    have small': "\<not> nat (len + int (length w)) + length (MarshalBinary_opts (uint (ID o')) os) \<le> length buf'"
      using tot by (simp add: natlen lb W_def)
    have step: "Options_Marshal_loop (o' # os) buf False prev len =
        Options_Marshal_loop os buf' False (ID o') (len + int (length w))"
      by (simp add: om buf'_def)
    from Cons.IH[OF len' in' small'] show ?thesis
      unfolding step MarshalBinary_opts_Cons
      by (simp add: lb W_def[symmetric] w_def[symmetric] add.assoc del: MarshalBinary_opts.simps)
  next
    case False
    from Option_Marshal_small[OF False[unfolded w_def]] obtain sub where
      om: "Option_Marshal o' (drop (nat len) buf) prev = ((int (length w), Some ErrTooSmall), sub)"
      and ls: "length sub = length (drop (nat len) buf)"
      unfolding w_def by blast
    define buf' where "buf' = take (nat len) buf @ sub"
    have lb: "length buf' = length buf" using Cons.prems(2) ls by (simp add: buf'_def)
    have step: "Options_Marshal_loop (o' # os) buf False prev len =
        Options_Marshal_loop os buf' True (ID o') (len + int (length w))"
      by (simp add: om buf'_def)
    show ?thesis
      unfolding step MarshalBinary_opts_Cons Options_Marshal_loop_nil
      by (simp add: lb W_def[symmetric] w_def[symmetric] add.assoc del: MarshalBinary_opts.simps)
  qed
qed

text \<open>The bytes of an option list on the wire: sorted by ID, the first delta from 0.\<close>

definition options_wire :: "Option list \<Rightarrow> byte list" where
  "options_wire options = MarshalBinary_opts 0 (sort_key ID options)"

lemma Options_Marshal_nil:
  "Options_Marshal options None = ((int (length (options_wire options)), Some ErrTooSmall), [])"
  by (simp add: Options_Marshal_def Options_Marshal_loop_nil options_wire_def)

lemma Options_Marshal_wire:
  assumes "length (options_wire options) \<le> length buf"
  shows "Options_Marshal options (Some buf) =
     ((int (length (options_wire options)), None),
      options_wire options @ drop (length (options_wire options)) buf)"
  using Options_Marshal_loop_wire[of 0 0 "sort_key ID options" buf] assms
  by (simp add: Options_Marshal_def options_wire_def)

lemma Options_Marshal_small:
  assumes "\<not> length (options_wire options) \<le> length buf"
  shows "\<exists>buf'. Options_Marshal options (Some buf) =
     ((int (length (options_wire options)), Some ErrTooSmall), buf') \<and> length buf' = length buf"
  using Options_Marshal_loop_small[of 0 buf 0 "sort_key ID options"] assms
  by (simp add: Options_Marshal_def options_wire_def)



section \<open>The size probe of version 1\<close>

text \<open>
  The frame of version 1: header, token, options, and the separator \<open>0xFF\<close> with the payload
  when the payload is not empty. \<^verbatim>\<open>MarshalBinary\<close> of the root package builds the same bytes.
\<close>

definition payload_wire :: "Message \<Rightarrow> byte list" where
  "payload_wire m = (if Payload m = [] then [] else 0xff # Payload m)"

definition v1_frame :: "Message \<Rightarrow> byte list" where
  "v1_frame m = coderv1_header m @ Token m @ options_wire (Opts m) @ payload_wire m"

lemma length_coderv1_header: "length (coderv1_header m) = 4"
  by (simp add: coderv1_header_def Let_def)

lemma MarshalBinary_v1_frame: "fst (MarshalBinary m) = v1_frame m"
  by (simp add: MarshalBinary_def v1_frame_def coderv1_header_def payload_wire_def options_wire_def
      Let_def)

lemma length_v1_frame:
  "int (length (v1_frame m)) = 4 + int (length (Token m)) + int (length (options_wire (Opts m)))
     + (if Payload m = [] then 0 else int (length (Payload m)) + 1)"
  by (simp add: v1_frame_def length_coderv1_header payload_wire_def)

lemma coderv1_Size_frame:
  assumes "length (Token m) \<le> 8"
  shows "coderv1_Size m = (int (length (v1_frame m)), None)"
  using assms
  by (simp add: coderv1_Size_def MaxTokenSize_def Options_Marshal_nil Let_def length_v1_frame)

lemma coderv1_Encode_small:
  assumes "length (Token m) \<le> 8" and "ValidateMID (MessageID m)" and "ValidateType (Type m)"
    and "length buf < length (v1_frame m)"
  shows "coderv1_Encode m buf = Return ((int (length (v1_frame m)), Some ErrTooSmall), buf)"
  using assms by (simp add: coderv1_Encode_def coderv1_Size_frame)

lemma coderv1_Encode_frame:
  assumes "length (Token m) \<le> 8" and "ValidateMID (MessageID m)" and "ValidateType (Type m)"
    and "length (v1_frame m) \<le> length buf"
  shows "coderv1_Encode m buf =
           Return ((int (length (v1_frame m)), None), v1_frame m @ drop (length (v1_frame m)) buf)"
proof -
  define T where "T = Token m"
  define W where "W = options_wire (Opts m)"
  define P where "P = Payload m"
  define tl where "tl = payload_wire m"
  define hdr where "hdr = coderv1_header m"
  have F: "v1_frame m = hdr @ T @ W @ tl" by (simp add: v1_frame_def T_def W_def tl_def hdr_def)
  have lh: "length hdr = 4" by (simp add: hdr_def length_coderv1_header)
  have len: "4 + length T + length W + length tl \<le> length buf" using assms(4) by (simp add: F lh)
  define b1 where "b1 = drop 4 buf"
  define b2 where "b2 = drop (length T) b1"
  have tok: "go_copy b1 T = T @ b2" using len by (simp add: go_copy_def b1_def b2_def)
  have b1T: "\<not> length b1 < length T" using len by (simp add: b1_def)
  have fitW: "length (options_wire (Opts m)) \<le> length b2" using len by (simp add: b1_def b2_def W_def)
  have om: "Options_Marshal (Opts m) (Some b2) = ((int (length W), None), W @ drop (length W) b2)"
    unfolding W_def using fitW by (rule Options_Marshal_wire)
  define b3 where "b3 = drop (length W) b2"
  have b3: "b3 = drop (4 + (length T + length W)) buf"
    by (simp add: b3_def b2_def b1_def add.commute add.left_commute)
  have tail: "(if 0 < length P then Return ((int (length (hdr @ T @ W @ tl)), None), (hdr @ T @ W) @ [0xff] @ go_copy (drop 1 b3) P)
         else Return ((int (length (hdr @ T @ W @ tl)), None), (hdr @ T @ W) @ go_copy b3 P))
      = Return ((int (length (hdr @ T @ W @ tl)), None), (hdr @ T @ W @ tl) @ drop (length (hdr @ T @ W @ tl)) buf)"
  proof (cases "P = []")
    case True
    then show ?thesis by (simp add: go_copy_def tl_def payload_wire_def P_def[symmetric] b3 lh)
  next
    case False
    then have "length P < length b3" using len by (simp add: b3 tl_def payload_wire_def P_def[symmetric])
    with False show ?thesis
      by (simp add: go_copy_def tl_def payload_wire_def P_def[symmetric] b3 lh add.assoc add.commute
          add.left_commute)
  qed
  have b3ne: "0 < length P \<Longrightarrow> \<not> length b3 < 1"
    using len by (simp add: b3 tl_def payload_wire_def P_def[symmetric])
  have sz: "\<not> int (length buf) < int (length (v1_frame m))" "\<not> length buf < 4"
    using assms(4) len by simp_all
  have tk: "take (length T) (T @ b2) = T" "drop (length T) (T @ b2) = b2" by simp_all
  have tkW: "take (length W) (W @ b3) = W" "drop (length W) (W @ b3) = b3" by simp_all
  show ?thesis
    unfolding coderv1_Encode_def coderv1_Size_frame[OF assms(1)] Let_def
      hdr_def[symmetric] T_def[symmetric] P_def[symmetric] b1_def[symmetric]
      tok tk om[unfolded b3_def[symmetric]]
    using assms(1,2,3) sz b1T b3ne tail
    by (auto simp add: MaxTokenSize_def T_def[symmetric] tkW F)
qed


text \<open>
  Claim C4 (modelled part: \<^verbatim>\<open>Options.Marshal\<close>). For every message with a token of at most 8
  bytes, a valid message ID and a valid type, whatever its options: \<^verbatim>\<open>Coder.Size\<close> of version 1
  returns the length of the frame, which is 4 for the header plus the token, the marshalled
  options and the payload, plus one for the separator when the payload is not empty;
  \<^verbatim>\<open>Coder.Encode\<close> into a buffer shorter than that (\<^verbatim>\<open>nil\<close> included) returns that size with
  \<^verbatim>\<open>ErrTooSmall\<close> and leaves the buffer as it was; into a buffer of at least that size it
  returns that size and no error, and has written the frame into the first bytes of the
  buffer and nothing else; a buffer of exactly that size holds exactly the frame.
\<close>

theorem coderv1_size_probe:
  assumes "length (Token m) \<le> 8" and "ValidateMID (MessageID m)" and "ValidateType (Type m)"
  shows "coderv1_Size m = (int (length (v1_frame m)), None) \<and>
         int (length (v1_frame m)) =
           4 + int (length (Token m)) + int (length (options_wire (Opts m)))
             + (if Payload m = [] then 0 else int (length (Payload m)) + 1) \<and>
         coderv1_Encode m [] = Return ((int (length (v1_frame m)), Some ErrTooSmall), []) \<and>
         (length buf < length (v1_frame m) \<longrightarrow>
            coderv1_Encode m buf = Return ((int (length (v1_frame m)), Some ErrTooSmall), buf)) \<and>
         (length (v1_frame m) \<le> length buf \<longrightarrow>
            coderv1_Encode m buf =
              Return ((int (length (v1_frame m)), None), v1_frame m @ drop (length (v1_frame m)) buf)) \<and>
         (length buf = length (v1_frame m) \<longrightarrow>
            coderv1_Encode m buf = Return ((int (length (v1_frame m)), None), v1_frame m))"
proof -
  have pos: "length ([]::byte list) < length (v1_frame m)"
    by (simp add: v1_frame_def length_coderv1_header)
  show ?thesis
    using coderv1_Size_frame[OF assms(1)] length_v1_frame[of m]
      coderv1_Encode_small[OF assms pos] coderv1_Encode_small[OF assms, of buf]
      coderv1_Encode_frame[OF assms, of buf]
    by simp
qed

text \<open>
  The acknowledgement with the empty code, no token, no options and no payload of the
  specification: four bytes \<open>60 00 12 34\<close>.
\<close>

definition ack_empty :: Message where
  "ack_empty = zeroMessage\<lparr>Ver := Version1, Type := Acknowledgement, MessageID := 0x1234\<rparr>"

lemma v1_frame_ack_empty: "v1_frame ack_empty = [0x60, 0x00, 0x12, 0x34]"
  by (simp add: v1_frame_def coderv1_header_def payload_wire_def options_wire_def ack_empty_def
      zeroMessage_def Acknowledgement_def PutUint16_def go_copy_def be16_def)

theorem coderv1_size_probe_witness:
  "length (Token ack_empty) \<le> 8 \<and> ValidateMID (MessageID ack_empty) \<and> ValidateType (Type ack_empty) \<and>
   Opts ack_empty = [] \<and>
   coderv1_Size ack_empty = (4, None) \<and>
   coderv1_Encode ack_empty [] = Return ((4, Some ErrTooSmall), []) \<and>
   coderv1_Encode ack_empty [0xAA, 0xAA, 0xAA, 0xAA] = Return ((4, None), [0x60, 0x00, 0x12, 0x34])"
proof -
  have h: "length (Token ack_empty) \<le> 8" "ValidateMID (MessageID ack_empty)"
    "ValidateType (Type ack_empty)" "Opts ack_empty = []"
    by (simp_all add: ack_empty_def zeroMessage_def ValidateMID_def ValidateType_def Acknowledgement_def)
  from coderv1_size_probe[OF h(1,2,3), of "[0xAA, 0xAA, 0xAA, 0xAA]"] h show ?thesis
    by (simp add: v1_frame_ack_empty)
qed


section \<open>Parsing the options that were marshalled\<close>

lemma bit_int_hi_false:
  assumes "0 \<le> k" and "k < 2 ^ m" and "m \<le> n"
  shows "\<not> bit (k::int) n"
proof -
  have "(2::int) ^ m \<le> 2 ^ n" using assms(3) by simp
  with assms(2) have "k < 2 ^ n" by linarith
  with assms(1) have "k div 2 ^ n = 0" by simp
  then show ?thesis by (simp add: bit_iff_odd)
qed

lemma nibble_hi:
  assumes "0 \<le> a" and "a < 16" and "0 \<le> b" and "b < 16"
  shows "uint (drop_bit 4 (word_of_int (push_bit 4 a) OR word_of_int b :: byte)) = a"
proof (rule bit_eqI)
  fix n
  have a: "\<not> bit a k" if "4 \<le> k" for k using bit_int_hi_false[of a 4 k] assms that by simp
  have b: "\<not> bit b k" if "4 \<le> k" for k using bit_int_hi_false[of b 4 k] assms that by simp
  show "bit (uint (drop_bit 4 (word_of_int (push_bit 4 a) OR word_of_int b :: byte))) n = bit a n"
    using a[of n] b[of "4 + n"] b[of "n + 4"]
    by (cases "n < 4") (auto simp: bit_simps)
qed

lemma nibble_lo:
  assumes "0 \<le> a" and "a < 16" and "0 \<le> b" and "b < 16"
  shows "uint ((word_of_int (push_bit 4 a) OR word_of_int b :: byte) AND 0x0f) = b"
proof (rule bit_eqI)
  fix n
  have b: "\<not> bit b k" if "4 \<le> k" for k using bit_int_hi_false[of b 4 k] assms that by simp
  have e: "(0x0f :: byte) = mask 4" by (simp add: mask_eq_exp_minus_1)
  show "bit (uint ((word_of_int (push_bit 4 a) OR word_of_int b :: byte) AND 0x0f)) n = bit b n"
    unfolding e using b[of n]
    by (cases "n < 4") (auto simp: bit_simps)
qed


lemma nibble_not_marker:
  assumes "0 \<le> a" and "a < 15" and "0 \<le> b" and "b < 16"
  shows "(word_of_int (push_bit 4 a) OR word_of_int b :: byte) \<noteq> 0xff"
proof
  assume "(word_of_int (push_bit 4 a) OR word_of_int b :: byte) = 0xff"
  then have "uint (drop_bit 4 (word_of_int (push_bit 4 a) OR word_of_int b :: byte)) = uint (drop_bit 4 (0xff :: byte))"
    by simp
  then have "a = 15" using nibble_hi[of a b] assms by simp
  with assms show False by simp
qed

lemma extendOpt_range:
  assumes "0 \<le> v"
  shows "0 \<le> fst (extendOpt v) \<and> fst (extendOpt v) < 15"
  using assms by (auto simp: extendOpt_def ExtendOption_defs)

lemma PutUint16_zero: "PutUint16 [0, 0] w = be16 w"
  by (simp add: PutUint16_def go_copy_def be16_def)

lemma length_be16: "length (be16 w) = 2"
  by (simp add: be16_def)

lemma take2_be16: "take 2 (be16 w @ rest) = be16 w"
  by (simp add: be16_def)

lemma drop2_be16: "drop 2 (be16 w @ rest) = rest"
  by (simp add: be16_def)

lemma extendOpt_cases:
  assumes "0 \<le> v" and "v \<le> 65804"
  shows "(v \<le> 12 \<and> extendOpt v = (v, 0)) \<or>
         (13 \<le> v \<and> v \<le> 268 \<and> extendOpt v = (13, v - 13) \<and> uint (word_of_int (v - 13) :: byte) = v - 13) \<or>
         (269 \<le> v \<and> extendOpt v = (14, v - 269) \<and> uint (word_of_int (v - 269) :: 16 word) = v - 269)"
proof -
  have w16: "uint (word_of_int e :: 16 word) = e" if "0 \<le> e" "e < 65536" for e
    using that by (simp add: uint_word_of_int)
  consider (a) "v \<le> 12" | (b) "13 \<le> v" "v \<le> 268" | (c) "269 \<le> v" by linarith
  then show ?thesis
  proof cases
    case a
    then show ?thesis by (simp add: extendOpt_def ExtendOption_defs)
  next
    case b
    then have "uint (word_of_int (v - 13) :: byte) = v - 13" by (intro uint8_roundtrip) auto
    with b show ?thesis by (simp add: extendOpt_def ExtendOption_defs)
  next
    case c
    then have "uint (word_of_int (v - 269) :: 16 word) = v - 269" using assms by (intro w16) auto
    with c show ?thesis by (simp add: extendOpt_def ExtendOption_defs)
  qed
qed

lemma parseExtOpt_writeExt:
  assumes "0 \<le> v" and "v \<le> 65804" and "extendOpt v = (nib, ext)"
  shows "parseExtOpt (writeExt nib ext @ rest) nib = Ok (int (length (writeExt nib ext)), v)"
  using extendOpt_cases[OF assms(1,2)] assms(3)
  by (elim disjE conjE)
    (simp_all add: writeExt_def parseExtOpt_def ExtendOption_defs PutUint16_zero length_be16
      take2_be16 Uint16_be16)

lemma UnmarshalBinary_parseExtOpt_writeExt:
  assumes "0 \<le> v" and "v \<le> 65804" and "extendOpt v = (nib, ext)"
  shows "UnmarshalBinary_parseExtOpt (writeExt nib ext @ rest) nib = Ok (v, rest)"
  using extendOpt_cases[OF assms(1,2)] assms(3)
  by (elim disjE conjE)
    (simp_all add: writeExt_def UnmarshalBinary_parseExtOpt_def ExtendOption_defs PutUint16_zero
      length_be16 take2_be16 drop2_be16 Uint16_be16)


lemma lt_le_word: "(v::32 word) < 256 \<longleftrightarrow> v \<le> 255" "(v::32 word) < 65536 \<longleftrightarrow> v \<le> 65535"
  "(v::32 word) < 16777216 \<longleftrightarrow> v \<le> 16777215"
  by (auto simp: word_less_nat_alt word_le_nat_alt)

lemma decodeInt_encodeInt: "decodeInt (encodeInt v) = Ok v"
proof -
  consider (z) "v = 0" | (a) "v \<noteq> 0" "v \<le> 255" | (b) "\<not> v \<le> 255" "v \<le> 65535"
    | (c) "\<not> v \<le> 65535" "v \<le> 16777215" | (d) "\<not> v \<le> 16777215" by blast
  then show ?thesis
  proof cases
    case z
    then show ?thesis by (simp add: encodeInt_def decodeInt_def go_copy_def Uint32_def)
  next
    case a
    then show ?thesis
      by (simp add: encodeInt_def decodeInt_def go_copy_def lt_le_word Uint32_pad1)
  next
    case b
    then have "v \<noteq> 0" by auto
    with b show ?thesis
      by (simp add: encodeInt_def decodeInt_def go_copy_def lt_le_word Uint32_pad2 PutUint16_def
          be16_def ucast_drop_bit_16_8 ucast_16_8)
  next
    case c
    then have "v \<noteq> 0" "\<not> v \<le> 255" by (auto simp: word_le_nat_alt)
    with c show ?thesis
      by (simp add: encodeInt_def decodeInt_def go_copy_def lt_le_word Uint32_pad3 PutUint32_def
          be32_def)
  next
    case d
    then have n: "v \<noteq> 0" "\<not> v \<le> 255" "\<not> v \<le> 65535" by (auto simp: word_le_nat_alt)
    have "Uint32 (be32 v) = v" by (rule Uint32_be32)
    with d n show ?thesis
      by (simp add: encodeInt_def decodeInt_def go_copy_def lt_le_word PutUint32_def be32_def)
  qed
qed

lemma CoapOptionDefs_facts:
  assumes "CoapOptionDefs oid = Some d"
  shows "oid \<noteq> 0 \<and> uint oid \<le> 65100 \<and> 0 \<le> MinLen d \<and> MaxLen d \<le> 1034 \<and>
         ValueFormat d \<noteq> ValueUnknown"
proof -
  from assms have "(oid, d) \<in> set CoapOptionDefs_list"
    unfolding CoapOptionDefs_def by (rule map_of_SomeD)
  then show ?thesis
    unfolding CoapOptionDefs_list_def OptionID_defs by auto
qed

text \<open>
  An option that conforms to the registry: its ID is registered, its value has the dynamic
  type that decoding gives for the registered format (a \<^verbatim>\<open>uint32\<close> for \<^verbatim>\<open>ValueUint\<close>, a string
  for \<^verbatim>\<open>ValueString\<close>, bytes for \<^verbatim>\<open>ValueOpaque\<close> and \<^verbatim>\<open>ValueEmpty\<close>), and the length of its
  bytes is within the registered bounds.
\<close>

definition valid_option :: "Option \<Rightarrow> bool" where
  "valid_option o' =
     (case CoapOptionDefs (ID o') of
        None \<Rightarrow> False
      | Some d \<Rightarrow>
          MinLen d \<le> int (length (ToBytes o')) \<and> int (length (ToBytes o')) \<le> MaxLen d \<and>
          (case ValueFormat d of
             ValueUint \<Rightarrow> (case Value o' of VUint32 v \<Rightarrow> True | _ \<Rightarrow> False)
           | ValueString \<Rightarrow> (case Value o' of VString s \<Rightarrow> True | _ \<Rightarrow> False)
           | ValueOpaque \<Rightarrow> (case Value o' of VBytes b \<Rightarrow> True | _ \<Rightarrow> False)
           | ValueEmpty \<Rightarrow> (case Value o' of VBytes b \<Rightarrow> True | _ \<Rightarrow> False)
           | ValueUnknown \<Rightarrow> False))"

lemma Option_Unmarshal_valid:
  assumes "valid_option o'"
  shows "Option_Unmarshal CoapOptionDefs z (ID o') (ToBytes o') = Ok (int (length (ToBytes o')), o')"
proof -
  from assms obtain d where d: "CoapOptionDefs (ID o') = Some d"
    by (auto simp: valid_option_def split: option.splits)
  have len: "MinLen d \<le> int (length (ToBytes o'))" "int (length (ToBytes o')) \<le> MaxLen d"
    using assms d by (simp_all add: valid_option_def)
  have ver: "VerifyOptLen CoapOptionDefs (ID o') (int (length (ToBytes o')))"
    using len d by (simp add: VerifyOptLen_def map_index_def Let_def)
  have rec: "z\<lparr>ID := ID o', Value := Value o'\<rparr> = o'" by simp
  show ?thesis
  proof (cases "ValueFormat d")
    case ValueUnknown
    then show ?thesis using assms d by (simp add: valid_option_def)
  next
    case ValueEmpty
    then obtain b where b: "Value o' = VBytes b" using assms d
      by (auto simp: valid_option_def split: OptValue.splits)
    then have tb: "ToBytes o' = b" by (simp add: ToBytes_def)
    show ?thesis using ValueEmpty d ver rec b
      by (simp add: Option_Unmarshal_def UnmarshalValue_def Let_def tb del: rec)
  next
    case ValueOpaque
    then obtain b where b: "Value o' = VBytes b" using assms d
      by (auto simp: valid_option_def split: OptValue.splits)
    then have tb: "ToBytes o' = b" by (simp add: ToBytes_def)
    show ?thesis using ValueOpaque d ver rec b
      by (simp add: Option_Unmarshal_def UnmarshalValue_def Let_def tb)
  next
    case ValueUint
    then obtain v where b: "Value o' = VUint32 v" using assms d
      by (auto simp: valid_option_def split: OptValue.splits)
    then have tb: "ToBytes o' = encodeInt v" by (simp add: ToBytes_def)
    show ?thesis using ValueUint d ver rec b
      by (simp add: Option_Unmarshal_def UnmarshalValue_def Let_def tb decodeInt_encodeInt)
  next
    case ValueString
    then obtain b where b: "Value o' = VString b" using assms d
      by (auto simp: valid_option_def split: OptValue.splits)
    then have tb: "ToBytes o' = b" by (simp add: ToBytes_def)
    show ?thesis using ValueString d ver rec b
      by (simp add: Option_Unmarshal_def UnmarshalValue_def Let_def tb)
  qed
qed


lemma valid_option_bounds:
  assumes "valid_option o'"
  shows "ID o' \<noteq> 0" and "uint (ID o') \<le> 65100" and "int (length (ToBytes o')) \<le> 1034"
proof -
  from assms obtain d where d: "CoapOptionDefs (ID o') = Some d"
    by (auto simp: valid_option_def split: option.splits)
  have len: "int (length (ToBytes o')) \<le> MaxLen d"
    using assms d by (simp_all add: valid_option_def)
  from CoapOptionDefs_facts[OF d] len
  show "ID o' \<noteq> 0" and "uint (ID o') \<le> 65100" and "int (length (ToBytes o')) \<le> 1034"
    by auto
qed

lemma Options_Unmarshal_loop_Cons:
  assumes "h \<noteq> 0xff" and "uint (drop_bit 4 h) = nd" and "uint (h AND 0x0f) = nl"
    and "nd \<noteq> 15" and "nl \<noteq> 15"
    and "parseExtOpt t nd = Ok (p1, d)"
    and "parseExtOpt (drop (nat p1) t) nl = Ok (p2, l)"
    and "\<not> int (length (drop (nat p2) (drop (nat p1) t))) < l"
    and "Option_Unmarshal optionDefs zeroOption (word_of_int (prev + d))
           (take (nat l) (drop (nat p2) (drop (nat p1) t))) = Ok (p3, opt)"
    and "cap \<noteq> length acc"
  shows "Options_Unmarshal_loop optionDefs cap (h # t) prev processed acc =
         Options_Unmarshal_loop optionDefs cap (drop (nat p3) (drop (nat p2) (drop (nat p1) t)))
           (uint (word_of_int (prev + d) :: OptionID)) (processed + 1 + p1 + p2 + p3)
           (if ID opt \<noteq> 0 then acc @ [opt] else acc)"
  apply (subst Options_Unmarshal_loop.simps)
  using assms
  apply (simp add: ExtendOptionError_def)
  done

lemma Options_Unmarshal_loop_step:
  assumes v: "valid_option o'" and p0: "0 \<le> prev" and p1: "prev \<le> uint (ID o')"
    and cap: "length acc < cap"
  shows "Options_Unmarshal_loop CoapOptionDefs cap (option_wire o' prev @ rest) prev processed acc =
         Options_Unmarshal_loop CoapOptionDefs cap rest (uint (ID o'))
           (processed + int (length (option_wire o' prev))) (acc @ [o'])"
proof -
  define val where "val = ToBytes o'"
  define d where "d = uint (ID o') - prev"
  define l where "l = int (length val)"
  obtain nd dx where ed: "extendOpt d = (nd, dx)" by (cases "extendOpt d")
  obtain nl lx where el: "extendOpt l = (nl, lx)" by (cases "extendOpt l")
  define e1 where "e1 = writeExt nd dx"
  define e2 where "e2 = writeExt nl lx"
  define h :: byte where "h = word_of_int (push_bit 4 nd) OR word_of_int nl"
  define t where "t = e1 @ e2 @ val @ rest"
  have d0: "0 \<le> d" and d1: "d \<le> 65804"
    using p0 p1 valid_option_bounds(2)[OF v] by (simp_all add: d_def)
  have l0: "0 \<le> l" and l1: "l \<le> 65804"
    using valid_option_bounds(3)[OF v] by (simp_all add: l_def val_def)
  have nd: "0 \<le> nd" "nd < 15" using extendOpt_range[OF d0] ed by simp_all
  have nl: "0 \<le> nl" "nl < 15" using extendOpt_range[OF l0] el by simp_all
  have wire: "option_wire o' prev @ rest = h # t"
    by (simp add: option_wire_def writeOptHeader_def d_def[symmetric] val_def[symmetric]
        l_def[symmetric] ed el e1_def e2_def h_def t_def)
  have lw: "int (length (option_wire o' prev)) = 1 + int (length e1) + int (length e2) + l"
    by (simp add: option_wire_def writeOptHeader_def d_def[symmetric] val_def[symmetric]
        l_def[symmetric] ed el e1_def e2_def)
  have hne: "h \<noteq> 0xff" unfolding h_def using nibble_not_marker[of nd nl] nd nl by simp
  have hd: "uint (drop_bit 4 h) = nd" unfolding h_def using nibble_hi[of nd nl] nd nl by simp
  have hl: "uint (h AND 0x0f) = nl" unfolding h_def using nibble_lo[of nd nl] nd nl by simp
  have nd15: "nd \<noteq> 15" and nl15: "nl \<noteq> 15" using nd nl by simp_all
  have pe1: "parseExtOpt t nd = Ok (int (length e1), d)"
    unfolding e1_def t_def by (rule parseExtOpt_writeExt[OF d0 d1 ed])
  have dr1: "drop (nat (int (length e1))) t = e2 @ val @ rest" by (simp add: t_def)
  have pe2: "parseExtOpt (drop (nat (int (length e1))) t) nl = Ok (int (length e2), l)"
    unfolding dr1 e2_def by (rule parseExtOpt_writeExt[OF l0 l1 el])
  have dr2: "drop (nat (int (length e2))) (drop (nat (int (length e1))) t) = val @ rest"
    unfolding dr1 by simp
  have lenck: "\<not> int (length (drop (nat (int (length e2))) (drop (nat (int (length e1))) t))) < l"
    unfolding dr2 by (simp add: l_def)
  have tk: "take (nat l) (val @ rest) = val" and dr3: "drop (nat l) (val @ rest) = rest"
    by (simp_all add: l_def)
  have oid: "(word_of_int (prev + d) :: OptionID) = ID o'" by (simp add: d_def)
  have ou: "Option_Unmarshal CoapOptionDefs zeroOption (word_of_int (prev + d))
      (take (nat l) (drop (nat (int (length e2))) (drop (nat (int (length e1))) t))) = Ok (l, o')"
    unfolding dr2 tk oid unfolding val_def l_def by (rule Option_Unmarshal_valid[OF v])
  have idnz: "ID o' \<noteq> 0" by (rule valid_option_bounds(1)[OF v])
  have capne: "cap \<noteq> length acc" using cap by simp
  show ?thesis
    unfolding wire lw
    unfolding Options_Unmarshal_loop_Cons[OF hne hd hl nd15 nl15 pe1 pe2 lenck ou capne]
    unfolding dr2 dr3 oid
    using idnz by (simp add: add.assoc)
qed


lemma Options_Unmarshal_loop_wire:
  assumes "\<forall>o' \<in> set os. valid_option o'" and "sorted (map ID os)"
    and "\<forall>o' \<in> set os. prev \<le> uint (ID o')" and "0 \<le> prev"
    and "length acc + length os \<le> cap"
    and "tail = [] \<or> (\<exists>p. tail = 0xff # p)"
  shows "Options_Unmarshal_loop CoapOptionDefs cap (MarshalBinary_opts prev os @ tail) prev processed acc =
         (Ok (processed + int (length (MarshalBinary_opts prev os)) + (if tail = [] then 0 else 1)),
          acc @ os)"
  using assms(1-5)
proof (induction os arbitrary: prev processed acc)
  case Nil
  from assms(6) show ?case
    by (auto simp add: Options_Unmarshal_loop.simps[of _ _ "[]"]
        Options_Unmarshal_loop.simps[of _ _ "_ # _"])
next
  case (Cons o' os)
  have v: "valid_option o'" using Cons.prems(1) by simp
  have p1: "prev \<le> uint (ID o')" using Cons.prems(3) by simp
  have cap: "length acc < cap" using Cons.prems(5) by simp
  have vs: "\<forall>x \<in> set os. valid_option x" using Cons.prems(1) by simp
  have so: "sorted (map ID os)" using Cons.prems(2) by simp
  have le: "\<forall>x \<in> set os. uint (ID o') \<le> uint (ID x)"
    using Cons.prems(2) by (auto simp: word_le_def)
  have cap': "length (acc @ [o']) + length os \<le> cap" using Cons.prems(5) by simp
  have w: "MarshalBinary_opts prev (o' # os) @ tail =
      option_wire o' prev @ (MarshalBinary_opts (uint (ID o')) os @ tail)"
    unfolding MarshalBinary_opts_Cons by simp
  have step: "Options_Unmarshal_loop CoapOptionDefs cap
       (option_wire o' prev @ (MarshalBinary_opts (uint (ID o')) os @ tail)) prev processed acc =
     Options_Unmarshal_loop CoapOptionDefs cap (MarshalBinary_opts (uint (ID o')) os @ tail)
       (uint (ID o')) (processed + int (length (option_wire o' prev))) (acc @ [o'])"
    by (rule Options_Unmarshal_loop_step[OF v Cons.prems(4) p1 cap])
  have ih: "Options_Unmarshal_loop CoapOptionDefs cap (MarshalBinary_opts (uint (ID o')) os @ tail)
       (uint (ID o')) (processed + int (length (option_wire o' prev))) (acc @ [o']) =
     (Ok (processed + int (length (option_wire o' prev))
          + int (length (MarshalBinary_opts (uint (ID o')) os)) + (if tail = [] then 0 else 1)),
      (acc @ [o']) @ os)"
    by (rule Cons.IH[OF vs so le _ cap']) simp
  show ?case
    unfolding w unfolding step unfolding ih unfolding MarshalBinary_opts_Cons by simp
qed

lemma Options_Unmarshal_wire:
  assumes "\<forall>o' \<in> set options. valid_option o'"
    and "length options \<le> cap"
    and "tail = [] \<or> (\<exists>p. tail = 0xff # p)"
  shows "Options_Unmarshal [] cap (options_wire options @ tail) CoapOptionDefs =
         (Ok (int (length (options_wire options)) + (if tail = [] then 0 else 1)),
          sort_key ID options)"
  unfolding Options_Unmarshal_def options_wire_def
  using Options_Unmarshal_loop_wire[of "sort_key ID options" 0 "[]" cap tail 0] assms
  by simp


section \<open>The first byte of a frame\<close>

lemma and_15_int: assumes "0 \<le> k" and "k < 16" shows "(15::int) AND k = k"
proof (rule bit_eqI)
  fix n
  have e: "(15::int) = mask 4" by (simp add: mask_eq_exp_minus_1)
  have b: "\<not> bit k j" if "4 \<le> j" for j using bit_int_hi_false[of k 4 j] assms that by simp
  show "bit (15 AND k) n = bit k n"
    unfolding e using b[of n] by (cases "n < 4") (auto simp: bit_simps)
qed

lemma byte0_low4:
  fixes v wt :: byte
  assumes "0 \<le> k" and "k < 16"
  shows "uint ((push_bit 6 v OR push_bit 4 wt OR word_of_int k) AND 0x0f) = k"
proof (rule bit_eqI)
  fix n
  have e: "(0x0f :: byte) = mask 4" by (simp add: mask_eq_exp_minus_1)
  have b: "\<not> bit k j" if "4 \<le> j" for j using bit_int_hi_false[of k 4 j] assms that by simp
  show "bit (uint ((push_bit 6 v OR push_bit 4 wt OR word_of_int k) AND 0x0f)) n = bit k n"
    unfolding e using b[of n] by (cases "n < 4") (auto simp: bit_simps)
qed

lemma byte0_type:
  fixes v wt :: byte
  assumes "0 \<le> k" and "k < 16"
  shows "uint (drop_bit 4 (push_bit 6 v OR push_bit 4 wt OR word_of_int k) AND 0x3) = uint (wt AND 0x3)"
proof (rule bit_eqI)
  fix n
  have e: "(0x3 :: byte) = mask 2" by (simp add: mask_eq_exp_minus_1)
  have b: "\<not> bit k j" if "4 \<le> j" for j using bit_int_hi_false[of k 4 j] assms that by simp
  show "bit (uint (drop_bit 4 (push_bit 6 v OR push_bit 4 wt OR word_of_int k) AND 0x3)) n
        = bit (uint (wt AND 0x3)) n"
    unfolding e using b[of "n + 4"] b[of "4 + n"] by (cases "n < 2") (auto simp: bit_simps)
qed

lemma byte0_version:
  fixes wt :: byte
  assumes "0 \<le> k" and "k < 16"
  shows "drop_bit 6 (push_bit 6 1 OR push_bit 4 wt OR word_of_int k :: byte) = 1 \<longleftrightarrow> \<not> bit wt 3"
proof -
  have b: "\<not> bit k j" if "4 \<le> j" for j using bit_int_hi_false[of k 4 j] assms that by simp
  define x :: byte where "x = drop_bit 6 (push_bit 6 1 OR push_bit 4 wt OR word_of_int k)"
  have bits: "bit x n \<longleftrightarrow> (n = 0 \<or> (n = 1 \<and> bit wt 3))" for n
    unfolding x_def using b[of "n + 6"] b[of "6 + n"]
    by (cases "n = 0"; cases "n = 1") (auto simp: bit_simps numeral_3_eq_3)
  show ?thesis
  proof
    assume "drop_bit 6 (push_bit 6 1 OR push_bit 4 wt OR word_of_int k :: byte) = 1"
    then have "x = 1" by (simp add: x_def)
    then have "bit x 1 = bit (1::byte) 1" by simp
    then show "\<not> bit wt 3" by (simp add: bits)
  next
    assume n: "\<not> bit wt 3"
    have "x = 1"
      by (rule bit_word_eqI) (simp add: bits n bit_1_iff)
    then show "drop_bit 6 (push_bit 6 1 OR push_bit 4 wt OR word_of_int k :: byte) = 1"
      by (simp add: x_def)
  qed
qed

lemma bit_word_of_int_byte: "n < 8 \<Longrightarrow> bit (word_of_int t :: byte) n = bit t n"
  by (simp add: bit_simps)

lemma uint_and3: "uint ((word_of_int t :: byte) AND 0x3) = t mod 4"
proof -
  have e: "(0x3 :: byte) = mask 2" by (simp add: mask_eq_exp_minus_1)
  have "uint ((word_of_int t :: byte) AND mask 2) = take_bit 2 t"
    by (rule bit_eqI) (auto simp: bit_simps)
  then show ?thesis unfolding e by (simp add: take_bit_eq_mod)
qed


section \<open>Decoding a frame of version 1\<close>

lemma coderv1_header_nth:
  "coderv1_header m ! 0 = (push_bit 6 1 OR push_bit 4 (word_of_int (Type m))
            OR word_of_int (0xf AND int (length (Token m))))"
  "coderv1_header m ! 1 = Code m"
  "take 2 (drop 2 (coderv1_header m)) = be16 (word_of_int (MessageID m))"
  by (simp_all add: coderv1_header_def Let_def PutUint16_zero be16_def)

lemma v1_frame_nth:
  "v1_frame m ! 0 = coderv1_header m ! 0"
  "v1_frame m ! 1 = coderv1_header m ! 1"
  "take 2 (drop 2 (v1_frame m)) = take 2 (drop 2 (coderv1_header m))"
  "drop 4 (v1_frame m) = Token m @ options_wire (Opts m) @ payload_wire m"
  by (simp_all add: v1_frame_def nth_append length_coderv1_header)

lemma coderv1_Decode_rejects:
  assumes "length (Token M) \<le> 8" and "bit (word_of_int (Type M) :: byte) 3"
  shows "coderv1_Decode (v1_frame M) d = (Fail ErrMessageInvalidVersion, d)"
proof -
  have k: "0 \<le> int (length (Token M))" "int (length (Token M)) < 16" using assms by simp_all
  have a: "15 AND int (length (Token M)) = int (length (Token M))" by (rule and_15_int[OF k])
  have v: "drop_bit 6 (v1_frame M ! 0) \<noteq> 1"
    unfolding v1_frame_nth coderv1_header_nth a using byte0_version[OF k, of "word_of_int (Type M)"] assms(2)
    by simp
  have l: "\<not> int (length (v1_frame M)) < 4" by (simp add: v1_frame_def length_coderv1_header)
  show ?thesis
    unfolding coderv1_Decode_def Let_def using v l by simp
qed

lemma coderv1_Decode_frame:
  assumes "length (Token M) \<le> 8" and "ValidateMID (MessageID M)"
    and "\<not> bit (word_of_int (Type M) :: byte) 3"
    and "\<forall>o' \<in> set (Opts M). valid_option o'"
    and "Opts d = []" and "length (Opts M) \<le> OptsCap d"
  shows "coderv1_Decode (v1_frame M) d =
           (Ok (int (length (v1_frame M))),
            d\<lparr>Opts := sort_key ID (Opts M), Ver := Version1, Token := Token M, Code := Code M,
              Payload := Payload M, MessageID := MessageID M, Type := Type M mod 4\<rparr>)"
proof -
  define T where "T = Token M"
  define W where "W = options_wire (Opts M)"
  define tail where "tail = payload_wire M"
  have k: "0 \<le> int (length (Token M))" "int (length (Token M)) < 16" using assms by simp_all
  have a: "15 AND int (length (Token M)) = int (length (Token M))" by (rule and_15_int[OF k])
  have v: "drop_bit 6 (v1_frame M ! 0) = 1"
    unfolding v1_frame_nth coderv1_header_nth a using byte0_version[OF k, of "word_of_int (Type M)"] assms(3)
    by simp
  have ty: "uint (drop_bit 4 (v1_frame M ! 0) AND 0x3) = Type M mod 4"
    unfolding v1_frame_nth coderv1_header_nth a
    unfolding byte0_type[OF k] by (rule uint_and3)
  have tkl: "uint (v1_frame M ! 0 AND 0xf) = int (length T)"
    unfolding v1_frame_nth coderv1_header_nth a T_def
    by (rule byte0_low4[OF k])
  have code: "v1_frame M ! 1 = Code M" unfolding v1_frame_nth(2) by (rule coderv1_header_nth(2))
  have mid: "uint (Uint16 (take 2 (drop 2 (v1_frame M)))) = MessageID M"
    unfolding v1_frame_nth coderv1_header_nth Uint16_be16 using assms(2)
    by (simp add: ValidateMID_def uint_word_of_int)
  have l: "\<not> int (length (v1_frame M)) < 4" by (simp add: v1_frame_def length_coderv1_header)
  have d4: "drop 4 (v1_frame M) = T @ W @ tail" by (simp add: v1_frame_nth T_def W_def tail_def)
  have tl: "tail = [] \<or> (\<exists>p. tail = 0xff # p)" by (simp add: tail_def payload_wire_def)
  have ou: "Options_Unmarshal (Opts d) (OptsCap d) (W @ tail) CoapOptionDefs =
         (Ok (int (length W) + (if tail = [] then 0 else 1)), sort_key ID (Opts M))"
    unfolding W_def assms(5) by (rule Options_Unmarshal_wire[OF assms(4) assms(6) tl])
  have pl: "drop (nat (int (length W) + (if tail = [] then 0 else 1))) (W @ tail) = Payload M"
    by (simp add: tail_def payload_wire_def nat_add_distrib)
  have rng: "\<not> (int (length W) + (if tail = [] then 0 else 1) < 0 \<or>
              nat (int (length W) + (if tail = [] then 0 else 1)) > length (W @ tail))"
    by (auto simp: tail_def payload_wire_def nat_add_distrib)
  have tk: "take (nat (int (length T))) (T @ W @ tail) = T"
    "drop (nat (int (length T))) (T @ W @ tail) = W @ tail"
    "\<not> int (length (T @ W @ tail)) < int (length T)" by simp_all
  have t8: "\<not> int (length T) > 8" using assms(1) by (simp add: T_def)
  show ?thesis
    unfolding coderv1_Decode_def Let_def v ty tkl code mid d4
    unfolding tk ou
    using l t8 rng pl by (simp add: T_def)
qed


section \<open>Frames of version 0\<close>

text \<open>The frame of version 0: the header and the payload.\<close>

definition v0_frame :: "Message \<Rightarrow> byte list" where
  "v0_frame m = coderv0_header m @ Payload m"

lemma length_coderv0_header: "length (coderv0_header m) = 4"
  by (simp add: coderv0_header_def Let_def)

lemma coderv0_Encode_frame:
  assumes "ValidateType (Type m)" and "ValidateEID (EncoderID m)" and "ValidateETP (EncoderType m)"
    and "length (v0_frame m) \<le> length buf"
  shows "coderv0_Encode m buf =
           Return ((int (length (v0_frame m)), None), v0_frame m @ drop (length (v0_frame m)) buf)"
  using assms
  by (simp add: coderv0_Encode_def coderv0_Size_def v0_frame_def length_coderv0_header go_copy_def
      add.commute)

lemma Uint16_LE_roundtrip: "Uint16_LE (PutUint16_LE [0, 0] w) = w"
proof -
  have "(ucast (ucast w :: byte) :: 16 word) OR push_bit 8 (ucast (ucast (drop_bit 8 w) :: byte)) = w"
  proof (rule bit_word_eqI)
    fix n assume "n < LENGTH(16)"
    then show "bit ((ucast (ucast w :: byte) :: 16 word) OR push_bit 8 (ucast (ucast (drop_bit 8 w) :: byte))) n = bit w n"
      by (cases "n < 8") (auto simp: bit_simps)
  qed
  then show ?thesis by (simp add: Uint16_LE_def PutUint16_LE_def go_copy_def)
qed

lemma coderv0_header_nth:
  "coderv0_header m ! 0 = word_of_int (Type m)"
  "coderv0_header m ! 1 = word_of_int (push_bit 4 (EncoderID m)) OR word_of_int (EncoderType m)"
  "take 2 (drop 2 (coderv0_header m)) = PutUint16_LE [0, 0] (CRC16Bytes (Payload m))"
  by (simp_all add: coderv0_header_def Let_def PutUint16_LE_def go_copy_def)

lemma v0_frame_nth:
  "v0_frame m ! 0 = coderv0_header m ! 0"
  "v0_frame m ! 1 = coderv0_header m ! 1"
  "take 2 (drop 2 (v0_frame m)) = take 2 (drop 2 (coderv0_header m))"
  "drop 4 (v0_frame m) = Payload m"
  by (simp_all add: v0_frame_def nth_append length_coderv0_header)

lemma v0_version:
  assumes "0 \<le> t" and "t \<le> 255"
  shows "drop_bit 6 (word_of_int t :: byte) = 0 \<longleftrightarrow> t < 64"
proof -
  have "uint (drop_bit 6 (word_of_int t :: byte)) = t div 64"
    using assms by (simp add: drop_bit_eq_div uint_div_distrib uint_word_of_int)
  moreover have "drop_bit 6 (word_of_int t :: byte) = 0 \<longleftrightarrow> uint (drop_bit 6 (word_of_int t :: byte)) = 0"
    by (simp add: uint_0_iff)
  ultimately show ?thesis using assms by auto
qed

lemma v0_eid:
  assumes "0 \<le> e" and "e \<le> 15" and "0 \<le> k" and "k \<le> 15"
  shows "uint (drop_bit 4 (word_of_int (push_bit 4 e) OR word_of_int k :: byte)) = e"
proof (rule bit_eqI)
  fix n
  have b: "\<not> bit k j" if "4 \<le> j" for j using bit_int_hi_false[of k 4 j] assms that by simp
  have c: "\<not> bit e j" if "4 \<le> j" for j using bit_int_hi_false[of e 4 j] assms that by simp
  show "bit (uint (drop_bit 4 (word_of_int (push_bit 4 e) OR word_of_int k :: byte))) n = bit e n"
    using b[of "n + 4"] b[of "4 + n"] c[of n] by (cases "n < 4") (auto simp: bit_simps)
qed

lemma v0_etp:
  assumes "0 \<le> e" and "e \<le> 15" and "0 \<le> k" and "k \<le> 15"
  shows "uint ((word_of_int (push_bit 4 e) OR word_of_int k :: byte) AND 0xf) = k"
proof (rule bit_eqI)
  fix n
  have m: "(0xf :: byte) = mask 4" by (simp add: mask_eq_exp_minus_1)
  have b: "\<not> bit k j" if "4 \<le> j" for j using bit_int_hi_false[of k 4 j] assms that by simp
  show "bit (uint ((word_of_int (push_bit 4 e) OR word_of_int k :: byte) AND 0xf)) n = bit k n"
    unfolding m using b[of n] by (cases "n < 4") (auto simp: bit_simps)
qed

lemma coderv0_Decode_frame:
  assumes "ValidateType (Type M)" and "ValidateEID (EncoderID M)" and "ValidateETP (EncoderType M)"
  shows "coderv0_Decode (v0_frame M) d =
           (if Type M < 64
            then (Ok (int (length (v0_frame M))),
                  d\<lparr>Ver := Version0, Payload := Payload M, Type := Type M mod 4,
                    EncoderID := EncoderID M, EncoderType := EncoderType M,
                    Crc16 := CRC16Bytes (Payload M)\<rparr>)
            else (Fail ErrMessageInvalidVersion, d))"
proof -
  have t: "0 \<le> Type M" "Type M \<le> 255" using assms(1) by (simp_all add: ValidateType_def)
  have e: "0 \<le> EncoderID M" "EncoderID M \<le> 15" using assms(2) by (simp_all add: ValidateEID_def)
  have k: "0 \<le> EncoderType M" "EncoderType M \<le> 15" using assms(3) by (simp_all add: ValidateETP_def)
  have v: "drop_bit 6 (v0_frame M ! 0) = 0 \<longleftrightarrow> Type M < 64"
    unfolding v0_frame_nth coderv0_header_nth by (rule v0_version[OF t])
  have ty: "uint (v0_frame M ! 0 AND 0x3) = Type M mod 4"
    unfolding v0_frame_nth coderv0_header_nth by (rule uint_and3)
  have eid: "uint (drop_bit 4 (v0_frame M ! 1)) = EncoderID M"
    unfolding v0_frame_nth coderv0_header_nth by (rule v0_eid[OF e k])
  have etp: "uint (v0_frame M ! 1 AND 0xf) = EncoderType M"
    unfolding v0_frame_nth coderv0_header_nth by (rule v0_etp[OF e k])
  have crc: "Uint16_LE (take 2 (drop 2 (v0_frame M))) = CRC16Bytes (Payload M)"
    unfolding v0_frame_nth coderv0_header_nth by (rule Uint16_LE_roundtrip)
  have l: "\<not> int (length (v0_frame M)) < 4" by (simp add: v0_frame_def length_coderv0_header)
  show ?thesis
    unfolding coderv0_Decode_def Let_def ty eid etp crc v0_frame_nth(4)
    using l v by simp
qed


section \<open>Encoding and decoding with version 1\<close>

text \<open>
  The message inside a fresh \<^verbatim>\<open>message.Message\<close> (\<^verbatim>\<open>NewMessage\<close>, src/unnamed/part\_005): an empty
  option container of capacity 16, the message ID and the type unset.
\<close>

definition newMessage :: Message where
  "newMessage = zeroMessage\<lparr>OptsCap := 16, MessageID := -1, Type := -1\<rparr>"



lemma bit3_word: "bit (word_of_int t :: byte) 3 \<longleftrightarrow> t div 8 mod 2 = 1"
proof -
  have "bit (word_of_int t :: byte) 3 = bit t 3" by (rule bit_word_of_int_byte) simp
  also have "\<dots> \<longleftrightarrow> odd (t div 2 ^ 3)" by (rule bit_iff_odd)
  also have "\<dots> \<longleftrightarrow> t div 8 mod 2 = 1" by (simp add: odd_iff_mod_2_eq_one)
  finally show ?thesis .
qed











section \<open>The type bits of versions 0 and 1\<close>

text \<open>Two messages whose type is outside \<open>0..3\<close>: 4 and 8.\<close>

definition type4 :: Message where
  "type4 = zeroMessage\<lparr>Type := 4, MessageID := 1\<rparr>"

definition type8 :: Message where
  "type8 = zeroMessage\<lparr>Type := 8, MessageID := 1\<rparr>"



text \<open>
  Claim C9, as the code has it. \<^verbatim>\<open>ValidateType\<close> accepts every type in \<open>0..255\<close>, and for every
  message with such a type (and a token of at most 8 bytes, a valid message ID, encoder ID
  and encoder type, and options that conform to the registry) \<^verbatim>\<open>Coder.Encode\<close> of version 1
  and of version 0 succeed. The byte \<^verbatim>\<open>byte(m.Type)<<4\<close> of version 1 keeps only the bits 0
  to 3 of the type: the version bits of the frame are 1, and \<^verbatim>\<open>Coder.Decode\<close> accepts the frame,
  exactly when bit 3 of the type is clear, and it rejects the frame with
  \<^verbatim>\<open>ErrMessageInvalidVersion\<close> exactly when that bit is set; an accepted frame decodes to the
  type modulo 4. Version 0 writes \<^verbatim>\<open>byte(m.Type)\<close>: the version bits are 0, and the frame is
  accepted, exactly when the type is below 64, and rejected with \<^verbatim>\<open>ErrMessageInvalidVersion\<close>
  from 64 on; an accepted frame decodes to the type modulo 4. So the type comes back
  unchanged only for \<open>0..3\<close>, and a type such as 4 is neither rejected nor restored.
\<close>

theorem type_bits_roundtrip:
  assumes "ValidateType (Type M)" and "length (Token M) \<le> 8" and "ValidateMID (MessageID M)"
    and "ValidateEID (EncoderID M)" and "ValidateETP (EncoderType M)"
    and "\<forall>o' \<in> set (Opts M). valid_option o'"
    and "Opts d = []" and "length (Opts M) \<le> OptsCap d"
    and "length (v1_frame M) \<le> length buf" and "length (v0_frame M) \<le> length buf"
  shows "coderv1_Encode M buf =
           Return ((int (length (v1_frame M)), None), v1_frame M @ drop (length (v1_frame M)) buf) \<and>
         (drop_bit 6 (v1_frame M ! 0) = 1) = (Type M div 8 mod 2 = 0) \<and>
         coderv1_Decode (v1_frame M) d =
           (if Type M div 8 mod 2 = 1 then (Fail ErrMessageInvalidVersion, d)
            else (Ok (int (length (v1_frame M))),
                  d\<lparr>Opts := sort_key ID (Opts M), Ver := Version1, Token := Token M, Code := Code M,
                    Payload := Payload M, MessageID := MessageID M, Type := Type M mod 4\<rparr>)) \<and>
         coderv0_Encode M buf =
           Return ((int (length (v0_frame M)), None), v0_frame M @ drop (length (v0_frame M)) buf) \<and>
         (drop_bit 6 (v0_frame M ! 0) = 0) = (Type M < 64) \<and>
         coderv0_Decode (v0_frame M) d =
           (if 64 \<le> Type M then (Fail ErrMessageInvalidVersion, d)
            else (Ok (int (length (v0_frame M))),
                  d\<lparr>Ver := Version0, Payload := Payload M, Type := Type M mod 4,
                    EncoderID := EncoderID M, EncoderType := EncoderType M,
                    Crc16 := CRC16Bytes (Payload M)\<rparr>))"
proof -
  have t: "0 \<le> Type M" "Type M \<le> 255" using assms(1) by (simp_all add: ValidateType_def)
  have k: "0 \<le> int (length (Token M))" "int (length (Token M)) < 16" using assms(2) by simp_all
  have a: "15 AND int (length (Token M)) = int (length (Token M))" by (rule and_15_int[OF k])
  have e1: "coderv1_Encode M buf =
           Return ((int (length (v1_frame M)), None), v1_frame M @ drop (length (v1_frame M)) buf)"
    by (rule coderv1_Encode_frame[OF assms(2,3,1,9)])
  have v1: "(drop_bit 6 (v1_frame M ! 0) = 1) = (Type M div 8 mod 2 = 0)"
    unfolding v1_frame_nth coderv1_header_nth a
    using byte0_version[OF k, of "word_of_int (Type M)"] bit3_word[of "Type M"] by auto
  have d1: "coderv1_Decode (v1_frame M) d =
           (if Type M div 8 mod 2 = 1 then (Fail ErrMessageInvalidVersion, d)
            else (Ok (int (length (v1_frame M))),
                  d\<lparr>Opts := sort_key ID (Opts M), Ver := Version1, Token := Token M, Code := Code M,
                    Payload := Payload M, MessageID := MessageID M, Type := Type M mod 4\<rparr>))"
  proof (cases "Type M div 8 mod 2 = 1")
    case True
    then have "bit (word_of_int (Type M) :: byte) 3" by (simp add: bit3_word)
    from coderv1_Decode_rejects[OF assms(2) this] True show ?thesis by simp
  next
    case False
    then have "\<not> bit (word_of_int (Type M) :: byte) 3" by (simp add: bit3_word)
    from coderv1_Decode_frame[OF assms(2,3) this assms(6,7,8)] False show ?thesis by simp
  qed
  have e0: "coderv0_Encode M buf =
           Return ((int (length (v0_frame M)), None), v0_frame M @ drop (length (v0_frame M)) buf)"
    by (rule coderv0_Encode_frame[OF assms(1,4,5,10)])
  have v0: "(drop_bit 6 (v0_frame M ! 0) = 0) = (Type M < 64)"
    unfolding v0_frame_nth coderv0_header_nth by (rule v0_version[OF t])
  have d0: "coderv0_Decode (v0_frame M) d =
           (if 64 \<le> Type M then (Fail ErrMessageInvalidVersion, d)
            else (Ok (int (length (v0_frame M))),
                  d\<lparr>Ver := Version0, Payload := Payload M, Type := Type M mod 4,
                    EncoderID := EncoderID M, EncoderType := EncoderType M,
                    Crc16 := CRC16Bytes (Payload M)\<rparr>))"
    using coderv0_Decode_frame[OF assms(1,4,5), of d] by auto
  from e1 v1 d1 e0 v0 d0 show ?thesis by blast
qed


lemma frames_type8:
  "v1_frame type8 = [0xC0, 0, 0, 1]" "v0_frame type8 = [8, 0, 0xFF, 0xFF]"
  by code_simp+

text \<open>The type 8: version 1 rejects its own frame, version 0 decodes it to the type 0.\<close>

theorem type_bits_roundtrip_witness:
  "coderv1_Encode type8 (replicate 4 0) = Return ((4, None), [0xC0, 0, 0, 1]) \<and>
   coderv1_Decode [0xC0, 0, 0, 1] newMessage = (Fail ErrMessageInvalidVersion, newMessage) \<and>
   coderv0_Encode type8 (replicate 4 0) = Return ((4, None), [8, 0, 0xFF, 0xFF]) \<and>
   coderv0_Decode [8, 0, 0xFF, 0xFF] newMessage =
     (Ok 4, \<lparr>Ver = 0, Token = [], Opts = [], OptsCap = 16, Code = 0, Payload = [], MessageID = -1,
             Type = 0, EncoderID = 0, EncoderType = 0, Crc16 = 0xFFFF, Rsum8 = 0\<rparr>)"
proof -
  have h: "ValidateType (Type type8)" "length (Token type8) \<le> 8" "ValidateMID (MessageID type8)"
    "ValidateEID (EncoderID type8)" "ValidateETP (EncoderType type8)"
    "\<forall>o' \<in> set (Opts type8). valid_option o'"
    "Opts newMessage = []" "length (Opts type8) \<le> OptsCap newMessage"
    "length (v1_frame type8) \<le> length (replicate 4 (0::byte))"
    "length (v0_frame type8) \<le> length (replicate 4 (0::byte))"
    by (simp_all add: frames_type8)
      (simp_all add: type8_def newMessage_def zeroMessage_def ValidateType_def ValidateMID_def
        ValidateEID_def ValidateETP_def)
  have c: "CRC16Bytes [] = 0xFFFF" by (simp add: CRC16Bytes_def)
  have f: "Type type8 = 8" "Payload type8 = []" "EncoderID type8 = 0" "EncoderType type8 = 0"
    by (simp_all add: type8_def zeroMessage_def)
  from type_bits_roundtrip[OF h] show ?thesis
    by (simp add: frames_type8 f c newMessage_def zeroMessage_def Version0_def)
qed

text \<open>
  The type 4 is valid, both encoders succeed, and both decoders accept the frame: the
  version bits are those of the encoder, and the decoded type is 0.
\<close>

theorem type_bits_roundtrip_counterexample:
  "ValidateType (Type type4) \<and> Type type4 = 4 \<and>
   coderv1_Encode type4 (replicate 4 0) = Return ((4, None), [0x40, 0, 0, 1]) \<and>
   coderv1_Decode [0x40, 0, 0, 1] newMessage =
     (Ok 4, \<lparr>Ver = 1, Token = [], Opts = [], OptsCap = 16, Code = 0, Payload = [], MessageID = 1,
             Type = 0, EncoderID = 0, EncoderType = 0, Crc16 = 0, Rsum8 = 0\<rparr>) \<and>
   coderv0_Encode type4 (replicate 4 0) = Return ((4, None), [4, 0, 0xFF, 0xFF]) \<and>
   coderv0_Decode [4, 0, 0xFF, 0xFF] newMessage =
     (Ok 4, \<lparr>Ver = 0, Token = [], Opts = [], OptsCap = 16, Code = 0, Payload = [], MessageID = -1,
             Type = 0, EncoderID = 0, EncoderType = 0, Crc16 = 0xFFFF, Rsum8 = 0\<rparr>)"
  by code_simp


section \<open>The frame of GET /a/b\<close>

text \<open>
  The confirmable GET of \<open>/a/b\<close> with the message ID \<open>0x1234\<close>, no token and no payload.
\<close>

definition get_a_b :: Message where
  "get_a_b = zeroMessage\<lparr>Type := Confirmable, Code := GET, MessageID := 0x1234,
     Opts := [\<lparr>ID = URIPath, Value = VString [0x61]\<rparr>, \<lparr>ID = URIPath, Value = VString [0x62]\<rparr>]\<rparr>"


text \<open>
  Claim C6, as the code has it. The message is a confirmable GET with the message ID
  \<open>0x1234\<close>, an empty token, no payload and the path \<open>a/b\<close>. Byte 0 is
  \<^verbatim>\<open>(1 << 6) | byte(m.Type)<<4 | byte(0xf&len(m.Token))\<close>, which is \<open>0x40\<close> for the type 0 and
  the token length 0: the header of \<^verbatim>\<open>Coder.Encode\<close> of version 1 is \<open>40 01 12 34\<close>, and
  \<^verbatim>\<open>Message.MarshalBinary\<close> produces exactly the eight bytes \<open>40 01 12 34 B1 61 01 62\<close> (code GET
  \<open>0x01\<close>, the message ID big-endian, the option \<open>URIPath\<close> \<open>a\<close> as delta 11 and length 1, the
  option \<open>URIPath\<close> \<open>b\<close> as delta 0 and length 1). \<^verbatim>\<open>ParseMessage\<close> of those eight bytes succeeds
  and yields that message: GET with the path \<open>a/b\<close>.
\<close>

theorem get_a_b_frame:
  "Type get_a_b = Confirmable \<and> Code get_a_b = GET \<and> MessageID get_a_b = 0x1234 \<and>
   Token get_a_b = [] \<and> Payload get_a_b = [] \<and>
   PathString get_a_b = Return [0x61, 0x2f, 0x62] \<and>
   coderv1_header get_a_b = [0x40, 0x01, 0x12, 0x34] \<and>
   fst (MarshalBinary get_a_b) = [0x40, 0x01, 0x12, 0x34, 0xB1, 0x61, 0x01, 0x62] \<and>
   ParseMessage [0x40, 0x01, 0x12, 0x34, 0xB1, 0x61, 0x01, 0x62] = (Ok (), get_a_b) \<and>
   PathString (snd (ParseMessage [0x40, 0x01, 0x12, 0x34, 0xB1, 0x61, 0x01, 0x62])) =
     Return [0x61, 0x2f, 0x62]"
  by code_simp

text \<open>
  The bytes are not those that start with \<open>0x41\<close>: byte 0 is \<open>0x40\<close>. A first byte \<open>0x41\<close>
  announces a token of one byte, and parsing \<open>41 01 12 34 B1 61 01 62\<close> fails.
\<close>

theorem get_a_b_frame_counterexample:
  "fst (MarshalBinary get_a_b) \<noteq> [0x41, 0x01, 0x12, 0x34, 0xB1, 0x61, 0x01, 0x62] \<and>
   fst (MarshalBinary get_a_b) ! 0 = 0x40 \<and>
   coderv1_header get_a_b ! 0 = 0x40 \<and>
   fst (ParseMessage [0x41, 0x01, 0x12, 0x34, 0xB1, 0x61, 0x01, 0x62]) = Fail ErrTruncated"
  by code_simp

text \<open>
  The codec of version 1 (with the option loops of secoapcore/options.go as modelled) agrees:
  it encodes the message to the same eight bytes and decodes them to GET \<open>a/b\<close>, and fails
  on the bytes that start with \<open>0x41\<close>.
\<close>

lemma get_a_b_coderv1:
  "coderv1_Encode get_a_b (replicate 8 0) =
     Return ((8, None), [0x40, 0x01, 0x12, 0x34, 0xB1, 0x61, 0x01, 0x62]) \<and>
   fst (coderv1_Decode [0x40, 0x01, 0x12, 0x34, 0xB1, 0x61, 0x01, 0x62] newMessage) = Ok 8 \<and>
   PathString (snd (coderv1_Decode [0x40, 0x01, 0x12, 0x34, 0xB1, 0x61, 0x01, 0x62] newMessage)) =
     Return [0x61, 0x2f, 0x62] \<and>
   fst (coderv1_Decode [0x41, 0x01, 0x12, 0x34, 0xB1, 0x61, 0x01, 0x62] newMessage) =
     Fail ErrOptionTruncated"
  by code_simp


section \<open>What a failed decode leaves in the message\<close>

text \<open>
  The message as \<^verbatim>\<open>Coder.Decode\<close> of version 0 has assigned it when it compares the CRC.
\<close>

definition v0_decoded :: "byte list \<Rightarrow> Message \<Rightarrow> Message" where
  "v0_decoded data m =
     m\<lparr>Ver := Version0, Payload := drop 4 data, Type := uint (data ! 0 AND 0x3),
       EncoderID := uint (drop_bit 4 (data ! 1)), EncoderType := uint (data ! 1 AND 0xf),
       Crc16 := Uint16_LE (take 2 (drop 2 data))\<rparr>"

lemma coderv0_Decode_failure:
  assumes "fst (coderv0_Decode data m) = Fail e"
  shows "snd (coderv0_Decode data m) = m \<or>
         (e = ErrInvalidRCRC16 \<and> snd (coderv0_Decode data m) = v0_decoded data m)"
  using assms by (auto simp: coderv0_Decode_def v0_decoded_def Let_def split: if_splits)

lemma coderv0_Decode_crc:
  assumes "4 \<le> length data" and "drop_bit 6 (data ! 0) = 0"
    and "Uint16_LE (take 2 (drop 2 data)) \<noteq> CRC16Bytes (drop 4 data)"
  shows "coderv0_Decode data m = (Fail ErrInvalidRCRC16, v0_decoded data m)"
  using assms by (simp add: coderv0_Decode_def v0_decoded_def Let_def)

lemma coderv1_Decode_failure:
  assumes "fst (coderv1_Decode data m) = Fail e"
  shows "(snd (coderv1_Decode data m))\<lparr>Opts := Opts m\<rparr> = m"
  using assms
  by (auto simp: coderv1_Decode_def Let_def split: if_splits prod.splits res.splits)

lemma coderv2_Decode_failure:
  assumes "fst (coderv2_Decode_gen sv data m) = Fail e"
  shows "(snd (coderv2_Decode_gen sv data m))\<lparr>Opts := Opts m\<rparr> = m \<or>
         (e = ErrInvalidRCRC16 \<and>
          Token (snd (coderv2_Decode_gen sv data m)) =
            take (nat (uint (drop_bit 2 (data ! 0) AND 0xf))) (drop 8 data) \<and>
          Code (snd (coderv2_Decode_gen sv data m)) = data ! 6 \<and>
          MessageID (snd (coderv2_Decode_gen sv data m)) = uint (Uint16 (take 2 (drop 4 data))) \<and>
          Type (snd (coderv2_Decode_gen sv data m)) = uint (data ! 0 AND 0x3) \<and>
          EncoderID (snd (coderv2_Decode_gen sv data m)) = uint (drop_bit 4 (data ! 1)) \<and>
          EncoderType (snd (coderv2_Decode_gen sv data m)) = uint (data ! 1 AND 0xf) \<and>
          Crc16 (snd (coderv2_Decode_gen sv data m)) = Uint16 (take 2 (drop 2 data)) \<and>
          Crc16 (snd (coderv2_Decode_gen sv data m)) \<noteq> CRC16Bytes (Payload (snd (coderv2_Decode_gen sv data m))))"
  using assms
  by (auto simp: coderv2_Decode_gen_def Let_def split: if_splits prod.splits res.splits)

lemma decode_early_failures:
  "length data < 4 \<Longrightarrow> coderv0_Decode data m = (Fail ErrMessageTruncated, m)"
  "length data < 4 \<Longrightarrow> coderv1_Decode data m = (Fail ErrMessageTruncated, m)"
  "length data < 8 \<Longrightarrow> coderv2_Decode data m = (Fail ErrMessageTruncated, m)"
  "8 \<le> length data \<Longrightarrow> RSUM8 data \<noteq> 0 \<Longrightarrow> coderv2_Decode data m = (Fail ErrMessageInvalidRSUM8, m)"
  "4 \<le> length data \<Longrightarrow> drop_bit 6 (data ! 0) \<noteq> 0 \<Longrightarrow>
     coderv0_Decode data m = (Fail ErrMessageInvalidVersion, m)"
  "4 \<le> length data \<Longrightarrow> drop_bit 6 (data ! 0) \<noteq> 1 \<Longrightarrow>
     coderv1_Decode data m = (Fail ErrMessageInvalidVersion, m)"
  "4 \<le> length data \<Longrightarrow> drop_bit 6 (data ! 0) = 1 \<Longrightarrow> 8 < uint (data ! 0 AND 0xf) \<Longrightarrow>
     coderv1_Decode data m = (Fail ErrInvalidTokenLen, m)"
  "4 \<le> length data \<Longrightarrow> drop_bit 6 (data ! 0) = 1 \<Longrightarrow> uint (data ! 0 AND 0xf) \<le> 8 \<Longrightarrow>
     int (length (drop 4 data)) < uint (data ! 0 AND 0xf) \<Longrightarrow>
     coderv1_Decode data m = (Fail ErrMessageTruncated, m)"
  "8 \<le> length data \<Longrightarrow> RSUM8 data = 0 \<Longrightarrow> drop_bit 6 (data ! 0) \<noteq> 2 \<Longrightarrow>
     coderv2_Decode data m = (Fail ErrMessageInvalidVersion, m)"
  by (simp_all add: coderv0_Decode_def coderv1_Decode_def coderv2_Decode_def coderv2_Decode_gen_def Let_def)


lemma coderv2_Decode_more:
  "8 \<le> length data \<Longrightarrow> RSUM8 data = 0 \<Longrightarrow> drop_bit 6 (data ! 0) = 2 \<Longrightarrow>
     8 < uint (drop_bit 2 (data ! 0) AND 0xf) \<Longrightarrow>
     coderv2_Decode data m = (Fail ErrInvalidTokenLen, m)"
  "8 \<le> length data \<Longrightarrow> RSUM8 data = 0 \<Longrightarrow> drop_bit 6 (data ! 0) = 2 \<Longrightarrow>
     uint (drop_bit 2 (data ! 0) AND 0xf) \<le> 8 \<Longrightarrow>
     int (length (drop 8 data)) < uint (drop_bit 2 (data ! 0) AND 0xf) \<Longrightarrow>
     coderv2_Decode data m = (Fail ErrMessageTruncated, m)"
  by (simp_all add: coderv2_Decode_def coderv2_Decode_gen_def Let_def)

lemma coderv2_Decode_options_fail:
  assumes "8 \<le> length data" and "RSUM8 data = 0" and "drop_bit 6 (data ! 0) = 2"
    and "uint (drop_bit 2 (data ! 0) AND 0xf) \<le> 8"
    and "uint (drop_bit 2 (data ! 0) AND 0xf) \<le> int (length (drop 8 data))"
    and "Options_Unmarshal (Opts m) (OptsCap m)
           (drop (nat (uint (drop_bit 2 (data ! 0) AND 0xf))) (drop 8 data)) CoapOptionDefs = (Fail e, opts)"
  shows "coderv2_Decode data m = (Fail e, m\<lparr>Opts := opts\<rparr>)"
proof -
  define tl where "tl = uint (drop_bit 2 (data ! 0) AND 0xf)"
  define d2 where "d2 = drop (nat tl) (drop 8 data)"
  have ou: "Options_Unmarshal (Opts m) (OptsCap m) d2 CoapOptionDefs = (Fail e, opts)"
    using assms(6) by (simp only: d2_def tl_def)
  have a: "\<not> int (length data) < 8" "\<not> RSUM8 data \<noteq> 0" "\<not> drop_bit 6 (data ! 0) \<noteq> 2"
    "\<not> 8 < tl" "\<not> int (length (drop 8 data)) < tl"
    using assms(1-5) by (simp_all add: tl_def)
  show ?thesis
    unfolding coderv2_Decode_def coderv2_Decode_gen_def Let_def tl_def[symmetric]
    unfolding d2_def[symmetric] ou
    using a by simp
qed

lemma coderv1_Decode_options_fail:
  assumes "4 \<le> length data" and "drop_bit 6 (data ! 0) = 1"
    and "uint (data ! 0 AND 0xf) \<le> 8"
    and "uint (data ! 0 AND 0xf) \<le> int (length (drop 4 data))"
    and "Options_Unmarshal (Opts m) (OptsCap m)
           (drop (nat (uint (data ! 0 AND 0xf))) (drop 4 data)) CoapOptionDefs = (Fail e, opts)"
  shows "coderv1_Decode data m = (Fail e, m\<lparr>Opts := opts\<rparr>)"
proof -
  define tl where "tl = uint (data ! 0 AND 0xf)"
  define d2 where "d2 = drop (nat tl) (drop 4 data)"
  have ou: "Options_Unmarshal (Opts m) (OptsCap m) d2 CoapOptionDefs = (Fail e, opts)"
    using assms(5) by (simp only: d2_def tl_def)
  have a: "\<not> int (length data) < 4" "\<not> drop_bit 6 (data ! 0) \<noteq> 1"
    "\<not> 8 < tl" "\<not> int (length (drop 4 data)) < tl"
    using assms(1-4) by (simp_all add: tl_def)
  show ?thesis
    unfolding coderv1_Decode_def Let_def tl_def[symmetric]
    unfolding d2_def[symmetric] ou
    using a by simp
qed

text \<open>
  The message as \<^verbatim>\<open>Coder.Decode\<close> of version 2 has assigned it when it compares the CRC:
  \<open>proc\<close> and \<open>opts\<close> are what \<^verbatim>\<open>Options.Unmarshal\<close> returned and left in the container.
\<close>

definition v2_decoded :: "byte list \<Rightarrow> int \<Rightarrow> Option list \<Rightarrow> Message \<Rightarrow> Message" where
  "v2_decoded data proc opts m =
     m\<lparr>Opts := opts,
       Token := take (nat (uint (drop_bit 2 (data ! 0) AND 0xf))) (drop 8 data),
       Code := data ! 6,
       Payload := drop (nat proc) (drop (nat (uint (drop_bit 2 (data ! 0) AND 0xf))) (drop 8 data)),
       MessageID := uint (Uint16 (take 2 (drop 4 data))),
       Type := uint (data ! 0 AND 0x3),
       EncoderID := uint (drop_bit 4 (data ! 1)),
       EncoderType := uint (data ! 1 AND 0xf),
       Crc16 := Uint16 (take 2 (drop 2 data))\<rparr>"

lemma coderv2_Decode_crc:
  assumes "8 \<le> length data" and "RSUM8 data = 0" and "drop_bit 6 (data ! 0) = 2"
    and "uint (drop_bit 2 (data ! 0) AND 0xf) \<le> 8"
    and "uint (drop_bit 2 (data ! 0) AND 0xf) \<le> int (length (drop 8 data))"
    and "Options_Unmarshal (Opts m) (OptsCap m)
           (drop (nat (uint (drop_bit 2 (data ! 0) AND 0xf))) (drop 8 data)) CoapOptionDefs = (Ok proc, opts)"
    and "0 \<le> proc"
    and "nat proc \<le> length (drop (nat (uint (drop_bit 2 (data ! 0) AND 0xf))) (drop 8 data))"
    and "Uint16 (take 2 (drop 2 data)) \<noteq>
           CRC16Bytes (drop (nat proc) (drop (nat (uint (drop_bit 2 (data ! 0) AND 0xf))) (drop 8 data)))"
  shows "coderv2_Decode data m = (Fail ErrInvalidRCRC16, v2_decoded data proc opts m)"
proof -
  define tl where "tl = uint (drop_bit 2 (data ! 0) AND 0xf)"
  define d2 where "d2 = drop (nat tl) (drop 8 data)"
  define pl where "pl = drop (nat proc) d2"
  define crc where "crc = Uint16 (take 2 (drop 2 data))"
  have ou: "Options_Unmarshal (Opts m) (OptsCap m) d2 CoapOptionDefs = (Ok proc, opts)"
    using assms(6) by (simp only: d2_def tl_def)
  have a: "\<not> int (length data) < 8" "\<not> RSUM8 data \<noteq> 0" "\<not> drop_bit 6 (data ! 0) \<noteq> 2"
    "\<not> 8 < tl" "\<not> int (length (drop 8 data)) < tl"
    using assms(1-5) by (simp_all add: tl_def)
  have b: "\<not> (proc < 0 \<or> length d2 < nat proc)" using assms(7,8) by (simp only: d2_def tl_def) simp
  have c: "crc \<noteq> CRC16Bytes pl" using assms(9) by (simp add: crc_def pl_def d2_def tl_def)
  show ?thesis
    unfolding coderv2_Decode_def coderv2_Decode_gen_def v2_decoded_def Let_def tl_def[symmetric]
    unfolding d2_def[symmetric] ou
    unfolding crc_def[symmetric]
    using a b c by (simp add: pl_def)
qed


text \<open>
  Claim C3, as the code has it. \<^verbatim>\<open>Coder.Decode\<close> of the versions 0, 1 and 2 returns the
  specific error and leaves the message unchanged when the input is shorter than the header
  (4 bytes, 8 for version 2: \<^verbatim>\<open>ErrMessageTruncated\<close>), when RSUM8 of a version 2 input is not 0
  (\<^verbatim>\<open>ErrMessageInvalidRSUM8\<close>), when the version bits are wrong (\<^verbatim>\<open>ErrMessageInvalidVersion\<close>),
  and, for the versions 1 and 2, when the token length is above 8 (\<^verbatim>\<open>ErrInvalidTokenLen\<close>) or
  the token runs past the input (\<^verbatim>\<open>ErrMessageTruncated\<close>). When \<^verbatim>\<open>Options.Unmarshal\<close> fails,
  versions 1 and 2 return its error, and the message is as it was but for its option
  container, which is as \<^verbatim>\<open>Options.Unmarshal\<close> left it. Versions 0 and 2 assign the decoded
  fields before they compare the CRC: an input that passes the checks before it and whose
  CRC field differs from the CRC of its payload gives \<^verbatim>\<open>ErrInvalidRCRC16\<close> and the message
  with the decoded fields (version 0: version, payload, type, encoder ID, encoder type and
  CRC; version 2: token, code, payload, message ID, type, encoder ID, encoder type, CRC and
  the parsed options). Whatever the failure, version 0 leaves the message either as it was
  or with the decoded fields and \<^verbatim>\<open>ErrInvalidRCRC16\<close>, and versions 1 and 2 change no field
  other than the option container unless the error is \<^verbatim>\<open>ErrInvalidRCRC16\<close>.
\<close>

theorem decode_failure_output:
  "(fst (coderv0_Decode data m) = Fail e \<longrightarrow>
      snd (coderv0_Decode data m) = m \<or>
      (e = ErrInvalidRCRC16 \<and> snd (coderv0_Decode data m) = v0_decoded data m)) \<and>
   (4 \<le> length data \<and> drop_bit 6 (data ! 0) = 0 \<and>
    Uint16_LE (take 2 (drop 2 data)) \<noteq> CRC16Bytes (drop 4 data) \<longrightarrow>
      coderv0_Decode data m = (Fail ErrInvalidRCRC16, v0_decoded data m)) \<and>
   (fst (coderv1_Decode data m) = Fail e \<longrightarrow>
      (snd (coderv1_Decode data m))\<lparr>Opts := Opts m\<rparr> = m) \<and>
   (fst (coderv2_Decode data m) = Fail e \<longrightarrow>
      (snd (coderv2_Decode data m))\<lparr>Opts := Opts m\<rparr> = m \<or>
      (e = ErrInvalidRCRC16 \<and>
       Token (snd (coderv2_Decode data m)) =
         take (nat (uint (drop_bit 2 (data ! 0) AND 0xf))) (drop 8 data) \<and>
       Code (snd (coderv2_Decode data m)) = data ! 6 \<and>
       MessageID (snd (coderv2_Decode data m)) = uint (Uint16 (take 2 (drop 4 data))) \<and>
       Type (snd (coderv2_Decode data m)) = uint (data ! 0 AND 0x3) \<and>
       EncoderID (snd (coderv2_Decode data m)) = uint (drop_bit 4 (data ! 1)) \<and>
       EncoderType (snd (coderv2_Decode data m)) = uint (data ! 1 AND 0xf) \<and>
       Crc16 (snd (coderv2_Decode data m)) = Uint16 (take 2 (drop 2 data)) \<and>
       Crc16 (snd (coderv2_Decode data m)) \<noteq> CRC16Bytes (Payload (snd (coderv2_Decode data m))))) \<and>
   (length data < 4 \<longrightarrow>
      coderv0_Decode data m = (Fail ErrMessageTruncated, m) \<and>
      coderv1_Decode data m = (Fail ErrMessageTruncated, m)) \<and>
   (length data < 8 \<longrightarrow> coderv2_Decode data m = (Fail ErrMessageTruncated, m)) \<and>
   (8 \<le> length data \<and> RSUM8 data \<noteq> 0 \<longrightarrow>
      coderv2_Decode data m = (Fail ErrMessageInvalidRSUM8, m)) \<and>
   (4 \<le> length data \<and> drop_bit 6 (data ! 0) \<noteq> 0 \<longrightarrow>
      coderv0_Decode data m = (Fail ErrMessageInvalidVersion, m)) \<and>
   (4 \<le> length data \<and> drop_bit 6 (data ! 0) \<noteq> 1 \<longrightarrow>
      coderv1_Decode data m = (Fail ErrMessageInvalidVersion, m)) \<and>
   (4 \<le> length data \<and> drop_bit 6 (data ! 0) = 1 \<and> 8 < uint (data ! 0 AND 0xf) \<longrightarrow>
      coderv1_Decode data m = (Fail ErrInvalidTokenLen, m)) \<and>
   (4 \<le> length data \<and> drop_bit 6 (data ! 0) = 1 \<and> uint (data ! 0 AND 0xf) \<le> 8 \<and>
    int (length (drop 4 data)) < uint (data ! 0 AND 0xf) \<longrightarrow>
      coderv1_Decode data m = (Fail ErrMessageTruncated, m)) \<and>
   (8 \<le> length data \<and> RSUM8 data = 0 \<and> drop_bit 6 (data ! 0) \<noteq> 2 \<longrightarrow>
      coderv2_Decode data m = (Fail ErrMessageInvalidVersion, m)) \<and>
   (8 \<le> length data \<and> RSUM8 data = 0 \<and> drop_bit 6 (data ! 0) = 2 \<and>
    8 < uint (drop_bit 2 (data ! 0) AND 0xf) \<longrightarrow>
      coderv2_Decode data m = (Fail ErrInvalidTokenLen, m)) \<and>
   (8 \<le> length data \<and> RSUM8 data = 0 \<and> drop_bit 6 (data ! 0) = 2 \<and>
    uint (drop_bit 2 (data ! 0) AND 0xf) \<le> 8 \<and>
    int (length (drop 8 data)) < uint (drop_bit 2 (data ! 0) AND 0xf) \<longrightarrow>
      coderv2_Decode data m = (Fail ErrMessageTruncated, m)) \<and>
   (4 \<le> length data \<and> drop_bit 6 (data ! 0) = 1 \<and> uint (data ! 0 AND 0xf) \<le> 8 \<and>
    uint (data ! 0 AND 0xf) \<le> int (length (drop 4 data)) \<and>
    Options_Unmarshal (Opts m) (OptsCap m)
      (drop (nat (uint (data ! 0 AND 0xf))) (drop 4 data)) CoapOptionDefs = (Fail e, opts) \<longrightarrow>
      coderv1_Decode data m = (Fail e, m\<lparr>Opts := opts\<rparr>)) \<and>
   (8 \<le> length data \<and> RSUM8 data = 0 \<and> drop_bit 6 (data ! 0) = 2 \<and>
    uint (drop_bit 2 (data ! 0) AND 0xf) \<le> 8 \<and>
    uint (drop_bit 2 (data ! 0) AND 0xf) \<le> int (length (drop 8 data)) \<and>
    Options_Unmarshal (Opts m) (OptsCap m)
      (drop (nat (uint (drop_bit 2 (data ! 0) AND 0xf))) (drop 8 data)) CoapOptionDefs = (Fail e, opts) \<longrightarrow>
      coderv2_Decode data m = (Fail e, m\<lparr>Opts := opts\<rparr>)) \<and>
   (8 \<le> length data \<and> RSUM8 data = 0 \<and> drop_bit 6 (data ! 0) = 2 \<and>
    uint (drop_bit 2 (data ! 0) AND 0xf) \<le> 8 \<and>
    uint (drop_bit 2 (data ! 0) AND 0xf) \<le> int (length (drop 8 data)) \<and>
    Options_Unmarshal (Opts m) (OptsCap m)
      (drop (nat (uint (drop_bit 2 (data ! 0) AND 0xf))) (drop 8 data)) CoapOptionDefs = (Ok proc, opts) \<and>
    0 \<le> proc \<and>
    nat proc \<le> length (drop (nat (uint (drop_bit 2 (data ! 0) AND 0xf))) (drop 8 data)) \<and>
    Uint16 (take 2 (drop 2 data)) \<noteq>
      CRC16Bytes (drop (nat proc) (drop (nat (uint (drop_bit 2 (data ! 0) AND 0xf))) (drop 8 data))) \<longrightarrow>
      coderv2_Decode data m = (Fail ErrInvalidRCRC16, v2_decoded data proc opts m))"
proof (intro conjI impI)
  assume "fst (coderv0_Decode data m) = Fail e"
  then show "snd (coderv0_Decode data m) = m \<or>
      (e = ErrInvalidRCRC16 \<and> snd (coderv0_Decode data m) = v0_decoded data m)"
    by (rule coderv0_Decode_failure)
next
  assume "4 \<le> length data \<and> drop_bit 6 (data ! 0) = 0 \<and>
    Uint16_LE (take 2 (drop 2 data)) \<noteq> CRC16Bytes (drop 4 data)"
  then show "coderv0_Decode data m = (Fail ErrInvalidRCRC16, v0_decoded data m)"
    using coderv0_Decode_crc[of data m] by simp
next
  assume "fst (coderv1_Decode data m) = Fail e"
  then show "(snd (coderv1_Decode data m))\<lparr>Opts := Opts m\<rparr> = m"
    by (rule coderv1_Decode_failure)
next
  assume "fst (coderv2_Decode data m) = Fail e"
  then have "fst (coderv2_Decode_gen False data m) = Fail e" by (simp add: coderv2_Decode_def)
  from coderv2_Decode_failure[OF this]
  show "(snd (coderv2_Decode data m))\<lparr>Opts := Opts m\<rparr> = m \<or>
      (e = ErrInvalidRCRC16 \<and>
       Token (snd (coderv2_Decode data m)) =
         take (nat (uint (drop_bit 2 (data ! 0) AND 0xf))) (drop 8 data) \<and>
       Code (snd (coderv2_Decode data m)) = data ! 6 \<and>
       MessageID (snd (coderv2_Decode data m)) = uint (Uint16 (take 2 (drop 4 data))) \<and>
       Type (snd (coderv2_Decode data m)) = uint (data ! 0 AND 0x3) \<and>
       EncoderID (snd (coderv2_Decode data m)) = uint (drop_bit 4 (data ! 1)) \<and>
       EncoderType (snd (coderv2_Decode data m)) = uint (data ! 1 AND 0xf) \<and>
       Crc16 (snd (coderv2_Decode data m)) = Uint16 (take 2 (drop 2 data)) \<and>
       Crc16 (snd (coderv2_Decode data m)) \<noteq> CRC16Bytes (Payload (snd (coderv2_Decode data m))))"
    unfolding coderv2_Decode_def .
next
  assume "length data < 4"
  then show "coderv0_Decode data m = (Fail ErrMessageTruncated, m)"
    by (rule decode_early_failures(1))
next
  assume "length data < 4"
  then show "coderv1_Decode data m = (Fail ErrMessageTruncated, m)"
    by (rule decode_early_failures(2))
next
  assume "length data < 8"
  then show "coderv2_Decode data m = (Fail ErrMessageTruncated, m)"
    by (rule decode_early_failures(3))
next
  assume "8 \<le> length data \<and> RSUM8 data \<noteq> 0"
  then show "coderv2_Decode data m = (Fail ErrMessageInvalidRSUM8, m)"
    using decode_early_failures(4)[of data m] by simp
next
  assume "4 \<le> length data \<and> drop_bit 6 (data ! 0) \<noteq> 0"
  then show "coderv0_Decode data m = (Fail ErrMessageInvalidVersion, m)"
    using decode_early_failures(5)[of data m] by simp
next
  assume "4 \<le> length data \<and> drop_bit 6 (data ! 0) \<noteq> 1"
  then show "coderv1_Decode data m = (Fail ErrMessageInvalidVersion, m)"
    using decode_early_failures(6)[of data m] by simp
next
  assume "4 \<le> length data \<and> drop_bit 6 (data ! 0) = 1 \<and> 8 < uint (data ! 0 AND 0xf)"
  then show "coderv1_Decode data m = (Fail ErrInvalidTokenLen, m)"
    using decode_early_failures(7)[of data m] by simp
next
  assume "4 \<le> length data \<and> drop_bit 6 (data ! 0) = 1 \<and> uint (data ! 0 AND 0xf) \<le> 8 \<and>
    int (length (drop 4 data)) < uint (data ! 0 AND 0xf)"
  then have "4 \<le> length data" and "drop_bit 6 (data ! 0) = 1" and "uint (data ! 0 AND 0xf) \<le> 8"
    and "int (length (drop 4 data)) < uint (data ! 0 AND 0xf)" by blast+
  then show "coderv1_Decode data m = (Fail ErrMessageTruncated, m)"
    by (rule decode_early_failures(8))
next
  assume "8 \<le> length data \<and> RSUM8 data = 0 \<and> drop_bit 6 (data ! 0) \<noteq> 2"
  then show "coderv2_Decode data m = (Fail ErrMessageInvalidVersion, m)"
    using decode_early_failures(9)[of data m] by simp
next
  assume "8 \<le> length data \<and> RSUM8 data = 0 \<and> drop_bit 6 (data ! 0) = 2 \<and>
    8 < uint (drop_bit 2 (data ! 0) AND 0xf)"
  then have "8 \<le> length data" and "RSUM8 data = 0" and "drop_bit 6 (data ! 0) = 2"
    and "8 < uint (drop_bit 2 (data ! 0) AND 0xf)" by blast+
  then show "coderv2_Decode data m = (Fail ErrInvalidTokenLen, m)"
    by (rule coderv2_Decode_more(1))
next
  assume "8 \<le> length data \<and> RSUM8 data = 0 \<and> drop_bit 6 (data ! 0) = 2 \<and>
    uint (drop_bit 2 (data ! 0) AND 0xf) \<le> 8 \<and>
    int (length (drop 8 data)) < uint (drop_bit 2 (data ! 0) AND 0xf)"
  then have "8 \<le> length data" and "RSUM8 data = 0" and "drop_bit 6 (data ! 0) = 2"
    and "uint (drop_bit 2 (data ! 0) AND 0xf) \<le> 8"
    and "int (length (drop 8 data)) < uint (drop_bit 2 (data ! 0) AND 0xf)" by blast+
  then show "coderv2_Decode data m = (Fail ErrMessageTruncated, m)"
    by (rule coderv2_Decode_more(2))
next
  assume "4 \<le> length data \<and> drop_bit 6 (data ! 0) = 1 \<and> uint (data ! 0 AND 0xf) \<le> 8 \<and>
    uint (data ! 0 AND 0xf) \<le> int (length (drop 4 data)) \<and>
    Options_Unmarshal (Opts m) (OptsCap m)
      (drop (nat (uint (data ! 0 AND 0xf))) (drop 4 data)) CoapOptionDefs = (Fail e, opts)"
  then have "4 \<le> length data" and "drop_bit 6 (data ! 0) = 1" and "uint (data ! 0 AND 0xf) \<le> 8"
    and "uint (data ! 0 AND 0xf) \<le> int (length (drop 4 data))"
    and "Options_Unmarshal (Opts m) (OptsCap m)
      (drop (nat (uint (data ! 0 AND 0xf))) (drop 4 data)) CoapOptionDefs = (Fail e, opts)" by blast+
  then show "coderv1_Decode data m = (Fail e, m\<lparr>Opts := opts\<rparr>)"
    by (rule coderv1_Decode_options_fail)
next
  assume "8 \<le> length data \<and> RSUM8 data = 0 \<and> drop_bit 6 (data ! 0) = 2 \<and>
    uint (drop_bit 2 (data ! 0) AND 0xf) \<le> 8 \<and>
    uint (drop_bit 2 (data ! 0) AND 0xf) \<le> int (length (drop 8 data)) \<and>
    Options_Unmarshal (Opts m) (OptsCap m)
      (drop (nat (uint (drop_bit 2 (data ! 0) AND 0xf))) (drop 8 data)) CoapOptionDefs = (Fail e, opts)"
  then have "8 \<le> length data" and "RSUM8 data = 0" and "drop_bit 6 (data ! 0) = 2"
    and "uint (drop_bit 2 (data ! 0) AND 0xf) \<le> 8"
    and "uint (drop_bit 2 (data ! 0) AND 0xf) \<le> int (length (drop 8 data))"
    and "Options_Unmarshal (Opts m) (OptsCap m)
      (drop (nat (uint (drop_bit 2 (data ! 0) AND 0xf))) (drop 8 data)) CoapOptionDefs = (Fail e, opts)" by blast+
  then show "coderv2_Decode data m = (Fail e, m\<lparr>Opts := opts\<rparr>)"
    by (rule coderv2_Decode_options_fail)
next
  assume "8 \<le> length data \<and> RSUM8 data = 0 \<and> drop_bit 6 (data ! 0) = 2 \<and>
    uint (drop_bit 2 (data ! 0) AND 0xf) \<le> 8 \<and>
    uint (drop_bit 2 (data ! 0) AND 0xf) \<le> int (length (drop 8 data)) \<and>
    Options_Unmarshal (Opts m) (OptsCap m)
      (drop (nat (uint (drop_bit 2 (data ! 0) AND 0xf))) (drop 8 data)) CoapOptionDefs = (Ok proc, opts) \<and>
    0 \<le> proc \<and>
    nat proc \<le> length (drop (nat (uint (drop_bit 2 (data ! 0) AND 0xf))) (drop 8 data)) \<and>
    Uint16 (take 2 (drop 2 data)) \<noteq>
      CRC16Bytes (drop (nat proc) (drop (nat (uint (drop_bit 2 (data ! 0) AND 0xf))) (drop 8 data)))"
  then have "8 \<le> length data" and "RSUM8 data = 0" and "drop_bit 6 (data ! 0) = 2"
    and "uint (drop_bit 2 (data ! 0) AND 0xf) \<le> 8"
    and "uint (drop_bit 2 (data ! 0) AND 0xf) \<le> int (length (drop 8 data))"
    and "Options_Unmarshal (Opts m) (OptsCap m)
      (drop (nat (uint (drop_bit 2 (data ! 0) AND 0xf))) (drop 8 data)) CoapOptionDefs = (Ok proc, opts)"
    and "0 \<le> proc"
    and "nat proc \<le> length (drop (nat (uint (drop_bit 2 (data ! 0) AND 0xf))) (drop 8 data))"
    and "Uint16 (take 2 (drop 2 data)) \<noteq>
      CRC16Bytes (drop (nat proc) (drop (nat (uint (drop_bit 2 (data ! 0) AND 0xf))) (drop 8 data)))" by blast+
  then show "coderv2_Decode data m = (Fail ErrInvalidRCRC16, v2_decoded data proc opts m)"
    by (rule coderv2_Decode_crc)
qed

text \<open>
  Inputs for each case: a version 0 frame with a wrong CRC, a three-byte input, wrong version
  bits, a token length of 9, a wrong RSUM8, a token that runs past the input, an option
  whose value runs past the input after an option that was parsed, and a version 2 frame
  with a wrong CRC.
\<close>

theorem decode_failure_output_witness:
  "coderv0_Decode [0x02, 0x10, 0x34, 0x12, 0x42] newMessage =
     (Fail ErrInvalidRCRC16,
      \<lparr>Ver = 0, Token = [], Opts = [], OptsCap = 16, Code = 0, Payload = [0x42], MessageID = -1,
       Type = 2, EncoderID = 1, EncoderType = 0, Crc16 = 0x1234, Rsum8 = 0\<rparr>) \<and>
   coderv0_Decode [0x02, 0x10, 0x34] newMessage = (Fail ErrMessageTruncated, newMessage) \<and>
   coderv1_Decode [0x02, 0x10, 0x34] newMessage = (Fail ErrMessageTruncated, newMessage) \<and>
   coderv2_Decode [0x02, 0x10, 0x34] newMessage = (Fail ErrMessageTruncated, newMessage) \<and>
   coderv0_Decode [0x49, 0, 0, 0] newMessage = (Fail ErrMessageInvalidVersion, newMessage) \<and>
   coderv1_Decode [0x49, 0, 0, 0] newMessage = (Fail ErrInvalidTokenLen, newMessage) \<and>
   coderv1_Decode [0x02, 0x10, 0x34, 0x12, 0x42] newMessage = (Fail ErrMessageInvalidVersion, newMessage) \<and>
   coderv2_Decode [0x81, 0x50, 0x5E, 0xEE, 0x00, 0x01, 0x02, 0x06, 0xFF, 0x68, 0x69] newMessage =
     (Fail ErrMessageInvalidRSUM8, newMessage) \<and>
   coderv1_Decode [0x42, 0, 0, 0, 1] newMessage = (Fail ErrMessageTruncated, newMessage) \<and>
   coderv2_Decode [0x40, 0, 0, 0, 0, 0, 0, 0xB8] newMessage = (Fail ErrMessageInvalidVersion, newMessage) \<and>
   coderv2_Decode [0xA4, 0, 0, 0, 0, 0, 0, 0x54] newMessage = (Fail ErrInvalidTokenLen, newMessage) \<and>
   coderv2_Decode [0x88, 0, 0, 0, 0, 0, 0, 0x70] newMessage = (Fail ErrMessageTruncated, newMessage) \<and>
   coderv1_Decode [0x40, 0x01, 0x12, 0x34, 0xB1, 0x61, 0x02] newMessage =
     (Fail ErrOptionTruncated, newMessage\<lparr>Opts := [\<lparr>ID = URIPath, Value = VString [0x61]\<rparr>]\<rparr>) \<and>
   coderv2_Decode [0x80, 0, 0, 0, 0, 0, 0, 0x61, 0xB1, 0x61, 0x02] newMessage =
     (Fail ErrOptionTruncated, newMessage\<lparr>Opts := [\<lparr>ID = URIPath, Value = VString [0x61]\<rparr>]\<rparr>) \<and>
   coderv2_Decode [0x81, 0x50, 0x5F, 0xEE, 0x00, 0x01, 0x02, 0x04, 0xFF, 0x68, 0x69] newMessage =
     (Fail ErrInvalidRCRC16,
      \<lparr>Ver = 0, Token = [], Opts = [], OptsCap = 16, Code = 2, Payload = [0x68, 0x69], MessageID = 1,
       Type = 1, EncoderID = 5, EncoderType = 0, Crc16 = 0x5FEE, Rsum8 = 0\<rparr>)"
proof -
  let ?a = "[0x02, 0x10, 0x34, 0x12, 0x42] :: byte list"
  let ?b = "[0x02, 0x10, 0x34] :: byte list"
  let ?c = "[0x49, 0, 0, 0] :: byte list"
  let ?d = "[0x81, 0x50, 0x5E, 0xEE, 0x00, 0x01, 0x02, 0x06, 0xFF, 0x68, 0x69] :: byte list"
  let ?e = "[0x42, 0, 0, 0, 1] :: byte list"
  let ?f = "[0x40, 0, 0, 0, 0, 0, 0, 0xB8] :: byte list"
  let ?g = "[0xA4, 0, 0, 0, 0, 0, 0, 0x54] :: byte list"
  let ?h = "[0x88, 0, 0, 0, 0, 0, 0, 0x70] :: byte list"
  let ?i = "[0x40, 0x01, 0x12, 0x34, 0xB1, 0x61, 0x02] :: byte list"
  let ?j = "[0x80, 0, 0, 0, 0, 0, 0, 0x61, 0xB1, 0x61, 0x02] :: byte list"
  let ?k = "[0x81, 0x50, 0x5F, 0xEE, 0x00, 0x01, 0x02, 0x04, 0xFF, 0x68, 0x69] :: byte list"
  have a0: "coderv0_Decode ?a newMessage = (Fail ErrInvalidRCRC16, v0_decoded ?a newMessage)"
  proof -
    have p: "4 \<le> length ?a \<and> drop_bit 6 (?a ! 0) = 0 \<and> Uint16_LE (take 2 (drop 2 ?a)) \<noteq> CRC16Bytes (drop 4 ?a)"
      by code_simp
    from decode_failure_output[of ?a newMessage ErrInvalidRCRC16 "[]" 0]
    have "4 \<le> length ?a \<and> drop_bit 6 (?a ! 0) = 0 \<and> Uint16_LE (take 2 (drop 2 ?a)) \<noteq> CRC16Bytes (drop 4 ?a) \<longrightarrow>
      coderv0_Decode ?a newMessage = (Fail ErrInvalidRCRC16, v0_decoded ?a newMessage)"
      by (elim conjE) assumption
    then show ?thesis using p by (rule mp)
  qed
  have a1: "coderv1_Decode ?a newMessage = (Fail ErrMessageInvalidVersion, newMessage)"
  proof -
    have p: "4 \<le> length ?a \<and> drop_bit 6 (?a ! 0) \<noteq> 1"
      by code_simp
    from decode_failure_output[of ?a newMessage ErrInvalidRCRC16 "[]" 0]
    have "4 \<le> length ?a \<and> drop_bit 6 (?a ! 0) \<noteq> 1 \<longrightarrow>
      coderv1_Decode ?a newMessage = (Fail ErrMessageInvalidVersion, newMessage)"
      by (elim conjE) assumption
    then show ?thesis using p by (rule mp)
  qed
  have b0: "coderv0_Decode ?b newMessage = (Fail ErrMessageTruncated, newMessage) \<and> coderv1_Decode ?b newMessage = (Fail ErrMessageTruncated, newMessage)"
  proof -
    have p: "length ?b < 4"
      by simp
    from decode_failure_output[of ?b newMessage ErrMessageTruncated "[]" 0]
    have "length ?b < 4 \<longrightarrow>
      coderv0_Decode ?b newMessage = (Fail ErrMessageTruncated, newMessage) \<and> coderv1_Decode ?b newMessage = (Fail ErrMessageTruncated, newMessage)"
      by (elim conjE) assumption
    then show ?thesis using p by (rule mp)
  qed
  have b2: "coderv2_Decode ?b newMessage = (Fail ErrMessageTruncated, newMessage)"
  proof -
    have p: "length ?b < 8"
      by simp
    from decode_failure_output[of ?b newMessage ErrMessageTruncated "[]" 0]
    have "length ?b < 8 \<longrightarrow>
      coderv2_Decode ?b newMessage = (Fail ErrMessageTruncated, newMessage)"
      by (elim conjE) assumption
    then show ?thesis using p by (rule mp)
  qed
  have c0: "coderv0_Decode ?c newMessage = (Fail ErrMessageInvalidVersion, newMessage)"
  proof -
    have p: "4 \<le> length ?c \<and> drop_bit 6 (?c ! 0) \<noteq> 0"
      by code_simp
    from decode_failure_output[of ?c newMessage ErrInvalidTokenLen "[]" 0]
    have "4 \<le> length ?c \<and> drop_bit 6 (?c ! 0) \<noteq> 0 \<longrightarrow>
      coderv0_Decode ?c newMessage = (Fail ErrMessageInvalidVersion, newMessage)"
      by (elim conjE) assumption
    then show ?thesis using p by (rule mp)
  qed
  have c1: "coderv1_Decode ?c newMessage = (Fail ErrInvalidTokenLen, newMessage)"
  proof -
    have p: "4 \<le> length ?c \<and> drop_bit 6 (?c ! 0) = 1 \<and> 8 < uint (?c ! 0 AND 0xf)"
      by code_simp
    from decode_failure_output[of ?c newMessage ErrInvalidTokenLen "[]" 0]
    have "4 \<le> length ?c \<and> drop_bit 6 (?c ! 0) = 1 \<and> 8 < uint (?c ! 0 AND 0xf) \<longrightarrow>
      coderv1_Decode ?c newMessage = (Fail ErrInvalidTokenLen, newMessage)"
      by (elim conjE) assumption
    then show ?thesis using p by (rule mp)
  qed
  have d2: "coderv2_Decode ?d newMessage = (Fail ErrMessageInvalidRSUM8, newMessage)"
  proof -
    have p: "8 \<le> length ?d \<and> RSUM8 ?d \<noteq> 0"
      by code_simp
    from decode_failure_output[of ?d newMessage ErrMessageInvalidRSUM8 "[]" 0]
    have "8 \<le> length ?d \<and> RSUM8 ?d \<noteq> 0 \<longrightarrow>
      coderv2_Decode ?d newMessage = (Fail ErrMessageInvalidRSUM8, newMessage)"
      by (elim conjE) assumption
    then show ?thesis using p by (rule mp)
  qed
  have e1: "coderv1_Decode ?e newMessage = (Fail ErrMessageTruncated, newMessage)"
  proof -
    have p: "4 \<le> length ?e \<and> drop_bit 6 (?e ! 0) = 1 \<and> uint (?e ! 0 AND 0xf) \<le> 8 \<and> int (length (drop 4 ?e)) < uint (?e ! 0 AND 0xf)"
      by code_simp
    from decode_failure_output[of ?e newMessage ErrMessageTruncated "[]" 0]
    have "4 \<le> length ?e \<and> drop_bit 6 (?e ! 0) = 1 \<and> uint (?e ! 0 AND 0xf) \<le> 8 \<and> int (length (drop 4 ?e)) < uint (?e ! 0 AND 0xf) \<longrightarrow>
      coderv1_Decode ?e newMessage = (Fail ErrMessageTruncated, newMessage)"
      by (elim conjE) assumption
    then show ?thesis using p by (rule mp)
  qed
  have f2: "coderv2_Decode ?f newMessage = (Fail ErrMessageInvalidVersion, newMessage)"
  proof -
    have p: "8 \<le> length ?f \<and> RSUM8 ?f = 0 \<and> drop_bit 6 (?f ! 0) \<noteq> 2"
      by code_simp
    from decode_failure_output[of ?f newMessage ErrMessageInvalidVersion "[]" 0]
    have "8 \<le> length ?f \<and> RSUM8 ?f = 0 \<and> drop_bit 6 (?f ! 0) \<noteq> 2 \<longrightarrow>
      coderv2_Decode ?f newMessage = (Fail ErrMessageInvalidVersion, newMessage)"
      by (elim conjE) assumption
    then show ?thesis using p by (rule mp)
  qed
  have g2: "coderv2_Decode ?g newMessage = (Fail ErrInvalidTokenLen, newMessage)"
  proof -
    have p: "8 \<le> length ?g \<and> RSUM8 ?g = 0 \<and> drop_bit 6 (?g ! 0) = 2 \<and> 8 < uint (drop_bit 2 (?g ! 0) AND 0xf)"
      by code_simp
    from decode_failure_output[of ?g newMessage ErrInvalidTokenLen "[]" 0]
    have "8 \<le> length ?g \<and> RSUM8 ?g = 0 \<and> drop_bit 6 (?g ! 0) = 2 \<and> 8 < uint (drop_bit 2 (?g ! 0) AND 0xf) \<longrightarrow>
      coderv2_Decode ?g newMessage = (Fail ErrInvalidTokenLen, newMessage)"
      by (elim conjE) assumption
    then show ?thesis using p by (rule mp)
  qed
  have h2: "coderv2_Decode ?h newMessage = (Fail ErrMessageTruncated, newMessage)"
  proof -
    have p: "8 \<le> length ?h \<and> RSUM8 ?h = 0 \<and> drop_bit 6 (?h ! 0) = 2 \<and> uint (drop_bit 2 (?h ! 0) AND 0xf) \<le> 8 \<and> int (length (drop 8 ?h)) < uint (drop_bit 2 (?h ! 0) AND 0xf)"
      by code_simp
    from decode_failure_output[of ?h newMessage ErrMessageTruncated "[]" 0]
    have "8 \<le> length ?h \<and> RSUM8 ?h = 0 \<and> drop_bit 6 (?h ! 0) = 2 \<and> uint (drop_bit 2 (?h ! 0) AND 0xf) \<le> 8 \<and> int (length (drop 8 ?h)) < uint (drop_bit 2 (?h ! 0) AND 0xf) \<longrightarrow>
      coderv2_Decode ?h newMessage = (Fail ErrMessageTruncated, newMessage)"
      by (elim conjE) assumption
    then show ?thesis using p by (rule mp)
  qed
  have i1: "coderv1_Decode ?i newMessage = (Fail ErrOptionTruncated, newMessage\<lparr>Opts := [\<lparr>ID = URIPath, Value = VString [0x61]\<rparr>]\<rparr>)"
  proof -
    have p: "4 \<le> length ?i \<and> drop_bit 6 (?i ! 0) = 1 \<and> uint (?i ! 0 AND 0xf) \<le> 8 \<and> uint (?i ! 0 AND 0xf) \<le> int (length (drop 4 ?i)) \<and> Options_Unmarshal (Opts newMessage) (OptsCap newMessage) (drop (nat (uint (?i ! 0 AND 0xf))) (drop 4 ?i)) CoapOptionDefs = (Fail ErrOptionTruncated, [\<lparr>ID = URIPath, Value = VString [0x61]\<rparr>])"
      by code_simp
    from decode_failure_output[of ?i newMessage ErrOptionTruncated "[\<lparr>ID = URIPath, Value = VString [0x61]\<rparr>]" 0]
    have "4 \<le> length ?i \<and> drop_bit 6 (?i ! 0) = 1 \<and> uint (?i ! 0 AND 0xf) \<le> 8 \<and> uint (?i ! 0 AND 0xf) \<le> int (length (drop 4 ?i)) \<and> Options_Unmarshal (Opts newMessage) (OptsCap newMessage) (drop (nat (uint (?i ! 0 AND 0xf))) (drop 4 ?i)) CoapOptionDefs = (Fail ErrOptionTruncated, [\<lparr>ID = URIPath, Value = VString [0x61]\<rparr>]) \<longrightarrow>
      coderv1_Decode ?i newMessage = (Fail ErrOptionTruncated, newMessage\<lparr>Opts := [\<lparr>ID = URIPath, Value = VString [0x61]\<rparr>]\<rparr>)"
      by (elim conjE) assumption
    then show ?thesis using p by (rule mp)
  qed
  have j2: "coderv2_Decode ?j newMessage = (Fail ErrOptionTruncated, newMessage\<lparr>Opts := [\<lparr>ID = URIPath, Value = VString [0x61]\<rparr>]\<rparr>)"
  proof -
    have p: "8 \<le> length ?j \<and> RSUM8 ?j = 0 \<and> drop_bit 6 (?j ! 0) = 2 \<and> uint (drop_bit 2 (?j ! 0) AND 0xf) \<le> 8 \<and> uint (drop_bit 2 (?j ! 0) AND 0xf) \<le> int (length (drop 8 ?j)) \<and> Options_Unmarshal (Opts newMessage) (OptsCap newMessage) (drop (nat (uint (drop_bit 2 (?j ! 0) AND 0xf))) (drop 8 ?j)) CoapOptionDefs = (Fail ErrOptionTruncated, [\<lparr>ID = URIPath, Value = VString [0x61]\<rparr>])"
      by code_simp
    from decode_failure_output[of ?j newMessage ErrOptionTruncated "[\<lparr>ID = URIPath, Value = VString [0x61]\<rparr>]" 0]
    have "8 \<le> length ?j \<and> RSUM8 ?j = 0 \<and> drop_bit 6 (?j ! 0) = 2 \<and> uint (drop_bit 2 (?j ! 0) AND 0xf) \<le> 8 \<and> uint (drop_bit 2 (?j ! 0) AND 0xf) \<le> int (length (drop 8 ?j)) \<and> Options_Unmarshal (Opts newMessage) (OptsCap newMessage) (drop (nat (uint (drop_bit 2 (?j ! 0) AND 0xf))) (drop 8 ?j)) CoapOptionDefs = (Fail ErrOptionTruncated, [\<lparr>ID = URIPath, Value = VString [0x61]\<rparr>]) \<longrightarrow>
      coderv2_Decode ?j newMessage = (Fail ErrOptionTruncated, newMessage\<lparr>Opts := [\<lparr>ID = URIPath, Value = VString [0x61]\<rparr>]\<rparr>)"
      by (elim conjE) assumption
    then show ?thesis using p by (rule mp)
  qed
  have k2: "coderv2_Decode ?k newMessage = (Fail ErrInvalidRCRC16, v2_decoded ?k 1 [] newMessage)"
  proof -
    have p: "8 \<le> length ?k \<and> RSUM8 ?k = 0 \<and> drop_bit 6 (?k ! 0) = 2 \<and> uint (drop_bit 2 (?k ! 0) AND 0xf) \<le> 8 \<and> uint (drop_bit 2 (?k ! 0) AND 0xf) \<le> int (length (drop 8 ?k)) \<and> Options_Unmarshal (Opts newMessage) (OptsCap newMessage) (drop (nat (uint (drop_bit 2 (?k ! 0) AND 0xf))) (drop 8 ?k)) CoapOptionDefs = (Ok 1, []) \<and> 0 \<le> (1::int) \<and> nat 1 \<le> length (drop (nat (uint (drop_bit 2 (?k ! 0) AND 0xf))) (drop 8 ?k)) \<and> Uint16 (take 2 (drop 2 ?k)) \<noteq> CRC16Bytes (drop (nat 1) (drop (nat (uint (drop_bit 2 (?k ! 0) AND 0xf))) (drop 8 ?k)))"
      by code_simp
    from decode_failure_output[of ?k newMessage ErrInvalidRCRC16 "[]" 1]
    have "8 \<le> length ?k \<and> RSUM8 ?k = 0 \<and> drop_bit 6 (?k ! 0) = 2 \<and> uint (drop_bit 2 (?k ! 0) AND 0xf) \<le> 8 \<and> uint (drop_bit 2 (?k ! 0) AND 0xf) \<le> int (length (drop 8 ?k)) \<and> Options_Unmarshal (Opts newMessage) (OptsCap newMessage) (drop (nat (uint (drop_bit 2 (?k ! 0) AND 0xf))) (drop 8 ?k)) CoapOptionDefs = (Ok 1, []) \<and> 0 \<le> (1::int) \<and> nat 1 \<le> length (drop (nat (uint (drop_bit 2 (?k ! 0) AND 0xf))) (drop 8 ?k)) \<and> Uint16 (take 2 (drop 2 ?k)) \<noteq> CRC16Bytes (drop (nat 1) (drop (nat (uint (drop_bit 2 (?k ! 0) AND 0xf))) (drop 8 ?k))) \<longrightarrow>
      coderv2_Decode ?k newMessage = (Fail ErrInvalidRCRC16, v2_decoded ?k 1 [] newMessage)"
      by (elim conjE) assumption
    then show ?thesis using p by (rule mp)
  qed
  have va: "v0_decoded ?a newMessage =
      \<lparr>Ver = 0, Token = [], Opts = [], OptsCap = 16, Code = 0, Payload = [0x42], MessageID = -1,
       Type = 2, EncoderID = 1, EncoderType = 0, Crc16 = 0x1234, Rsum8 = 0\<rparr>" by code_simp
  have vk: "v2_decoded ?k 1 [] newMessage =
      \<lparr>Ver = 0, Token = [], Opts = [], OptsCap = 16, Code = 2, Payload = [0x68, 0x69], MessageID = 1,
       Type = 1, EncoderID = 5, EncoderType = 0, Crc16 = 0x5FEE, Rsum8 = 0\<rparr>" by code_simp
  show ?thesis
    using a0 a1 b0 b2 c0 c1 d2 e1 f2 g2 h2 i1 j2 k2 unfolding va vk by simp
qed

text \<open>
  The version 0 frame \<open>01 00 00 00 41\<close> has the CRC field 0, which is not the CRC of its
  payload: \<^verbatim>\<open>Coder.Decode\<close> returns \<^verbatim>\<open>ErrInvalidRCRC16\<close>, and the message that was fresh now
  holds the payload and the type of the frame. The version 1 frame \<open>40 01 12 34 B1 61 02\<close>
  has the option \<open>URIPath\<close> \<open>a\<close> and then an option header that announces two bytes where
  none is left: \<^verbatim>\<open>Coder.Decode\<close> returns \<^verbatim>\<open>ErrOptionTruncated\<close>, and the option container that
  was empty holds the first option (with \<^verbatim>\<open>Options.Unmarshal\<close> as modelled).
\<close>

theorem decode_failure_output_counterexample:
  "coderv0_Decode [0x01, 0x00, 0x00, 0x00, 0x41] newMessage =
     (Fail ErrInvalidRCRC16,
      \<lparr>Ver = 0, Token = [], Opts = [], OptsCap = 16, Code = 0, Payload = [0x41], MessageID = -1,
       Type = 1, EncoderID = 0, EncoderType = 0, Crc16 = 0, Rsum8 = 0\<rparr>) \<and>
   snd (coderv0_Decode [0x01, 0x00, 0x00, 0x00, 0x41] newMessage) \<noteq> newMessage \<and>
   Payload newMessage = [] \<and> Type newMessage = -1 \<and>
   coderv1_Decode [0x40, 0x01, 0x12, 0x34, 0xB1, 0x61, 0x02] newMessage =
     (Fail ErrOptionTruncated,
      \<lparr>Ver = 0, Token = [], Opts = [\<lparr>ID = URIPath, Value = VString [0x61]\<rparr>], OptsCap = 16, Code = 0, Payload = [],
       MessageID = -1, Type = -1, EncoderID = 0, EncoderType = 0, Crc16 = 0, Rsum8 = 0\<rparr>) \<and>
   Opts newMessage = []"
  by code_simp

text \<open>
  The same for version 2, on a frame with a valid RSUM8 and a wrong CRC field (with
  \<^verbatim>\<open>RSUM8\<close> and the option loop as modelled).
\<close>

lemma coderv2_Decode_crc_example:
  "coderv2_Decode [0x81, 0x50, 0x5F, 0xEE, 0x00, 0x01, 0x02, 0x04, 0xFF, 0x68, 0x69] newMessage =
     (Fail ErrInvalidRCRC16,
      \<lparr>Ver = 0, Token = [], Opts = [], OptsCap = 16, Code = 2, Payload = [0x68, 0x69], MessageID = 1,
       Type = 1, EncoderID = 5, EncoderType = 0, Crc16 = 0x5FEE, Rsum8 = 0\<rparr>)"
  by code_simp

section \<open>RSUM8 in the encoder of version 2\<close>

text \<open>
  A non-confirmable POST of version 2 with the message ID 1, the encoder ID 5, no token, no
  options and the payload \<open>hi\<close>: all its fields are valid, and its frame has 11 bytes.
\<close>

definition post_hi :: Message where
  "post_hi = zeroMessage\<lparr>Ver := Version2, Type := NonConfirmable, Code := POST, MessageID := 1,
     EncoderID := 5, EncoderType := 0, Payload := [0x68, 0x69]\<rparr>"

text \<open>
  Claim C1 fails for \<^verbatim>\<open>Coder.Encode\<close> of coder/coderv2/coder.go. Its last statement
  \<^verbatim>\<open>buf[7] = secoapcore.RSUM8(buf[:size])\<close> works on the slice that the function has advanced
  to the payload. With a buffer of exactly \<^verbatim>\<open>Size(m)\<close> = 11 bytes and no spare capacity the
  call panics. With a buffer of 32 bytes it returns 11 and no error, but byte 7 of the frame
  is still 0 and the checksum of the 11 bytes from the payload on has been stored 7 bytes
  after the start of the payload, at byte 16 of the buffer, outside the frame: RSUM8 of the
  frame is 5, not 0, and \<^verbatim>\<open>Coder.Decode\<close> rejects the frame with \<^verbatim>\<open>ErrMessageInvalidRSUM8\<close>. The
  other copy of the file (src/unnamed/part\_001) stores the checksum of the frame at byte 7
  of the frame, RSUM8 of its frame is 0, and its \<^verbatim>\<open>Coder.Decode\<close> accepts it.
\<close>

theorem coderv2_Encode_rsum8_misplaced:
  "length (Token post_hi) \<le> 8 \<and> ValidateMID (MessageID post_hi) \<and> ValidateType (Type post_hi) \<and>
   ValidateEID (EncoderID post_hi) \<and> ValidateETP (EncoderType post_hi) \<and>
   coderv2_Size post_hi = (11, None) \<and>
   coderv2_Encode post_hi (replicate 11 0) [] = Panic \<and>
   coderv2_Encode post_hi (replicate 32 0) [] =
     Return ((11, None),
       [0x81, 0x50, 0x5E, 0xEE, 0x00, 0x01, 0x02, 0x00, 0xFF, 0x68, 0x69,
        0, 0, 0, 0, 0, 0x24, 0, 0, 0, 0, 0, 0, 0, 0, 0, 0, 0, 0, 0, 0, 0]) \<and>
   RSUM8 [0x81, 0x50, 0x5E, 0xEE, 0x00, 0x01, 0x02, 0x00, 0xFF, 0x68, 0x69] = 5 \<and>
   coderv2_Decode [0x81, 0x50, 0x5E, 0xEE, 0x00, 0x01, 0x02, 0x00, 0xFF, 0x68, 0x69] newMessage =
     (Fail ErrMessageInvalidRSUM8, newMessage) \<and>
   coderv2_Encode_part001 post_hi (replicate 11 0) =
     Return ((11, None), [0x81, 0x50, 0x5E, 0xEE, 0x00, 0x01, 0x02, 0x05, 0xFF, 0x68, 0x69]) \<and>
   RSUM8 [0x81, 0x50, 0x5E, 0xEE, 0x00, 0x01, 0x02, 0x05, 0xFF, 0x68, 0x69] = 0 \<and>
   coderv2_Decode_part001 [0x81, 0x50, 0x5E, 0xEE, 0x00, 0x01, 0x02, 0x05, 0xFF, 0x68, 0x69] newMessage =
     (Ok 11, \<lparr>Ver = 2, Token = [], Opts = [], OptsCap = 16, Code = 2, Payload = [0x68, 0x69],
              MessageID = 1, Type = 1, EncoderID = 5, EncoderType = 0, Crc16 = 0x5EEE, Rsum8 = 0\<rparr>)"
  by code_simp


section \<open>Options that the registry does not know\<close>

text \<open>
  \<^verbatim>\<open>Option.Unmarshal\<close> returns an error for an ID that is not a key of the registry, and skips
  a registered option whose length is out of bounds; \<^verbatim>\<open>parseOptionValue\<close>, which
  \<^verbatim>\<open>Message.UnmarshalBinary\<close> calls, skips both.
\<close>

lemma Option_Unmarshal_unregistered:
  assumes "optionDefs optionID = None"
  shows "Option_Unmarshal optionDefs o' optionID data = Fail (ErrUnrecognizedOption optionID)"
  using assms by (simp add: Option_Unmarshal_def)

lemma Option_Unmarshal_length_invalid:
  assumes "optionDefs optionID = Some d"
    and "\<not> VerifyOptLen optionDefs optionID (int (length data))"
  shows "Option_Unmarshal optionDefs o' optionID data = Ok (int (length data), o')"
  using assms by (simp add: Option_Unmarshal_def Let_def)

lemma parseOptionValue_unregistered:
  assumes "CoapOptionDefs optionID = None"
  shows "parseOptionValue optionID valueBuf = Ok None"
  using assms by (simp add: parseOptionValue_def map_index_def Let_def)

lemma parseOptionValue_length_invalid:
  assumes "\<not> VerifyOptLen CoapOptionDefs optionID (int (length valueBuf))"
  shows "parseOptionValue optionID valueBuf = Ok None"
  using assms by (auto simp add: parseOptionValue_def VerifyOptLen_def Let_def split: if_splits)

text \<open>
  Claim C5 fails for an option whose ID is not in the registry. The version 1 frame
  \<open>40 01 12 34 21 00\<close> is a GET with one option of the ID 2 and one value byte; 2 is not a
  key of \<^verbatim>\<open>CoapOptionDefs\<close>. \<^verbatim>\<open>Option.Unmarshal\<close> returns the error \<^verbatim>\<open>unrecognized option 2\<close>, and
  \<^verbatim>\<open>Coder.Decode\<close> of version 1 (with \<^verbatim>\<open>Options.Unmarshal\<close> as modelled, which returns the
  error of \<^verbatim>\<open>Option.Unmarshal\<close>) fails with it. \<^verbatim>\<open>ParseMessage\<close> of the root package accepts the
  same frame and leaves the option out. A registered option whose length is out of bounds
  (\<open>Observe\<close> with four bytes in the frame \<open>40 01 12 34 64 01 00 00 00\<close>) is skipped by both.
\<close>

theorem unregistered_option_fails_decode:
  "CoapOptionDefs 2 = None \<and>
   Option_Unmarshal CoapOptionDefs zeroOption 2 [0x00] = Fail (ErrUnrecognizedOption 2) \<and>
   coderv1_Decode [0x40, 0x01, 0x12, 0x34, 0x21, 0x00] newMessage =
     (Fail (ErrUnrecognizedOption 2), newMessage) \<and>
   ParseMessage [0x40, 0x01, 0x12, 0x34, 0x21, 0x00] =
     (Ok (), \<lparr>Ver = 0, Token = [], Opts = [], OptsCap = 0, Code = 1, Payload = [],
              MessageID = 0x1234, Type = 0, EncoderID = 0, EncoderType = 0, Crc16 = 0, Rsum8 = 0\<rparr>) \<and>
   Option_Unmarshal CoapOptionDefs zeroOption Observe [0x01, 0x00, 0x00, 0x00] = Ok (4, zeroOption) \<and>
   coderv1_Decode [0x40, 0x01, 0x12, 0x34, 0x64, 0x01, 0x00, 0x00, 0x00] newMessage =
     (Ok 9, \<lparr>Ver = 1, Token = [], Opts = [], OptsCap = 16, Code = 1, Payload = [],
             MessageID = 0x1234, Type = 0, EncoderID = 0, EncoderType = 0, Crc16 = 0, Rsum8 = 0\<rparr>) \<and>
   ParseMessage [0x40, 0x01, 0x12, 0x34, 0x64, 0x01, 0x00, 0x00, 0x00] =
     (Ok (), \<lparr>Ver = 0, Token = [], Opts = [], OptsCap = 0, Code = 1, Payload = [],
              MessageID = 0x1234, Type = 0, EncoderID = 0, EncoderType = 0, Crc16 = 0, Rsum8 = 0\<rparr>)"
  by code_simp

end
